(* ===== verification/Prelude.thy ===== *)
theory Prelude
  imports Complex_Main "HOL-Library.Char_ord" "HOL-Library.List_Lexorder"
begin

text \<open>
  What the components share: Go's 64-bit \<open>int\<close> with its wrap-around written out,
  instants and durations, error values, and the collections of rewrite rules.
\<close>

section \<open>Collections of rewrite rules\<close>

named_theorems int64_simps \<open>arithmetic on 64-bit integers that stay in range\<close>
named_theorems frame \<open>fields an operation leaves unchanged\<close>
named_theorems policy_defs \<open>definitions of the decision engine\<close>

section \<open>Go's int and time.Duration: 64-bit two's complement\<close>

definition int64_min :: int where "int64_min = - (2 ^ 63)"
definition int64_max :: int where "int64_max = 2 ^ 63 - 1"

definition in64 :: "int \<Rightarrow> bool" where
  "in64 x \<longleftrightarrow> int64_min \<le> x \<and> x \<le> int64_max"

definition wrap64 :: "int \<Rightarrow> int" where
  "wrap64 x = (x + 2 ^ 63) mod 2 ^ 64 - 2 ^ 63"

definition add64 :: "int \<Rightarrow> int \<Rightarrow> int" where "add64 a b = wrap64 (a + b)"
definition sub64 :: "int \<Rightarrow> int \<Rightarrow> int" where "sub64 a b = wrap64 (a - b)"

text \<open>Saturation, as \<open>time.Time.Sub\<close> does it.\<close>

definition clamp64 :: "int \<Rightarrow> int" where
  "clamp64 x = max int64_min (min int64_max x)"

lemma in64_small [int64_simps]: "\<bar>x\<bar> \<le> 2 ^ 62 \<Longrightarrow> in64 x"
  by (auto simp: in64_def int64_min_def int64_max_def)

lemma in64_numeral: "in64 x \<longleftrightarrow> - 9223372036854775808 \<le> x \<and> x \<le> 9223372036854775807"
  by (simp add: in64_def int64_min_def int64_max_def)

lemma wrap64_id [int64_simps]: "in64 x \<Longrightarrow> wrap64 x = x"
  by (simp add: wrap64_def in64_def int64_min_def int64_max_def)

lemma in64_wrap64: "in64 (wrap64 x)"
proof -
  have "0 \<le> (x + 2 ^ 63) mod 2 ^ 64" and "(x + 2 ^ 63) mod 2 ^ 64 < 2 ^ 64" by simp_all
  then show ?thesis by (simp add: wrap64_def in64_def int64_min_def int64_max_def)
qed

lemma add64_exact [int64_simps]: "in64 (a + b) \<Longrightarrow> add64 a b = a + b"
  by (simp add: add64_def wrap64_id)

lemma sub64_exact [int64_simps]: "in64 (a - b) \<Longrightarrow> sub64 a b = a - b"
  by (simp add: sub64_def wrap64_id)

lemma in64_clamp64: "in64 (clamp64 x)"
  by (simp add: clamp64_def in64_def int64_min_def int64_max_def)

lemma clamp64_id [int64_simps]: "in64 x \<Longrightarrow> clamp64 x = x"
  by (simp add: clamp64_def in64_def)

lemma clamp64_mono: "x \<le> y \<Longrightarrow> clamp64 x \<le> clamp64 y"
  by (auto simp: clamp64_def)

lemma clamp64_0 [simp]: "clamp64 0 = 0"
  by (simp add: clamp64_def int64_min_def int64_max_def)

lemma clamp64_ge: "d \<le> clamp64 x \<Longrightarrow> int64_min < d \<Longrightarrow> d \<le> x"
  by (auto simp: clamp64_def split: if_splits simp: min_def max_def)

lemma clamp64_less: "clamp64 x < d \<Longrightarrow> d \<le> int64_max \<Longrightarrow> x < d"
  by (auto simp: clamp64_def min_def max_def split: if_splits)

lemma clamp64_geI: "d \<le> x \<Longrightarrow> d \<le> int64_max \<Longrightarrow> d \<le> clamp64 x"
  by (auto simp: clamp64_def min_def max_def)

section \<open>time.Time and time.Duration\<close>

text \<open>
  An instant is its distance in nanoseconds from Go's zero \<open>Time\<close> (January 1, year 1,
  00:00:00 UTC), so that \<open>t.IsZero()\<close> is \<open>t = 0\<close>. A duration is a 64-bit
  count of nanoseconds.
\<close>

type_synonym time = int
type_synonym duration = int

definition time_is_zero :: "time \<Rightarrow> bool" where "time_is_zero t \<longleftrightarrow> t = 0"
definition time_sub :: "time \<Rightarrow> time \<Rightarrow> duration" where "time_sub t u = clamp64 (t - u)"
definition time_add :: "time \<Rightarrow> duration \<Rightarrow> time" where "time_add t d = t + d"
definition time_before :: "time \<Rightarrow> time \<Rightarrow> bool" where "time_before t u \<longleftrightarrow> t < u"

abbreviation (input) nanosecond :: duration where "nanosecond \<equiv> 1"
definition second :: duration where "second = 1000000000"
definition minute :: duration where "minute = 60 * second"
definition hour :: duration where "hour = 60 * minute"

lemmas duration_defs = second_def minute_def hour_def
lemmas time_defs = time_is_zero_def time_sub_def time_add_def time_before_def

lemma time_sub_self [simp]: "time_sub t t = 0"
  by (simp add: time_sub_def)

lemma time_sub_mono: "t \<le> t' \<Longrightarrow> time_sub t u \<le> time_sub t' u"
  by (simp add: time_sub_def clamp64_mono)

section \<open>Errors\<close>

text \<open>
  Go's error values, as far as the program tells them apart: the causes, wrapped in the
  context \<open>fmt.Errorf\<close> adds with \<open>%w\<close>.
\<close>

datatype error = ErrTimeout \<comment> \<open>the MQTT token did not resolve in time\<close>
  | ErrBroker \<comment> \<open>the MQTT token resolved with an error\<close>
  | ErrDriver \<comment> \<open>the SQL driver reported an error\<close>
  | ErrNoRows \<comment> \<open>\<open>sql.ErrNoRows\<close>\<close>
  | ErrTimeSyntax \<comment> \<open>\<open>time.Parse\<close> failed\<close>
  | ErrInvalidChargePower | ErrInvalidAutoProfile | ErrInvalidStartThreshold | ErrInvalidTargetSoC
  | Wrapped string error

text \<open>\<open>errors.Is(err, target)\<close> for a target that wraps nothing.\<close>

fun error_is :: "error \<Rightarrow> error \<Rightarrow> bool" where
  "error_is (Wrapped c e) target = error_is e target"
| "error_is e target = (e = target)"

text \<open>A Go call returning only \<open>error\<close>: \<open>None\<close> is \<open>nil\<close>.\<close>

type_synonym status = "error option"

end
