(* ===== verification/Float64.thy ===== *)
theory Float64
  imports Prelude
begin

text \<open>
  Go's \<open>float64\<close>: IEEE 754 binary64 with round-to-nearest-even, executable. A finite
  value is the rational it denotes (both zeros apart); every arithmetic operation computes
  the exact rational and rounds it with \<open>fl\<close>, with overflow to an infinity, gradual
  underflow and the NaN rules written out. The order is the IEEE order, in which every
  comparison with a NaN is false, so \<open>\<le>\<close> and \<open><\<close> below read like the
  comparisons of the source. Structural equality \<open>=\<close> is not Go's \<open>==\<close>: that one is
  \<open>f64_eq\<close>.
\<close>

section \<open>Values\<close>

datatype f64 = NaN | PosInf | NegInf | NegZero | Fin rat

fun f64_val :: "f64 \<Rightarrow> rat" where
  "f64_val (Fin q) = q"
| "f64_val _ = 0"

fun is_nan :: "f64 \<Rightarrow> bool" where
  "is_nan NaN = True"
| "is_nan _ = False"

fun is_finite :: "f64 \<Rightarrow> bool" where
  "is_finite NegZero = True"
| "is_finite (Fin _) = True"
| "is_finite _ = False"

fun f64_signbit :: "f64 \<Rightarrow> bool" where
  "f64_signbit NegInf = True"
| "f64_signbit NegZero = True"
| "f64_signbit (Fin q) = (q < 0)"
| "f64_signbit _ = False"

section \<open>Rounding\<close>

function nbits :: "int \<Rightarrow> int" where
  "nbits n = (if n \<le> 0 then 0 else 1 + nbits (n div 2))"
  by pat_completeness auto
termination
  by (relation "measure nat") auto

declare nbits.simps [simp del]

definition pow2 :: "int \<Rightarrow> rat" where
  "pow2 k = (if 0 \<le> k then 2 ^ nat k else 1 / 2 ^ nat (- k))"

text \<open>The binary exponent of a positive rational: \<open>2^e \<le> q < 2^(e+1)\<close>.\<close>

definition ilog2 :: "rat \<Rightarrow> int" where
  "ilog2 q = (let (n, d) = quotient_of q; k = nbits n - nbits d
     in if pow2 k \<le> q then k else k - 1)"

text \<open>Round to the nearest integer, ties to even.\<close>

definition rne :: "rat \<Rightarrow> int" where
  "rne q = (let f = \<lfloor>q\<rfloor>; d = q - of_int f
     in if d < 1 / 2 then f else if 1 / 2 < d then f + 1 else if even f then f else f + 1)"

text \<open>The weight of the last place of the binary64 numbers around \<open>q\<close>.\<close>

definition ulp :: "rat \<Rightarrow> rat" where
  "ulp q = pow2 (max (ilog2 \<bar>q\<bar> - 52) (- 1074))"

definition f64_limit :: rat where "f64_limit = 2 ^ 1024"

definition fl :: "rat \<Rightarrow> f64" where
  "fl q = (if q = 0 then Fin 0 else
     let v = of_int (rne (q / ulp q)) * ulp q
     in if v = 0 then (if q < 0 then NegZero else Fin 0)
        else if f64_limit \<le> v then PosInf
        else if v \<le> - f64_limit then NegInf
        else Fin v)"

section \<open>Arithmetic and comparison\<close>

fun f64_neg :: "f64 \<Rightarrow> f64" where
  "f64_neg NaN = NaN"
| "f64_neg PosInf = NegInf"
| "f64_neg NegInf = PosInf"
| "f64_neg NegZero = Fin 0"
| "f64_neg (Fin q) = (if q = 0 then NegZero else Fin (- q))"

fun f64_add :: "f64 \<Rightarrow> f64 \<Rightarrow> f64" where
  "f64_add NaN _ = NaN"
| "f64_add _ NaN = NaN"
| "f64_add PosInf NegInf = NaN"
| "f64_add NegInf PosInf = NaN"
| "f64_add PosInf _ = PosInf"
| "f64_add _ PosInf = PosInf"
| "f64_add NegInf _ = NegInf"
| "f64_add _ NegInf = NegInf"
| "f64_add NegZero NegZero = NegZero"
| "f64_add a b = fl (f64_val a + f64_val b)"

definition f64_zero :: "bool \<Rightarrow> f64" where
  "f64_zero neg = (if neg then NegZero else Fin 0)"

definition f64_inf :: "bool \<Rightarrow> f64" where
  "f64_inf neg = (if neg then NegInf else PosInf)"

definition is_zero :: "f64 \<Rightarrow> bool" where
  "is_zero a \<longleftrightarrow> a = NegZero \<or> a = Fin 0"

definition f64_mul :: "f64 \<Rightarrow> f64 \<Rightarrow> f64" where
  "f64_mul a b = (let neg = (f64_signbit a \<noteq> f64_signbit b) in
     if is_nan a \<or> is_nan b then NaN
     else if \<not> is_finite a \<or> \<not> is_finite b
       then (if is_zero a \<or> is_zero b then NaN else f64_inf neg)
     else if is_zero a \<or> is_zero b then f64_zero neg
     else fl (f64_val a * f64_val b))"

definition f64_div :: "f64 \<Rightarrow> f64 \<Rightarrow> f64" where
  "f64_div a b = (let neg = (f64_signbit a \<noteq> f64_signbit b) in
     if is_nan a \<or> is_nan b then NaN
     else if \<not> is_finite a then (if \<not> is_finite b then NaN else f64_inf neg)
     else if \<not> is_finite b then f64_zero neg
     else if is_zero b then (if is_zero a then NaN else f64_inf neg)
     else if is_zero a then f64_zero neg
     else fl (f64_val a / f64_val b))"

fun f64_less :: "f64 \<Rightarrow> f64 \<Rightarrow> bool" where
  "f64_less NaN _ = False"
| "f64_less _ NaN = False"
| "f64_less PosInf _ = False"
| "f64_less _ NegInf = False"
| "f64_less NegInf _ = True"
| "f64_less _ PosInf = True"
| "f64_less a b = (f64_val a < f64_val b)"

instantiation f64 :: "{ord, plus, minus, times, divide, uminus, zero}"
begin

definition less_f64 :: "f64 \<Rightarrow> f64 \<Rightarrow> bool" where "less_f64 = f64_less"
definition less_eq_f64 :: "f64 \<Rightarrow> f64 \<Rightarrow> bool" where
  "less_eq_f64 a b \<longleftrightarrow> \<not> is_nan a \<and> \<not> is_nan b \<and> \<not> f64_less b a"
definition plus_f64 :: "f64 \<Rightarrow> f64 \<Rightarrow> f64" where "plus_f64 = f64_add"
definition uminus_f64 :: "f64 \<Rightarrow> f64" where "uminus_f64 = f64_neg"
definition minus_f64 :: "f64 \<Rightarrow> f64 \<Rightarrow> f64" where "minus_f64 a b = f64_add a (f64_neg b)"
definition times_f64 :: "f64 \<Rightarrow> f64 \<Rightarrow> f64" where "times_f64 = f64_mul"
definition divide_f64 :: "f64 \<Rightarrow> f64 \<Rightarrow> f64" where "divide_f64 = f64_div"
definition zero_f64 :: f64 where "zero_f64 = Fin 0"

instance
  by standard

end

lemmas f64_op_defs = less_f64_def less_eq_f64_def plus_f64_def uminus_f64_def minus_f64_def
  times_f64_def divide_f64_def zero_f64_def

text \<open>Go's \<open>==\<close>.\<close>

definition f64_eq :: "f64 \<Rightarrow> f64 \<Rightarrow> bool" where
  "f64_eq a b \<longleftrightarrow> a \<le> b \<and> b \<le> a"


section \<open>Conversions and the math package\<close>

definition f64_of_int :: "int \<Rightarrow> f64" where "f64_of_int n = fl (of_int n)"

text \<open>
  Conversion to a 64-bit integer truncates. A value out of range (or NaN) has an
  implementation-defined result in Go: the conversion takes it from the parameter \<open>oor\<close>
  (what the platform does).
\<close>

definition f64_to_int :: "(f64 \<Rightarrow> int) \<Rightarrow> f64 \<Rightarrow> int" where
  "f64_to_int oor a = (if \<not> is_finite a then oor a
     else let q = f64_val a; n = (if q < 0 then - \<lfloor>- q\<rfloor> else \<lfloor>q\<rfloor>)
          in if in64 n then n else oor a)"

text \<open>\<open>math.Round\<close>: half away from zero, exact.\<close>

fun f64_round :: "f64 \<Rightarrow> f64" where
  "f64_round (Fin q) = (let r = \<lfloor>\<bar>q\<bar> + 1 / 2\<rfloor>
     in if r = 0 then f64_zero (q < 0) else Fin (if q < 0 then - of_int r else of_int r))"
| "f64_round a = a"

text \<open>\<open>math.Mod\<close>: the remainder of truncating division, with the sign of \<open>x\<close>, exact.\<close>

definition f64_mod :: "f64 \<Rightarrow> f64 \<Rightarrow> f64" where
  "f64_mod x y =
    (if is_nan x \<or> is_nan y \<or> is_zero y \<or> (\<not> is_finite x) then NaN
     else if \<not> is_finite y then x
     else let a = f64_val x; b = f64_val y;
              r = \<bar>a\<bar> - \<bar>b\<bar> * of_int \<lfloor>\<bar>a\<bar> / \<bar>b\<bar>\<rfloor>
          in if r = 0 then f64_zero (f64_signbit x) else Fin (if a < 0 then - r else r))"

section \<open>The order\<close>

lemma f64_less_simps [simp]:
  "\<not> NaN < a" "\<not> a < NaN" "\<not> PosInf < a" "\<not> a < NegInf"
  "NegInf < PosInf" "NegInf < NegZero" "NegInf < Fin q" "NegZero < PosInf" "Fin q < PosInf"
  "\<not> NegZero < NegZero" "NegZero < Fin q \<longleftrightarrow> 0 < q" "Fin q < NegZero \<longleftrightarrow> q < 0"
  "Fin q < Fin r \<longleftrightarrow> q < r"
  by (cases a; simp add: less_f64_def)+

lemma f64_le_simps [simp]:
  "\<not> NaN \<le> a" "\<not> a \<le> NaN" "a \<le> PosInf \<longleftrightarrow> \<not> is_nan a" "NegInf \<le> a \<longleftrightarrow> \<not> is_nan a"
  "\<not> PosInf \<le> NegInf" "\<not> PosInf \<le> NegZero" "\<not> PosInf \<le> Fin q" "\<not> NegZero \<le> NegInf" "\<not> Fin q \<le> NegInf"
  "NegZero \<le> NegZero" "NegZero \<le> Fin q \<longleftrightarrow> 0 \<le> q" "Fin q \<le> NegZero \<longleftrightarrow> q \<le> 0"
  "Fin q \<le> Fin r \<longleftrightarrow> q \<le> r"
  by (cases a; auto simp: less_eq_f64_def)+

lemma f64_not_le: "\<not> is_nan a \<Longrightarrow> \<not> is_nan b \<Longrightarrow> (\<not> a \<le> b) = (b < a)" for a b :: f64
  by (simp add: less_eq_f64_def less_f64_def)

lemma f64_less_imp_not_le: "a < b \<Longrightarrow> \<not> b \<le> a" for a b :: f64
  by (simp add: less_eq_f64_def less_f64_def)

lemma f64_less_not_nan: "a < b \<Longrightarrow> \<not> is_nan a \<and> \<not> is_nan b" for a b :: f64
  by (cases a; cases b) auto

lemma f64_le_not_nan: "a \<le> b \<Longrightarrow> \<not> is_nan a \<and> \<not> is_nan b" for a b :: f64
  by (simp add: less_eq_f64_def)

lemma f64_less_imp_le: "a < b \<Longrightarrow> a \<le> b" for a b :: f64
  by (cases a; cases b) auto

lemma f64_le_trans: "a \<le> b \<Longrightarrow> b \<le> c \<Longrightarrow> a \<le> c" for a b c :: f64
  by (cases a; cases b; cases c) auto

lemma f64_less_le_trans: "a < b \<Longrightarrow> b \<le> c \<Longrightarrow> a < c" for a b c :: f64
  by (cases a; cases b; cases c) auto

lemma f64_le_less_trans: "a \<le> b \<Longrightarrow> b < c \<Longrightarrow> a < c" for a b c :: f64
  by (cases a; cases b; cases c) auto

lemma f64_le_refl [simp]: "a \<le> a \<longleftrightarrow> \<not> is_nan a" for a :: f64
  by (cases a) auto

lemma f64_less_irrefl [simp]: "\<not> a < a" for a :: f64
  by (cases a) auto

section \<open>Rounding is exact on representable values\<close>

lemma pow2_powi: "pow2 k = 2 powi k"
  by (simp add: pow2_def power_int_def power_one_over inverse_eq_divide)

lemma pow2_pos [simp]: "0 < pow2 k"
  by (simp add: pow2_powi)

lemma pow2_nonneg [simp]: "0 \<le> pow2 k"
  by (simp add: order_less_imp_le)

lemma pow2_neq_0 [simp]: "pow2 k \<noteq> 0"
  by (simp add: pow2_powi)

lemma pow2_add: "pow2 (j + k) = pow2 j * pow2 k"
  by (simp add: pow2_powi power_int_add)

lemma pow2_le: "j \<le> k \<Longrightarrow> pow2 j \<le> pow2 k"
  by (simp add: pow2_powi power_int_increasing)

lemma pow2_strict: "j < k \<Longrightarrow> pow2 j < pow2 k"
  by (simp add: pow2_powi power_int_strict_increasing)

lemma pow2_less_iff [simp]: "pow2 j < pow2 k \<longleftrightarrow> j < k"
  by (meson linorder_not_less order_less_imp_le pow2_le pow2_strict)

lemma pow2_nat: "0 \<le> k \<Longrightarrow> pow2 k = of_int (2 ^ nat k)"
  by (simp add: pow2_def)

lemma nbits_nonneg: "0 \<le> nbits z"
  by (induction z rule: nbits.induct) (simp add: nbits.simps)

lemma nbits_pos: "0 < z \<Longrightarrow> 0 < nbits z"
  using nbits_nonneg[of "z div 2"] by (simp add: nbits.simps[of z])

lemma nbits_bounds: "0 < z \<Longrightarrow> 2 ^ nat (nbits z - 1) \<le> z \<and> z < 2 ^ nat (nbits z)"
proof (induction z rule: nbits.induct)
  case (1 z)
  let ?h = "z div 2"
  have n: "nbits z = 1 + nbits ?h" using "1.prems" by (simp add: nbits.simps[of z])
  show ?case
  proof (cases "0 < ?h")
    case True
    with 1 have lo: "2 ^ nat (nbits ?h - 1) \<le> ?h" and hi: "?h < 2 ^ nat (nbits ?h)" by auto
    have "nat (nbits ?h) = Suc (nat (nbits ?h - 1))" using nbits_pos[OF True] by linarith
    then have "(2 :: int) ^ nat (nbits ?h) = 2 * 2 ^ nat (nbits ?h - 1)" by simp
    with lo have "2 ^ nat (nbits ?h) \<le> z" by linarith
    moreover have "z < 2 * 2 ^ nat (nbits ?h)" using hi by linarith
    moreover have "nat (nbits z) = Suc (nat (nbits ?h))" using n nbits_nonneg[of ?h] by simp
    ultimately show ?thesis using n by simp
  next
    case False
    with "1.prems" have "z = 1" by linarith
    then show ?thesis by (simp add: nbits.simps[of 1] nbits.simps[of 0])
  qed
qed

lemma nbits_pow2:
  assumes "0 < z"
  shows "pow2 (nbits z - 1) \<le> of_int z" and "of_int z < pow2 (nbits z)"
proof -
  have p: "0 \<le> nbits z - 1" "0 \<le> nbits z" using nbits_pos[OF assms] by simp_all
  show "pow2 (nbits z - 1) \<le> of_int z" "of_int z < pow2 (nbits z)"
    using nbits_bounds[OF assms] by (simp_all only: pow2_nat[OF p(1)] pow2_nat[OF p(2)] of_int_le_iff of_int_less_iff)
qed

lemma ilog2_bounds:
  assumes "0 < q"
  shows "pow2 (ilog2 q) \<le> q" and "q < pow2 (ilog2 q + 1)"
proof -
  obtain n d where nd: "quotient_of q = (n, d)" by force
  have d: "0 < d" using quotient_of_denom_pos[OF nd] .
  have q: "q = of_int n / of_int d" using quotient_of_div[OF nd] .
  have n: "0 < n" using assms d by (simp add: q zero_less_divide_iff)
  define a where "a = nbits n"
  define b where "b = nbits d"
  have n_lo: "pow2 (a - 1) \<le> of_int n" and n_hi: "of_int n < pow2 a"
    using n unfolding a_def by (simp_all add: nbits_pow2)
  have d_lo: "pow2 (b - 1) \<le> of_int d" and d_hi: "of_int d < pow2 b"
    using d unfolding b_def by (simp_all add: nbits_pow2)
  have hi: "q < pow2 (a - b + 1)"
  proof -
    have "pow2 (a - b + 1) * of_int d \<ge> pow2 (a - b + 1) * pow2 (b - 1)"
      using d_lo by (intro mult_left_mono) auto
    moreover have "pow2 (a - b + 1) * pow2 (b - 1) = pow2 a" by (simp flip: pow2_add)
    ultimately show ?thesis using n_hi d by (simp add: q divide_less_eq)
  qed
  have lo: "pow2 (a - b - 1) \<le> q"
  proof -
    have "pow2 (a - b - 1) * of_int d \<le> pow2 (a - b - 1) * pow2 b"
      using d_hi by (intro mult_left_mono) auto
    moreover have "pow2 (a - b - 1) * pow2 b = pow2 (a - 1)" by (simp flip: pow2_add)
    ultimately show ?thesis using n_lo d by (simp add: q le_divide_eq)
  qed
  have e: "ilog2 q = (if pow2 (a - b) \<le> q then a - b else a - b - 1)"
    by (simp add: ilog2_def nd a_def b_def Let_def)
  show "pow2 (ilog2 q) \<le> q" using lo by (simp add: e)
  show "q < pow2 (ilog2 q + 1)" using hi by (simp add: e not_le)
qed

lemma ilog2_less: "0 < q \<Longrightarrow> q < pow2 k \<Longrightarrow> ilog2 q < k"
  using ilog2_bounds(1)[of q] by (meson le_less_trans pow2_less_iff)

lemma ilog2_ge: "pow2 k \<le> q \<Longrightarrow> k \<le> ilog2 q"
proof -
  assume k: "pow2 k \<le> q"
  then have "0 < q" using pow2_pos[of k] by linarith
  then have "pow2 k < pow2 (ilog2 q + 1)" using k ilog2_bounds(2)[of q] by linarith
  then show ?thesis by simp
qed

lemma rne_of_int [simp]: "rne (of_int n) = n"
  by (simp add: rne_def)

lemma fl_0 [simp]: "fl 0 = Fin 0"
  by (simp add: fl_def)

text \<open>The values a \<open>float64\<close> variable can hold: a \<open>Fin\<close> that rounding leaves alone.\<close>

fun representable :: "f64 \<Rightarrow> bool" where
  "representable (Fin q) = (fl q = Fin q)"
| "representable _ = True"

lemma fl_below_limit: "fl q = Fin v \<Longrightarrow> v < f64_limit"
  by (auto simp: fl_def f64_limit_def Let_def split: if_splits)

text \<open>A rational of the form \<open>m * 2^e\<close> with a 53-bit \<open>m\<close> in the exponent range is a \<open>float64\<close>.\<close>

lemma fl_exact:
  assumes q: "q = of_int m * pow2 e" and m: "\<bar>m\<bar> < 2 ^ 53" and e: "- 1074 \<le> e"
    and big: "\<bar>q\<bar> < f64_limit"
  shows "fl q = Fin q"
proof (cases "q = 0")
  case False
  define k where "k = max (ilog2 \<bar>q\<bar> - 52) (- 1074)"
  have "\<bar>q\<bar> = of_int \<bar>m\<bar> * pow2 e" by (simp add: q abs_mult order_less_imp_le)
  moreover have "(of_int \<bar>m\<bar> :: rat) < 2 ^ 53" using m by (metis of_int_less_iff of_int_numeral of_int_power)
  ultimately have "\<bar>q\<bar> < 2 ^ 53 * pow2 e" by (metis mult_strict_right_mono pow2_pos)
  then have "\<bar>q\<bar> < pow2 53 * pow2 e" by (simp add: pow2_def[of 53])
  then have "\<bar>q\<bar> < pow2 (53 + e)" by (simp add: pow2_add)
  then have "ilog2 \<bar>q\<bar> < 53 + e" using False ilog2_less by simp
  then have ke: "k \<le> e" using e by (simp add: k_def)
  have "q / ulp q = of_int m * (pow2 e / pow2 k)" by (simp add: ulp_def k_def q)
  also have "pow2 e / pow2 k = pow2 (e - k)"
    using pow2_add[of "e - k" k] by (simp add: field_simps)
  also have "\<dots> = of_int (2 ^ nat (e - k))" using ke by (simp add: pow2_nat)
  finally have int: "q / ulp q = of_int (m * 2 ^ nat (e - k))" by simp
  then have "of_int (rne (q / ulp q)) * ulp q = q"
    using False by (simp only: rne_of_int) (simp add: ulp_def field_simps)
  then show ?thesis using False big by (auto simp: fl_def Let_def abs_less_iff)
qed simp

lemma fl_of_int_exact [simp]:
  assumes "\<bar>n\<bar> \<le> 2 ^ 53"
  shows "fl (of_int n) = Fin (of_int n)"
proof -
  have "\<bar>of_int n :: rat\<bar> \<le> 2 ^ 53"
    using assms by (metis of_int_abs of_int_le_iff of_int_numeral of_int_power)
  then have big: "\<bar>of_int n :: rat\<bar> < f64_limit" by (simp add: f64_limit_def)
  show ?thesis
  proof (cases "\<bar>n\<bar> = 2 ^ 53")
    case True
    then have "n = sgn n * 2 ^ 53" by (metis mult_sgn_abs)
    then have "(of_int n :: rat) = of_int (sgn n) * pow2 53"
      by (metis of_int_mult pow2_nat nat_numeral zero_le_numeral)
    then show ?thesis by (rule fl_exact) (use big in \<open>auto simp: sgn_if\<close>)
  next
    case False
    with assms show ?thesis by (intro fl_exact[where m = n and e = 0] big) (auto simp: pow2_def)
  qed
qed

section \<open>Evaluation rules for the arithmetic\<close>

lemma f64_plus_simps [simp]:
  "NaN + a = NaN" "a + NaN = NaN" "Fin p + Fin q = fl (p + q)" "Fin p + NegZero = fl p"
  "NegZero + Fin q = fl q" "NegZero + NegZero = NegZero" "Fin p + PosInf = PosInf"
  "PosInf + Fin p = PosInf" "Fin p + NegInf = NegInf" "NegInf + Fin p = NegInf"
  by (cases a; simp add: plus_f64_def)+

lemma f64_minus_simps [simp]:
  "NaN - a = NaN" "a - NaN = NaN" "Fin p - Fin q = fl (p - q)" "Fin p - NegZero = fl p"
  "Fin p - PosInf = NegInf" "PosInf - Fin p = PosInf" "Fin p - NegInf = PosInf"
  by (cases a; simp add: minus_f64_def)+

lemma f64_zero_Fin: "(0 :: f64) = Fin 0"
  by (simp add: zero_f64_def)

text \<open>Whole watts: values that are integers of at most 53 bits.\<close>

definition whole :: "int \<Rightarrow> f64" where "whole n = Fin (of_int n)"

lemma whole_less [simp]: "whole m < whole n \<longleftrightarrow> m < n"
  and whole_le [simp]: "whole m \<le> whole n \<longleftrightarrow> m \<le> n"
  by (simp_all add: whole_def)

lemma whole_minus: "\<bar>m - n\<bar> \<le> 2 ^ 53 \<Longrightarrow> whole m - whole n = whole (m - n)"
  using fl_of_int_exact[of "m - n"] by (simp add: whole_def)

lemma whole_plus: "\<bar>m + n\<bar> \<le> 2 ^ 53 \<Longrightarrow> whole m + whole n = whole (m + n)"
  using fl_of_int_exact[of "m + n"] by (simp add: whole_def)

section \<open>Rounding errs by at most half a unit in the last place\<close>

lemma rne_close: "\<bar>of_int (rne q) - q\<bar> \<le> 1 / 2"
  by (auto simp: rne_def Let_def abs_if) linarith+

lemma fl_close:
  assumes "0 < q" "q < 2 ^ 63"
  obtains v where "fl q = Fin v" "\<bar>v - q\<bar> \<le> 512"
proof -
  define u where "u = ulp q"
  define v where "v = of_int (rne (q / u)) * u"
  have "ilog2 q < 63" using assms by (intro ilog2_less) (simp_all add: pow2_def)
  then have "u \<le> pow2 10" unfolding u_def ulp_def using assms(1) by (intro pow2_le) simp
  then have u: "0 < u" "u \<le> 1024" by (simp_all add: u_def ulp_def) (simp add: pow2_def)
  have "v - q = (of_int (rne (q / u)) - q / u) * u" using u(1) by (simp add: v_def left_diff_distrib)
  then have "\<bar>v - q\<bar> = \<bar>of_int (rne (q / u)) - q / u\<bar> * u" using u(1) by (simp add: abs_mult)
  also have "\<dots> \<le> 1 / 2 * u" using u(1) rne_close by (intro mult_right_mono) simp_all
  finally have c: "\<bar>v - q\<bar> \<le> 512" using u(2) by linarith
  have "(2 :: rat) ^ 63 + 512 < f64_limit" by (simp add: f64_limit_def)
  with c assms have "v < f64_limit" "- f64_limit < v" by linarith+
  with assms(1) have "fl q = Fin v" by (simp add: fl_def Let_def v_def u_def)
  with c show ?thesis by (rule that[rotated])
qed

lemma f64_to_int_close:
  assumes "0 < q" "q < 2 ^ 63 - 1024" "\<bar>v - q\<bar> \<le> 512"
  shows "\<bar>of_int (f64_to_int oor (Fin v)) - q\<bar> \<le> 513"
proof -
  define n where "n = (if v < 0 then - \<lfloor>- v\<rfloor> else \<lfloor>v\<rfloor>)"
  have n: "of_int n \<le> v + 1" "v - 1 \<le> of_int n"
  proof -
    note c = floor_correct[of v] floor_correct[of "- v"]
    have "(of_int n :: rat) = - of_int \<lfloor>- v\<rfloor> \<or> (of_int n :: rat) = of_int \<lfloor>v\<rfloor>" by (simp add: n_def)
    with c show "of_int n \<le> v + 1" "v - 1 \<le> of_int n" by linarith+
  qed
  with assms have "of_int n \<le> (2 ^ 63 - 511 :: rat)" "- 513 \<le> (of_int n :: rat)" by linarith+
  then have "(of_int n :: rat) \<le> of_int (2 ^ 63 - 511)" "of_int (- 513) \<le> (of_int n :: rat)" by simp_all
  then have "n \<le> 2 ^ 63 - 511" "- 513 \<le> n" by (simp_all only: of_int_le_iff)
  then have "f64_to_int oor (Fin v) = n" by (simp add: f64_to_int_def n_def[symmetric] in64_def int64_min_def int64_max_def)
  with n assms(3) show ?thesis by linarith
qed

end
