(* ===== verification/Config.thy ===== *)
theory Config
  imports Float64
begin

text \<open>
  \<open>internal/config/config.go\<close>: the resolved configuration, its defaults and its
  validation. Every record below is what \<open>Load\<close> (in theory \<open>Startup\<close>) unmarshals into, and
  \<open>validate\<close> is the check it ends with.
\<close>

section \<open>The configuration model\<close>

text \<open>Field prefixes keep the record selectors apart: \<open>cfg_\<close> for \<open>config.Control\<close> and so on.\<close>

record mqtt_config =
  mq_broker :: string
  mq_client_id :: string
  mq_username :: string
  mq_password :: string
  mq_topic_prefix :: string

record evcc_config =
  ev_loadpoint_id :: string

record control =
  cfg_enable_mode :: string
  cfg_auto_profile :: string
  cfg_start_threshold :: f64
  cfg_stop_threshold :: f64
  cfg_start_dwell :: duration
  cfg_stop_dwell :: duration
  cfg_soc_cap :: int
  cfg_soc_resume_below :: int
  cfg_soc_max :: int
  cfg_decision_interval :: duration
  cfg_stale_timeout :: duration
  cfg_republish :: duration
  cfg_retention_window :: duration
  cfg_retention_interval :: duration

record web_config =
  wb_bind_addr :: string
  wb_port :: int
  wb_ca_root_path :: string

record db_config =
  db_path :: string

record log_config =
  log_level :: string

record update_config =
  up_enabled :: bool
  up_repository :: string
  up_request_dir :: string
  up_check_ttl :: duration

record config =
  c_mqtt :: mqtt_config
  c_evcc :: evcc_config
  c_control :: control
  c_web :: web_config
  c_db :: db_config
  c_log :: log_config
  c_update :: update_config

section \<open>Charge modes and auto-charge profiles\<close>

definition EnableModePV :: string where "EnableModePV = ''pv''"
definition EnableModeNow :: string where "EnableModeNow = ''now''"
definition AutoProfileSurplus :: string where "AutoProfileSurplus = ''surplus''"
definition AutoProfilePowerLatch :: string where "AutoProfilePowerLatch = ''power_latch''"
definition AutoProfileSurplusLatch :: string where "AutoProfileSurplusLatch = ''surplus_latch''"

lemmas mode_defs = EnableModePV_def EnableModeNow_def
lemmas profile_defs = AutoProfileSurplus_def AutoProfilePowerLatch_def AutoProfileSurplusLatch_def

lemma profiles_distinct [simp]:
  "AutoProfileSurplus \<noteq> AutoProfilePowerLatch" "AutoProfilePowerLatch \<noteq> AutoProfileSurplus"
  "AutoProfileSurplus \<noteq> AutoProfileSurplusLatch" "AutoProfileSurplusLatch \<noteq> AutoProfileSurplus"
  "AutoProfilePowerLatch \<noteq> AutoProfileSurplusLatch" "AutoProfileSurplusLatch \<noteq> AutoProfilePowerLatch"
  "AutoProfileSurplus \<noteq> []" "AutoProfilePowerLatch \<noteq> []" "AutoProfileSurplusLatch \<noteq> []"
  by (simp_all add: profile_defs)

lemma modes_distinct [simp]:
  "EnableModePV \<noteq> EnableModeNow" "EnableModeNow \<noteq> EnableModePV" "EnableModePV \<noteq> []" "EnableModeNow \<noteq> []"
  by (simp_all add: mode_defs)

section \<open>Defaults\<close>

definition default_config :: config where
  "default_config = \<lparr>
     c_mqtt = \<lparr>mq_broker = ''tcp://localhost:1883'', mq_client_id = ''wha'', mq_username = '''',
               mq_password = '''', mq_topic_prefix = ''evcc''\<rparr>,
     c_evcc = \<lparr>ev_loadpoint_id = ''1''\<rparr>,
     c_control = \<lparr>
       cfg_enable_mode = EnableModePV,
       cfg_auto_profile = AutoProfileSurplus,
       cfg_start_threshold = Fin 1400,
       cfg_stop_threshold = Fin 0,
       cfg_start_dwell = 2 * minute,
       cfg_stop_dwell = 3 * minute,
       cfg_soc_cap = 80,
       cfg_soc_resume_below = 78,
       cfg_soc_max = 100,
       cfg_decision_interval = 15 * second,
       cfg_stale_timeout = 60 * second,
       cfg_republish = 5 * minute,
       cfg_retention_window = 90 * 24 * hour,
       cfg_retention_interval = 6 * hour\<rparr>,
     c_web = \<lparr>wb_bind_addr = ''0.0.0.0'', wb_port = 8080, wb_ca_root_path = ''''\<rparr>,
     c_db = \<lparr>db_path = ''/data/wha.db''\<rparr>,
     c_log = \<lparr>log_level = ''info''\<rparr>,
     c_update = \<lparr>up_enabled = False, up_repository = ''joessst-dev/wha'',
                 up_request_dir = ''/run/update'', up_check_ttl = 1 * hour\<rparr>\<rparr>"

section \<open>Validation\<close>

text \<open>One constructor per error return of \<open>Validate\<close>, in the order of the source.\<close>

datatype config_error =
    BrokerEmpty | ClientIDEmpty | LoadpointIDEmpty
  | BadEnableMode string | BadAutoProfile string
  | StartNotAboveStop f64 f64
  | SoCCapOutOfRange int | ResumeNotBelowCap int int | SoCMaxOutOfRange int int
  | DecisionIntervalNotPositive | StaleTimeoutNotPositive | RepublishNotPositive
  | RetentionWindowNegative | RetentionIntervalNotPositive | DwellNegative
  | PortOutOfRange int | DBPathEmpty
  | RepositoryEmpty | RequestDirEmpty | CheckTTLNegative

text \<open>The middle of \<open>Validate\<close>: the checks of the \<open>Control\<close> section.\<close>

definition validate_control :: "control \<Rightarrow> config_error option" where
  "validate_control c =
    (if cfg_enable_mode c \<noteq> EnableModePV \<and> cfg_enable_mode c \<noteq> EnableModeNow
       then Some (BadEnableMode (cfg_enable_mode c))
     else if cfg_auto_profile c \<notin> {AutoProfileSurplus, AutoProfilePowerLatch, AutoProfileSurplusLatch}
       then Some (BadAutoProfile (cfg_auto_profile c))
     else if cfg_start_threshold c \<le> cfg_stop_threshold c
       then Some (StartNotAboveStop (cfg_start_threshold c) (cfg_stop_threshold c))
     else if cfg_soc_cap c < 1 \<or> 100 < cfg_soc_cap c then Some (SoCCapOutOfRange (cfg_soc_cap c))
     else if cfg_soc_cap c \<le> cfg_soc_resume_below c
       then Some (ResumeNotBelowCap (cfg_soc_resume_below c) (cfg_soc_cap c))
     else if cfg_soc_max c \<le> cfg_soc_cap c \<or> 100 < cfg_soc_max c
       then Some (SoCMaxOutOfRange (cfg_soc_max c) (cfg_soc_cap c))
     else if cfg_decision_interval c \<le> 0 then Some DecisionIntervalNotPositive
     else if cfg_stale_timeout c \<le> 0 then Some StaleTimeoutNotPositive
     else if cfg_republish c \<le> 0 then Some RepublishNotPositive
     else if cfg_retention_window c < 0 then Some RetentionWindowNegative
     else if 0 < cfg_retention_window c \<and> cfg_retention_interval c \<le> 0
       then Some RetentionIntervalNotPositive
     else if cfg_start_dwell c < 0 \<or> cfg_stop_dwell c < 0 then Some DwellNegative
     else None)"

definition validate :: "config \<Rightarrow> config_error option" where
  "validate c =
    (if mq_broker (c_mqtt c) = '''' then Some BrokerEmpty
     else if mq_client_id (c_mqtt c) = '''' then Some ClientIDEmpty
     else if ev_loadpoint_id (c_evcc c) = '''' then Some LoadpointIDEmpty
     else case validate_control (c_control c) of
       Some e \<Rightarrow> Some e
     | None \<Rightarrow>
        if wb_port (c_web c) < 1 \<or> 65535 < wb_port (c_web c) then Some (PortOutOfRange (wb_port (c_web c)))
        else if db_path (c_db c) = '''' then Some DBPathEmpty
        else if up_enabled (c_update c) then
          (if up_repository (c_update c) = '''' then Some RepositoryEmpty
           else if up_request_dir (c_update c) = '''' then Some RequestDirEmpty
           else if up_check_ttl (c_update c) < 0 then Some CheckTTLNegative
           else None)
        else None)"

text \<open>
  What the rest of the program may rely on when \<open>Validate\<close> returned nil. The threshold check
  is the code's: \<open>\<not> start \<le> stop\<close>, which a NaN threshold passes.
\<close>

definition control_ok :: "control \<Rightarrow> bool" where
  "control_ok c \<longleftrightarrow>
     cfg_enable_mode c \<in> {EnableModePV, EnableModeNow} \<and>
     cfg_auto_profile c \<in> {AutoProfileSurplus, AutoProfilePowerLatch, AutoProfileSurplusLatch} \<and>
     \<not> cfg_start_threshold c \<le> cfg_stop_threshold c \<and>
     1 \<le> cfg_soc_cap c \<and> cfg_soc_resume_below c < cfg_soc_cap c \<and>
     cfg_soc_cap c < cfg_soc_max c \<and> cfg_soc_max c \<le> 100 \<and>
     0 < cfg_decision_interval c \<and> 0 < cfg_stale_timeout c \<and> 0 < cfg_republish c \<and>
     0 \<le> cfg_retention_window c \<and> (cfg_retention_window c = 0 \<or> 0 < cfg_retention_interval c) \<and>
     0 \<le> cfg_start_dwell c \<and> 0 \<le> cfg_stop_dwell c"

lemma validate_control_None: "validate_control c = None \<longleftrightarrow> control_ok c"
  by (auto simp: validate_control_def control_ok_def)

text \<open>The facts of a validated configuration that proofs use, one by one.\<close>

lemma control_okD:
  assumes "control_ok c"
  shows "\<not> cfg_start_threshold c \<le> cfg_stop_threshold c"
    and "1 \<le> cfg_soc_cap c" "cfg_soc_cap c \<le> 99" "cfg_soc_resume_below c < cfg_soc_cap c"
    and "cfg_soc_cap c < cfg_soc_max c" "cfg_soc_max c \<le> 100"
    and "0 < cfg_decision_interval c" "0 < cfg_republish c" "0 \<le> cfg_start_dwell c" "0 \<le> cfg_stop_dwell c"
    and "cfg_enable_mode c = EnableModePV \<or> cfg_enable_mode c = EnableModeNow"
  using assms by (auto simp: control_ok_def)

lemma validate_default: "validate default_config = None"
  by (simp add: validate_def validate_control_def default_config_def duration_defs mode_defs profile_defs)

end
