(* ===== verification/Policy.thy ===== *)
theory Policy
  imports Config
begin

text \<open>
  \<open>internal/controller/state.go\<close> and \<open>policy.go\<close>: the pure decision engine. Given the
  time, a snapshot of the world, the previous state and timers and the tuning parameters,
  \<open>decide\<close> returns the next decision. The state machine's states, the override and the reason
  codes are the source's constants as datatypes; modes and profiles are strings, as in the
  source.
\<close>

section \<open>Data\<close>

datatype state = StateIdle | StateSurplusPending | StateCharging | StateStopPending
  | StateSocReached | StateFailSafe

fun state_str :: "state \<Rightarrow> string" where
  "state_str StateIdle = ''idle''"
| "state_str StateSurplusPending = ''surplus_pending''"
| "state_str StateCharging = ''charging''"
| "state_str StateStopPending = ''stop_pending''"
| "state_str StateSocReached = ''soc_reached''"
| "state_str StateFailSafe = ''failsafe''"

text \<open>
  The override is a string type with three constants; \<open>OverrideOther\<close> is any other string
  (in particular the empty one of a zero \<open>Inputs\<close>).
\<close>

datatype override = OverrideAuto | OverrideForceOn | OverrideForceOff | OverrideOther string

fun override_str :: "override \<Rightarrow> string" where
  "override_str OverrideAuto = ''auto''"
| "override_str OverrideForceOn = ''on''"
| "override_str OverrideForceOff = ''off''"
| "override_str (OverrideOther s) = s"

definition ModeOff :: string where "ModeOff = ''off''"

datatype reason_code = ReasonStaleOff | ReasonOverrideOff | ReasonOverrideOn | ReasonAwaitingData
  | ReasonNoVehicle | ReasonSoCCap | ReasonSoCLatch | ReasonSurplusDwellStart
  | ReasonSurplusCharging | ReasonSurplusDwellPending | ReasonSurplusBelowStart
  | ReasonStopDwellStart | ReasonStopLow | ReasonStopDwellPending | ReasonCharging
  | ReasonLatchStart | ReasonLatchCharging | ReasonLatchBelowStart

fun reason_code_str :: "reason_code \<Rightarrow> string" where
  "reason_code_str ReasonStaleOff = ''stale_off''"
| "reason_code_str ReasonOverrideOff = ''override_off''"
| "reason_code_str ReasonOverrideOn = ''override_on''"
| "reason_code_str ReasonAwaitingData = ''awaiting_data''"
| "reason_code_str ReasonNoVehicle = ''no_vehicle''"
| "reason_code_str ReasonSoCCap = ''soc_cap''"
| "reason_code_str ReasonSoCLatch = ''soc_latch''"
| "reason_code_str ReasonSurplusDwellStart = ''surplus_dwell_start''"
| "reason_code_str ReasonSurplusCharging = ''surplus_charging''"
| "reason_code_str ReasonSurplusDwellPending = ''surplus_dwell_pending''"
| "reason_code_str ReasonSurplusBelowStart = ''surplus_below_start''"
| "reason_code_str ReasonStopDwellStart = ''stop_dwell_start''"
| "reason_code_str ReasonStopLow = ''stop_low''"
| "reason_code_str ReasonStopDwellPending = ''stop_dwell_pending''"
| "reason_code_str ReasonCharging = ''charging''"
| "reason_code_str ReasonLatchStart = ''latch_start''"
| "reason_code_str ReasonLatchCharging = ''latch_charging''"
| "reason_code_str ReasonLatchBelowStart = ''latch_below_start''"

text \<open>The UTF-8 bytes of the right arrow in the audit-log prose.\<close>

definition arrow :: string where "arrow = [CHR 0xE2, CHR 0x86, CHR 0x92]"

fun reason_text :: "reason_code \<Rightarrow> string" where
  "reason_text ReasonStaleOff = ''stale data / disconnected '' @ arrow @ '' off''"
| "reason_text ReasonOverrideOff = ''manual override: off''"
| "reason_text ReasonOverrideOn = ''manual override: on''"
| "reason_text ReasonAwaitingData = ''waiting for initial data''"
| "reason_text ReasonNoVehicle = ''no vehicle connected''"
| "reason_text ReasonSoCCap = ''SoC >= cap''"
| "reason_text ReasonSoCLatch = ''SoC latch (>= resumeBelow)''"
| "reason_text ReasonSurplusDwellStart = ''surplus rising, dwell started''"
| "reason_text ReasonSurplusCharging = ''surplus sustained '' @ arrow @ '' charging''"
| "reason_text ReasonSurplusDwellPending = ''surplus dwell pending''"
| "reason_text ReasonSurplusBelowStart = ''surplus below start''"
| "reason_text ReasonStopDwellStart = ''surplus dropping, stop dwell started''"
| "reason_text ReasonStopLow = ''surplus low sustained '' @ arrow @ '' stop''"
| "reason_text ReasonStopDwellPending = ''stop dwell pending''"
| "reason_text ReasonCharging = ''charging''"
| "reason_text ReasonLatchStart = ''latch trigger rising, dwell started''"
| "reason_text ReasonLatchCharging = ''latch charging to target SoC''"
| "reason_text ReasonLatchBelowStart = ''latch trigger below start''"

record inputs =
  in_grid :: f64
  in_pv :: f64
  in_home :: f64
  in_battery :: f64
  in_charge :: f64
  in_battery_soc :: int
  in_vehicle_soc :: int
  in_vehicle_soc_known :: bool
  in_charging :: bool
  in_connected :: bool
  in_ready :: bool
  in_stale :: bool
  in_override :: override
  in_override_until :: time
  in_cap_bypass :: bool
  in_cap_bypass_soc :: int
  in_charge_power :: string
  in_auto_profile :: string
  in_start_threshold :: f64
  in_target_soc :: int

record timers =
  crossed_up_at :: time
  crossed_down_at :: time

record decision =
  dec_state :: state
  dec_timers :: timers
  dec_mode :: string
  dec_reason :: string
  dec_reason_code :: reason_code

section \<open>Derived inputs\<close>

definition surplus_of :: "inputs \<Rightarrow> f64" where
  "surplus_of inp = (let discharge = (if in_battery inp < 0 then 0 else in_battery inp)
     in in_charge inp - in_grid inp - discharge)"

lemma surplus_of_frame [frame]:
  "surplus_of (inp\<lparr>in_vehicle_soc := v\<rparr>) = surplus_of inp"
  "surplus_of (inp\<lparr>in_stale := b\<rparr>) = surplus_of inp"
  by (simp_all add: surplus_of_def)

definition effective_mode :: "inputs \<Rightarrow> control \<Rightarrow> string" where
  "effective_mode inp cfg = (if in_charge_power inp \<noteq> '''' then in_charge_power inp else cfg_enable_mode cfg)"

definition effective_profile :: "inputs \<Rightarrow> control \<Rightarrow> string" where
  "effective_profile inp cfg = (if in_auto_profile inp \<noteq> '''' then in_auto_profile inp else cfg_auto_profile cfg)"

definition effective_start_threshold :: "inputs \<Rightarrow> control \<Rightarrow> f64" where
  "effective_start_threshold inp cfg =
     (if \<not> f64_eq (in_start_threshold inp) 0 then in_start_threshold inp else cfg_start_threshold cfg)"

definition effective_target_soc :: "inputs \<Rightarrow> control \<Rightarrow> int" where
  "effective_target_soc inp cfg = (if in_target_soc inp \<noteq> 0 then in_target_soc inp else cfg_soc_cap cfg)"

definition override_active :: "time \<Rightarrow> inputs \<Rightarrow> bool" where
  "override_active now inp =
     (if in_override inp = OverrideAuto then False
      else time_is_zero (in_override_until inp) \<or> time_before now (in_override_until inp))"

definition limit_soc_target :: "time \<Rightarrow> inputs \<Rightarrow> control \<Rightarrow> int" where
  "limit_soc_target now inp cfg =
    (if in_override inp = OverrideForceOn \<and> in_cap_bypass inp \<and> override_active now inp then
       (if 0 < in_cap_bypass_soc inp then
          let target = in_cap_bypass_soc inp;
              target = (if target < add64 (cfg_soc_cap cfg) 1 then add64 (cfg_soc_cap cfg) 1 else target);
              target = (if cfg_soc_max cfg < target then cfg_soc_max cfg else target)
          in target
        else cfg_soc_max cfg)
     else if effective_profile inp cfg \<noteq> AutoProfileSurplus then effective_target_soc inp cfg
     else cfg_soc_cap cfg)"

section \<open>The decision engine\<close>

definition reset_timers :: timers where
  "reset_timers = \<lparr>crossed_up_at = 0, crossed_down_at = 0\<rparr>"

definition new_decision :: "state \<Rightarrow> timers \<Rightarrow> string \<Rightarrow> reason_code \<Rightarrow> decision" where
  "new_decision st tm mode code = \<lparr>dec_state = st, dec_timers = tm, dec_mode = mode,
     dec_reason = reason_text code, dec_reason_code = code\<rparr>"

definition decide_from_idle :: "time \<Rightarrow> f64 \<Rightarrow> timers \<Rightarrow> control \<Rightarrow> string \<Rightarrow> decision" where
  "decide_from_idle now s tm cfg enable =
    (if cfg_start_threshold cfg \<le> s then
       (if time_is_zero (crossed_up_at tm) then
          new_decision StateSurplusPending (reset_timers\<lparr>crossed_up_at := now\<rparr>) ModeOff ReasonSurplusDwellStart
        else if cfg_start_dwell cfg \<le> time_sub now (crossed_up_at tm) then
          new_decision StateCharging reset_timers enable ReasonSurplusCharging
        else new_decision StateSurplusPending (reset_timers\<lparr>crossed_up_at := crossed_up_at tm\<rparr>) ModeOff
               ReasonSurplusDwellPending)
     else new_decision StateIdle reset_timers ModeOff ReasonSurplusBelowStart)"

definition decide_from_charging :: "time \<Rightarrow> f64 \<Rightarrow> timers \<Rightarrow> control \<Rightarrow> string \<Rightarrow> decision" where
  "decide_from_charging now s tm cfg enable =
    (if s < cfg_stop_threshold cfg then
       (if time_is_zero (crossed_down_at tm) then
          new_decision StateStopPending (reset_timers\<lparr>crossed_down_at := now\<rparr>) enable ReasonStopDwellStart
        else if cfg_stop_dwell cfg \<le> time_sub now (crossed_down_at tm) then
          new_decision StateIdle reset_timers ModeOff ReasonStopLow
        else new_decision StateStopPending (reset_timers\<lparr>crossed_down_at := crossed_down_at tm\<rparr>) enable
               ReasonStopDwellPending)
     else new_decision StateCharging reset_timers enable ReasonCharging)"

definition latch_trigger :: "inputs \<Rightarrow> string \<Rightarrow> f64" where
  "latch_trigger inp profile = (if profile = AutoProfilePowerLatch then in_pv inp else surplus_of inp)"

definition decide_latch :: "time \<Rightarrow> inputs \<Rightarrow> state \<Rightarrow> timers \<Rightarrow> control \<Rightarrow> string \<Rightarrow> decision" where
  "decide_latch now inp st tm cfg profile =
    (if st = StateCharging \<or> st = StateStopPending then
       new_decision StateCharging reset_timers EnableModeNow ReasonLatchCharging
     else
       let trigger = latch_trigger inp profile; threshold = effective_start_threshold inp cfg in
       if threshold \<le> trigger then
         (if time_is_zero (crossed_up_at tm) then
            new_decision StateSurplusPending (reset_timers\<lparr>crossed_up_at := now\<rparr>) ModeOff ReasonLatchStart
          else if cfg_start_dwell cfg \<le> time_sub now (crossed_up_at tm) then
            new_decision StateCharging reset_timers EnableModeNow ReasonLatchCharging
          else new_decision StateSurplusPending (reset_timers\<lparr>crossed_up_at := crossed_up_at tm\<rparr>) ModeOff
                 ReasonSurplusDwellPending)
       else new_decision StateIdle reset_timers ModeOff ReasonLatchBelowStart)"

text \<open>The stop target of rule 5 and the boundary below which charging may resume.\<close>

definition soc_target :: "inputs \<Rightarrow> control \<Rightarrow> int" where
  "soc_target inp cfg =
    (if effective_profile inp cfg \<noteq> AutoProfileSurplus then effective_target_soc inp cfg else cfg_soc_cap cfg)"

definition resume_below :: "inputs \<Rightarrow> control \<Rightarrow> int" where
  "resume_below inp cfg =
     sub64 (soc_target inp cfg) (sub64 (cfg_soc_cap cfg) (cfg_soc_resume_below cfg))"

text \<open>Rules 3 to 6: what happens when neither the fail-safe nor an override decided.\<close>

definition decide_auto :: "time \<Rightarrow> inputs \<Rightarrow> state \<Rightarrow> timers \<Rightarrow> control \<Rightarrow> decision" where
  "decide_auto now inp st tm cfg =
    (if \<not> in_ready inp then new_decision StateIdle reset_timers ModeOff ReasonAwaitingData
     else if \<not> in_connected inp then new_decision StateIdle reset_timers ModeOff ReasonNoVehicle
     else
       let profile = effective_profile inp cfg in
       if soc_target inp cfg \<le> in_vehicle_soc inp then
         new_decision StateSocReached reset_timers ModeOff ReasonSoCCap
       else if st = StateSocReached \<and> resume_below inp cfg \<le> in_vehicle_soc inp then
         new_decision StateSocReached reset_timers ModeOff ReasonSoCLatch
       else if profile \<noteq> AutoProfileSurplus then decide_latch now inp st tm cfg profile
       else
         let s = surplus_of inp; enable = effective_mode inp cfg in
         if st = StateCharging \<or> st = StateStopPending then decide_from_charging now s tm cfg enable
         else decide_from_idle now s tm cfg enable)"

definition decide :: "time \<Rightarrow> inputs \<Rightarrow> state \<Rightarrow> timers \<Rightarrow> control \<Rightarrow> decision" where
  "decide now inp st tm cfg =
    (if in_stale inp then new_decision StateFailSafe reset_timers ModeOff ReasonStaleOff
     else if override_active now inp \<and> in_override inp = OverrideForceOff then
       new_decision StateIdle reset_timers ModeOff ReasonOverrideOff
     else if override_active now inp \<and> in_override inp = OverrideForceOn then
       new_decision StateCharging reset_timers (effective_mode inp cfg) ReasonOverrideOn
     else decide_auto now inp st tm cfg)"


lemmas [policy_defs] = decide_def decide_auto_def decide_latch_def decide_from_idle_def
  decide_from_charging_def new_decision_def reset_timers_def

lemma new_decision_simps [simp]:
  "dec_state (new_decision st tm m c) = st" "dec_timers (new_decision st tm m c) = tm"
  "dec_mode (new_decision st tm m c) = m" "dec_reason_code (new_decision st tm m c) = c"
  "dec_reason (new_decision st tm m c) = reason_text c"
  by (simp_all add: new_decision_def)

lemma reset_timers_simps [simp]:
  "crossed_up_at reset_timers = 0" "crossed_down_at reset_timers = 0"
  by (simp_all add: reset_timers_def)

section \<open>Vocabulary of the properties\<close>

definition charging_state :: "state \<Rightarrow> bool" where
  "charging_state st \<longleftrightarrow> st = StateCharging \<or> st = StateStopPending"

lemma charging_state_simps [simp]:
  "charging_state StateCharging" "charging_state StateStopPending" "\<not> charging_state StateIdle"
  "\<not> charging_state StateSurplusPending" "\<not> charging_state StateSocReached" "\<not> charging_state StateFailSafe"
  by (simp_all add: charging_state_def)

definition forced_on :: "time \<Rightarrow> inputs \<Rightarrow> bool" where
  "forced_on now inp \<longleftrightarrow> override_active now inp \<and> in_override inp = OverrideForceOn"

definition forced_off :: "time \<Rightarrow> inputs \<Rightarrow> bool" where
  "forced_off now inp \<longleftrightarrow> override_active now inp \<and> in_override inp = OverrideForceOff"

text \<open>Automatic control decides and none of the gates above the surplus logic is closed.\<close>

definition auto_permitted :: "time \<Rightarrow> inputs \<Rightarrow> control \<Rightarrow> bool" where
  "auto_permitted now inp cfg \<longleftrightarrow> \<not> in_stale inp \<and> \<not> forced_on now inp \<and> \<not> forced_off now inp \<and>
     in_ready inp \<and> in_connected inp \<and> in_vehicle_soc inp < soc_target inp cfg"

text \<open>The start condition of the active profile.\<close>

definition start_condition :: "control \<Rightarrow> inputs \<Rightarrow> bool" where
  "start_condition cfg inp \<longleftrightarrow>
    (if effective_profile inp cfg = AutoProfileSurplus then cfg_start_threshold cfg \<le> surplus_of inp
     else effective_start_threshold inp cfg \<le> latch_trigger inp (effective_profile inp cfg))"

definition stop_condition :: "control \<Rightarrow> inputs \<Rightarrow> bool" where
  "stop_condition cfg inp \<longleftrightarrow>
     effective_profile inp cfg = AutoProfileSurplus \<and> surplus_of inp < cfg_stop_threshold cfg"

text \<open>A dwell marker is armed only in the pending state it belongs to.\<close>

definition timers_wf :: "state \<Rightarrow> timers \<Rightarrow> bool" where
  "timers_wf st tm \<longleftrightarrow> (crossed_up_at tm \<noteq> 0 \<longrightarrow> st = StateSurplusPending) \<and>
     (crossed_down_at tm \<noteq> 0 \<longrightarrow> st = StateStopPending)"

lemma timers_wf_reset [simp]: "timers_wf st reset_timers"
  by (simp add: timers_wf_def)

text \<open>
  The branches of \<open>decide\<close> above the surplus logic, as rewrite rules: the component proofs
  below split on the guards, not on the definition.
\<close>

lemma decide_stale: "in_stale inp \<Longrightarrow> decide now inp st tm cfg = new_decision StateFailSafe reset_timers ModeOff ReasonStaleOff"
  by (simp add: decide_def)

lemma decide_forced_off: "\<not> in_stale inp \<Longrightarrow> forced_off now inp \<Longrightarrow>
    decide now inp st tm cfg = new_decision StateIdle reset_timers ModeOff ReasonOverrideOff"
  by (simp add: decide_def forced_off_def)

lemma decide_forced_on: "\<not> in_stale inp \<Longrightarrow> forced_on now inp \<Longrightarrow>
    decide now inp st tm cfg = new_decision StateCharging reset_timers (effective_mode inp cfg) ReasonOverrideOn"
  by (simp add: decide_def forced_on_def)

lemma decide_automatic: "\<not> in_stale inp \<Longrightarrow> \<not> forced_on now inp \<Longrightarrow> \<not> forced_off now inp \<Longrightarrow>
    decide now inp st tm cfg = decide_auto now inp st tm cfg"
  by (auto simp: decide_def forced_on_def forced_off_def)

lemma forced_exclusive: "forced_on now inp \<Longrightarrow> \<not> forced_off now inp"
  by (simp add: forced_on_def forced_off_def)

text \<open>Case analysis of a tick: who decided.\<close>

lemma decide_cases [case_names stale off on auto]:
  obtains "in_stale inp" | "\<not> in_stale inp" "forced_off now inp" | "\<not> in_stale inp" "forced_on now inp"
  | "\<not> in_stale inp" "\<not> forced_on now inp" "\<not> forced_off now inp"
  by blast

lemma decide_permitted: "auto_permitted now inp cfg \<Longrightarrow>
    \<not> (st = StateSocReached \<and> resume_below inp cfg \<le> in_vehicle_soc inp) \<Longrightarrow>
    decide now inp st tm cfg =
     (if effective_profile inp cfg \<noteq> AutoProfileSurplus then decide_latch now inp st tm cfg (effective_profile inp cfg)
      else if charging_state st then
        decide_from_charging now (surplus_of inp) tm cfg (effective_mode inp cfg)
      else decide_from_idle now (surplus_of inp) tm cfg (effective_mode inp cfg))"
  by (auto simp: auto_permitted_def decide_automatic decide_auto_def Let_def charging_state_def)

text \<open>Automatic control charges only past all of its gates.\<close>

lemma decide_auto_charging:
  "charging_state (dec_state (decide_auto now inp st tm cfg)) \<Longrightarrow>
    in_ready inp \<and> in_connected inp \<and> in_vehicle_soc inp < soc_target inp cfg"
  by (auto simp: decide_auto_def Let_def split: if_splits)

end
