(* ===== verification/PolicyProps.thy ===== *)
theory PolicyProps
  imports Policy
begin

text \<open>
  What one tick of the decision engine guarantees: when it may charge, which mode it
  commands, how the dwell markers belong to the states, which transitions of the state
  machine exist, and how the dead-man target relates to the stop target of the engine.
\<close>

section \<open>Preservation of the dwell-marker invariant\<close>

lemma decide_from_idle_wf: "timers_wf (dec_state (decide_from_idle now s tm cfg m))
    (dec_timers (decide_from_idle now s tm cfg m))"
  by (simp add: decide_from_idle_def timers_wf_def)

lemma decide_from_charging_wf: "timers_wf (dec_state (decide_from_charging now s tm cfg m))
    (dec_timers (decide_from_charging now s tm cfg m))"
  by (simp add: decide_from_charging_def timers_wf_def)

lemma decide_latch_wf: "timers_wf (dec_state (decide_latch now inp st tm cfg p))
    (dec_timers (decide_latch now inp st tm cfg p))"
  by (simp add: decide_latch_def timers_wf_def Let_def)

lemma decide_wf: "timers_wf (dec_state (decide now inp st tm cfg)) (dec_timers (decide now inp st tm cfg))"
  by (simp add: decide_def decide_auto_def Let_def decide_from_idle_wf decide_from_charging_wf decide_latch_wf)

section \<open>When charging is commanded\<close>

text \<open>C1. A tick leaves the engine in a charging state only if the data is fresh and either an
  active force-on override asks for it or automatic control is allowed to: ready, a vehicle
  connected, no active force-off, and the vehicle SoC below the stop target.\<close>

theorem charging_permitted:
  assumes "charging_state (dec_state (decide now inp st tm cfg))"
  shows "\<not> in_stale inp \<and> (forced_on now inp \<or> auto_permitted now inp cfg)"
proof (cases rule: decide_cases [where inp = inp and now = now])
  case auto
  with assms show ?thesis
    by (auto simp: decide_automatic auto_permitted_def dest: decide_auto_charging)
qed (use assms in \<open>auto simp: decide_stale decide_forced_off\<close>)

definition demo_inputs :: inputs where
  "demo_inputs = \<lparr>in_grid = whole (- 2000), in_pv = whole 3000, in_home = whole 500, in_battery = whole 0,
     in_charge = whole 0, in_battery_soc = 90, in_vehicle_soc = 60, in_vehicle_soc_known = True,
     in_charging = False, in_connected = True, in_ready = True, in_stale = False,
     in_override = OverrideAuto, in_override_until = 0, in_cap_bypass = False, in_cap_bypass_soc = 0,
     in_charge_power = ''pv'', in_auto_profile = ''surplus'', in_start_threshold = Fin 0, in_target_soc = 0\<rparr>"

lemma demo_surplus: "surplus_of demo_inputs = whole 2000"
  using whole_minus[of 0 "- 2000"] whole_minus[of 2000 0]
  by (simp add: surplus_of_def demo_inputs_def whole_def f64_zero_Fin)

text \<open>The mode commanded is a function of the decided state.\<close>

lemma decide_from_idle_mode: "dec_mode (decide_from_idle now s tm cfg m) =
    (if charging_state (dec_state (decide_from_idle now s tm cfg m)) then m else ModeOff)"
  by (simp add: decide_from_idle_def)

lemma decide_from_charging_mode: "dec_mode (decide_from_charging now s tm cfg m) =
    (if charging_state (dec_state (decide_from_charging now s tm cfg m)) then m else ModeOff)"
  by (simp add: decide_from_charging_def)

lemma decide_latch_mode: "dec_mode (decide_latch now inp st tm cfg p) =
    (if charging_state (dec_state (decide_latch now inp st tm cfg p)) then EnableModeNow else ModeOff)"
  by (simp add: decide_latch_def Let_def)

lemma decide_mode_of_state:
  "dec_mode (decide now inp st tm cfg) =
    (if \<not> charging_state (dec_state (decide now inp st tm cfg)) then ModeOff
     else if forced_on now inp \<or> effective_profile inp cfg = AutoProfileSurplus then effective_mode inp cfg
     else EnableModeNow)"
proof (cases rule: decide_cases [where inp = inp and now = now])
  case auto
  then show ?thesis
    by (simp add: decide_automatic decide_auto_def Let_def decide_from_idle_mode decide_from_charging_mode
        decide_latch_mode)
qed (auto simp: decide_stale decide_forced_off decide_forced_on)

text \<open>The commanded mode is determined by the decided state: \<open>off\<close> in every non-charging
  state, and in a charging state the operator's effective mode, except that a latch profile
  under automatic control always charges at full power.\<close>

theorem mode_of_state:
  "dec_mode (decide now inp st tm cfg) =
    (if \<not> charging_state (dec_state (decide now inp st tm cfg)) then ModeOff
     else if forced_on now inp \<or> effective_profile inp cfg = AutoProfileSurplus then effective_mode inp cfg
     else EnableModeNow)"
by (rule decide_mode_of_state)

section \<open>The transitions of the engine\<close>

text \<open>
  The transitions of the engine as a relation: prior state, reason, next state, without the
  guards. \<open>PolicyDiagram\<close> compares the decisions with the diagram of the documentation.
\<close>

inductive fsm_edge :: "state \<Rightarrow> reason_code \<Rightarrow> state \<Rightarrow> bool" where
  fsm_stale: "fsm_edge st ReasonStaleOff StateFailSafe"
| fsm_off: "fsm_edge st ReasonOverrideOff StateIdle"
| fsm_on: "fsm_edge st ReasonOverrideOn StateCharging"
| fsm_wait: "fsm_edge st ReasonAwaitingData StateIdle"
| fsm_unplugged: "fsm_edge st ReasonNoVehicle StateIdle"
| fsm_cap: "fsm_edge st ReasonSoCCap StateSocReached"
| fsm_latch_hold: "fsm_edge StateSocReached ReasonSoCLatch StateSocReached"
| fsm_arm: "\<not> charging_state st \<Longrightarrow> fsm_edge st ReasonSurplusDwellStart StateSurplusPending"
| fsm_arm_latch: "\<not> charging_state st \<Longrightarrow> fsm_edge st ReasonLatchStart StateSurplusPending"
| fsm_dwell: "fsm_edge StateSurplusPending ReasonSurplusDwellPending StateSurplusPending"
| fsm_start: "fsm_edge StateSurplusPending ReasonSurplusCharging StateCharging"
| fsm_start_latch: "st = StateSurplusPending \<or> charging_state st \<Longrightarrow> fsm_edge st ReasonLatchCharging StateCharging"
| fsm_below: "\<not> charging_state st \<Longrightarrow> fsm_edge st ReasonSurplusBelowStart StateIdle"
| fsm_below_latch: "\<not> charging_state st \<Longrightarrow> fsm_edge st ReasonLatchBelowStart StateIdle"
| fsm_hold: "charging_state st \<Longrightarrow> fsm_edge st ReasonCharging StateCharging"
| fsm_stop_arm: "charging_state st \<Longrightarrow> fsm_edge st ReasonStopDwellStart StateStopPending"
| fsm_stop_dwell: "fsm_edge StateStopPending ReasonStopDwellPending StateStopPending"
| fsm_stop: "fsm_edge StateStopPending ReasonStopLow StateIdle"

code_pred fsm_edge .

inductive_cases fsm_edgeE [elim!]: "fsm_edge st c st'"
inductive_simps fsm_edge_charging: "fsm_edge st c StateCharging"
inductive_simps fsm_edge_idle: "fsm_edge st c StateIdle"

declare fsm_edge.intros [intro]

lemma decide_from_idle_edge:
  assumes "timers_wf st tm" "\<not> charging_state st"
  shows "fsm_edge st (dec_reason_code (decide_from_idle now s tm cfg m)) (dec_state (decide_from_idle now s tm cfg m))"
  using assms by (auto simp: decide_from_idle_def timers_wf_def time_is_zero_def)

lemma decide_from_charging_edge:
  assumes "timers_wf st tm" "charging_state st"
  shows "fsm_edge st (dec_reason_code (decide_from_charging now s tm cfg m)) (dec_state (decide_from_charging now s tm cfg m))"
  using assms by (auto simp: decide_from_charging_def timers_wf_def time_is_zero_def)

lemma decide_latch_edge:
  assumes "timers_wf st tm"
  shows "fsm_edge st (dec_reason_code (decide_latch now inp st tm cfg p)) (dec_state (decide_latch now inp st tm cfg p))"
  using assms
  by (auto simp: decide_latch_def timers_wf_def time_is_zero_def Let_def charging_state_def)

text \<open>Every decision is an edge of the relation, from any state whose dwell
  markers are consistent, and leaves them consistent: automatic charging always passes
  through the surplus-pending state, and a stop on low surplus through stop-pending.\<close>

lemma decide_is_edge:
  assumes "timers_wf st tm"
  shows "fsm_edge st (dec_reason_code (decide now inp st tm cfg)) (dec_state (decide now inp st tm cfg)) \<and>
    timers_wf (dec_state (decide now inp st tm cfg)) (dec_timers (decide now inp st tm cfg))"
proof
  show "fsm_edge st (dec_reason_code (decide now inp st tm cfg)) (dec_state (decide now inp st tm cfg))"
  proof (cases rule: decide_cases [where inp = inp and now = now])
    case auto
    then show ?thesis
      using assms decide_from_idle_edge[OF assms] decide_from_charging_edge[OF assms] decide_latch_edge[OF assms]
      by (auto simp: decide_automatic decide_auto_def Let_def charging_state_def)
  qed (auto simp: decide_stale decide_forced_off decide_forced_on)
qed (rule decide_wf)


section \<open>Witnesses for the properties above\<close>

definition demo_control :: control where "demo_control = c_control default_config"

lemma demo_control_simps [simp]:
  "cfg_enable_mode demo_control = ''pv''" "cfg_auto_profile demo_control = ''surplus''"
  "cfg_start_threshold demo_control = whole 1400" "cfg_stop_threshold demo_control = whole 0"
  "cfg_start_dwell demo_control = 120000000000" "cfg_stop_dwell demo_control = 180000000000"
  "cfg_soc_cap demo_control = 80" "cfg_soc_resume_below demo_control = 78" "cfg_soc_max demo_control = 100"
  "cfg_decision_interval demo_control = 15000000000" "cfg_stale_timeout demo_control = 60000000000"
  "cfg_republish demo_control = 300000000000" "cfg_retention_window demo_control = 7776000000000000"
  "cfg_retention_interval demo_control = 21600000000000"
  by (simp_all add: demo_control_def default_config_def duration_defs mode_defs profile_defs whole_def)

lemma demo_control_ok [simp]: "control_ok demo_control"
  by (simp add: control_ok_def mode_defs profile_defs)

lemma demo_inputs_simps [simp]:
  "in_stale demo_inputs = False" "in_ready demo_inputs = True" "in_connected demo_inputs = True"
  "in_vehicle_soc demo_inputs = 60" "in_override demo_inputs = OverrideAuto"
  "in_auto_profile demo_inputs = AutoProfileSurplus" "in_charge_power demo_inputs = ''pv''"
  "in_target_soc demo_inputs = 0" "in_cap_bypass demo_inputs = False" "in_charging demo_inputs = False"
  by (simp_all add: demo_inputs_def profile_defs)

lemma demo_permitted [simp]: "auto_permitted t demo_inputs demo_control"
  by (simp add: auto_permitted_def forced_on_def forced_off_def override_active_def soc_target_def
      effective_profile_def)

lemma demo_decide_charging:
  "decide t demo_inputs StateCharging reset_timers demo_control =
   new_decision StateCharging reset_timers ''pv'' ReasonCharging"
  by (subst decide_permitted)
    (simp_all add: decide_from_charging_def effective_profile_def demo_surplus effective_mode_def)

lemma charging_permitted_witness:
  "charging_state (dec_state (decide 5 demo_inputs StateCharging reset_timers demo_control)) \<and>
   \<not> in_stale demo_inputs \<and> (forced_on 5 demo_inputs \<or> auto_permitted 5 demo_inputs demo_control)"
  using charging_permitted [of 5 demo_inputs StateCharging reset_timers demo_control]
  by (simp add: demo_decide_charging)

lemma decide_is_edge_witness:
  "timers_wf StateCharging reset_timers \<and> fsm_edge StateCharging ReasonCharging StateCharging \<and>
   timers_wf StateCharging (dec_timers (decide 5 demo_inputs StateCharging reset_timers demo_control))"
  using decide_is_edge [of StateCharging reset_timers 5 demo_inputs demo_control]
  by (simp add: demo_decide_charging)

section \<open>The hysteresis band\<close>

text \<open>With the default profile, a surplus that is neither below the stop threshold nor at
  the start threshold never changes what the car does: charging stays on, not charging
  stays off, and a dwell that was running is cancelled.\<close>

theorem hysteresis_band:
  assumes "auto_permitted now inp cfg" and "effective_profile inp cfg = AutoProfileSurplus"
    and "st = StateSocReached \<longrightarrow> in_vehicle_soc inp < resume_below inp cfg"
    and "\<not> surplus_of inp < cfg_stop_threshold cfg" and "\<not> cfg_start_threshold cfg \<le> surplus_of inp"
  shows "dec_state (decide now inp st tm cfg) = (if charging_state st then StateCharging else StateIdle) \<and>
    dec_timers (decide now inp st tm cfg) = reset_timers"
proof -
  from assms(1,3) have "decide now inp st tm cfg =
    (if effective_profile inp cfg \<noteq> AutoProfileSurplus then decide_latch now inp st tm cfg (effective_profile inp cfg)
     else if charging_state st then decide_from_charging now (surplus_of inp) tm cfg (effective_mode inp cfg)
     else decide_from_idle now (surplus_of inp) tm cfg (effective_mode inp cfg))"
    by (intro decide_permitted) auto
  with assms(2,4,5) show ?thesis by (simp add: decide_from_charging_def decide_from_idle_def)
qed

definition band_inputs :: inputs where
  "band_inputs = demo_inputs\<lparr>in_grid := whole (- 700)\<rparr>"

lemma band_surplus: "surplus_of band_inputs = whole 700"
  using whole_minus[of 0 "- 700"] whole_minus[of 700 0]
  by (simp add: surplus_of_def band_inputs_def demo_inputs_def whole_def f64_zero_Fin)

lemma hysteresis_band_witness:
  "dec_state (decide 5 band_inputs StateStopPending \<lparr>crossed_up_at = 0, crossed_down_at = 2\<rparr> demo_control)
     = StateCharging"
proof -
  have p: "auto_permitted 5 band_inputs demo_control" "effective_profile band_inputs demo_control = AutoProfileSurplus"
    using demo_permitted[of 5]
    by (simp_all add: band_inputs_def auto_permitted_def soc_target_def effective_profile_def forced_on_def
        forced_off_def override_active_def)
  show ?thesis using hysteresis_band [OF p, of StateStopPending] by (simp add: band_surplus)
qed

text \<open>A reading that is not a number freezes the default profile: if the charge, grid or
  battery power is NaN, the surplus is NaN, both thresholds fail, and automatic control
  keeps charging for ever if it was charging and never starts if it was not.\<close>

theorem nan_power_freezes:
  assumes "is_nan (in_charge inp) \<or> is_nan (in_grid inp) \<or> is_nan (in_battery inp)"
    and "auto_permitted now inp cfg" and "effective_profile inp cfg = AutoProfileSurplus"
    and "st = StateSocReached \<longrightarrow> in_vehicle_soc inp < resume_below inp cfg"
  shows "surplus_of inp = NaN \<and>
    dec_state (decide now inp st tm cfg) = (if charging_state st then StateCharging else StateIdle)"
proof -
  have nan: "a = NaN" if "is_nan a" for a using that by (cases a) auto
  have "surplus_of inp = NaN"
    using assms(1) by (auto simp: surplus_of_def Let_def dest!: nan)
  moreover from this have "\<not> surplus_of inp < cfg_stop_threshold cfg" "\<not> cfg_start_threshold cfg \<le> surplus_of inp"
    by simp_all
  ultimately show ?thesis using hysteresis_band[OF assms(2-4)] by blast
qed

lemma nan_power_freezes_witness:
  "dec_state (decide 5 (demo_inputs\<lparr>in_grid := NaN\<rparr>) StateCharging reset_timers demo_control) = StateCharging"
proof -
  let ?i = "demo_inputs\<lparr>in_grid := NaN\<rparr>"
  have p: "auto_permitted 5 ?i demo_control" "effective_profile ?i demo_control = AutoProfileSurplus"
    by (simp_all add: auto_permitted_def soc_target_def effective_profile_def forced_on_def
        forced_off_def override_active_def)
  show ?thesis using nan_power_freezes [OF _ p, of StateCharging] by simp
qed

section \<open>The surplus\<close>

text \<open>On whole-watt readings within 50 bits the float computation of the surplus is exact:
  charge power minus grid import minus battery discharge, battery charging ignored.\<close>

theorem surplus_exact:
  assumes "in_charge inp = whole c" "in_grid inp = whole g" "in_battery inp = whole b"
    and "\<bar>c\<bar> \<le> 2 ^ 50" "\<bar>g\<bar> \<le> 2 ^ 50" "\<bar>b\<bar> \<le> 2 ^ 50"
  shows "surplus_of inp = whole (c - g - max 0 b)"
proof -
  have z: "(0 :: f64) = whole 0" by (simp add: f64_zero_Fin whole_def)
  have "whole c - whole g = whole (c - g)" by (rule whole_minus) (use assms in simp)
  moreover have "whole (c - g) - whole (max 0 b) = whole (c - g - max 0 b)"
    by (rule whole_minus) (use assms in simp)
  moreover have "(if whole b < 0 then 0 else whole b) = whole (max 0 b)" by (simp add: z max_def)
  ultimately show ?thesis by (simp only: surplus_of_def assms(1-3) Let_def)
qed

lemma surplus_exact_witness: "surplus_of demo_inputs = whole (0 - (- 2000) - max 0 0)"
  by (rule surplus_exact) (simp_all add: demo_inputs_def)


section \<open>The dead-man target\<close>

lemma limit_soc_target_value:
  assumes "control_ok cfg"
  shows "limit_soc_target now inp cfg =
    (if forced_on now inp \<and> in_cap_bypass inp then
       (if 0 < in_cap_bypass_soc inp
        then min (cfg_soc_max cfg) (max (cfg_soc_cap cfg + 1) (in_cap_bypass_soc inp))
        else cfg_soc_max cfg)
     else soc_target inp cfg)"
proof -
  from assms have "1 \<le> cfg_soc_cap cfg" "cfg_soc_cap cfg < cfg_soc_max cfg" "cfg_soc_max cfg \<le> 100"
    by (simp_all add: control_ok_def)
  moreover from this have "add64 (cfg_soc_cap cfg) 1 = cfg_soc_cap cfg + 1"
    by (intro add64_exact) (simp add: in64_numeral)
  ultimately show ?thesis
    by (auto simp: limit_soc_target_def forced_on_def soc_target_def Let_def min_def max_def)
qed

text \<open>C21. The dead-man backstop under the default profile: the SoC limit published to evcc is \<open>SoCCap\<close>,
  and the only exception is an active force-on override that asks to pass the cap. Then it is
  \<open>SoCMax\<close> if the override names no target of its own, and in any case it lies above the cap and at
  most at \<open>SoCMax\<close>, whatever target was asked for. A target left over from a latch profile has no effect.\<close>

theorem backstop_at_cap:
  assumes "control_ok cfg" and "effective_profile inp cfg = AutoProfileSurplus"
  shows "if \<not> (forced_on now inp \<and> in_cap_bypass inp) then limit_soc_target now inp cfg = cfg_soc_cap cfg
    else (in_cap_bypass_soc inp \<le> 0 \<longrightarrow> limit_soc_target now inp cfg = cfg_soc_max cfg) \<and>
      cfg_soc_cap cfg < limit_soc_target now inp cfg \<and> limit_soc_target now inp cfg \<le> cfg_soc_max cfg"
proof -
  have "cfg_soc_cap cfg < cfg_soc_max cfg" using assms(1) by (simp add: control_ok_def)
  then show ?thesis
    unfolding limit_soc_target_value[OF assms(1)] by (auto simp: soc_target_def assms(2))
qed

definition bypass_inputs :: inputs where
  "bypass_inputs = demo_inputs\<lparr>in_override := OverrideForceOn, in_override_until := 0, in_cap_bypass := True, in_cap_bypass_soc := 60\<rparr>"

lemma backstop_at_cap_witness: "80 < limit_soc_target 5 bypass_inputs demo_control"
proof -
  have "effective_profile bypass_inputs demo_control = AutoProfileSurplus" "forced_on 5 bypass_inputs" "in_cap_bypass bypass_inputs"
    by (simp_all add: bypass_inputs_def effective_profile_def forced_on_def override_active_def time_is_zero_def)
  from backstop_at_cap [OF demo_control_ok this(1), of 5] this(2,3) show ?thesis by simp
qed

text \<open>With a latch profile the limit is the target of that profile, which may be above the cap.\<close>

lemma latch_limit_is_target:
  "limit_soc_target 5 (demo_inputs\<lparr>in_auto_profile := AutoProfilePowerLatch, in_target_soc := 100\<rparr>) demo_control = 100"
  using limit_soc_target_value [OF demo_control_ok, of 5 "demo_inputs\<lparr>in_auto_profile := AutoProfilePowerLatch, in_target_soc := 100\<rparr>"]
  by (simp add: soc_target_def effective_profile_def effective_target_soc_def profile_defs forced_on_def override_active_def)

text \<open>A target chosen with the override is the limit, not \<open>SoCMax\<close>.\<close>

lemma chosen_bypass_target:
  "limit_soc_target 5 (bypass_inputs\<lparr>in_cap_bypass_soc := 90\<rparr>) demo_control = 90"
  using limit_soc_target_value [OF demo_control_ok, of 5 "bypass_inputs\<lparr>in_cap_bypass_soc := 90\<rparr>"]
  by (simp add: bypass_inputs_def forced_on_def override_active_def time_is_zero_def)

lemma limit_target_in_range:
  assumes "control_ok cfg" and "0 \<le> in_target_soc inp" "in_target_soc inp \<le> 100"
  shows "1 \<le> limit_soc_target now inp cfg \<and> limit_soc_target now inp cfg \<le> 100 \<and>
    (forced_on now inp \<and> in_cap_bypass inp \<longrightarrow>
       cfg_soc_cap cfg < limit_soc_target now inp cfg \<and> limit_soc_target now inp cfg \<le> cfg_soc_max cfg)"
proof -
  have b: "1 \<le> cfg_soc_cap cfg" "cfg_soc_cap cfg < cfg_soc_max cfg" "cfg_soc_max cfg \<le> 100"
    using assms(1) by (simp_all add: control_ok_def)
  have e: "limit_soc_target now inp cfg =
    (if forced_on now inp \<and> in_cap_bypass inp then
       (if 0 < in_cap_bypass_soc inp
        then min (cfg_soc_max cfg) (max (cfg_soc_cap cfg + 1) (in_cap_bypass_soc inp))
        else cfg_soc_max cfg)
     else soc_target inp cfg)"
    using assms(1) by (rule limit_soc_target_value)
  from b assms(2,3) show ?thesis
    unfolding e by (auto simp: soc_target_def effective_target_soc_def)
qed

text \<open>The published limit is a percentage: within \<open>1..100\<close> for a validated configuration
  and a runtime target that is unset or within \<open>1..100\<close>, whatever the override asks for;
  with a cap bypass in force it lies above the cap and at most at \<open>SoCMax\<close>.\<close>

theorem limit_soc_target_bounds:
  assumes "control_ok cfg" and "0 \<le> in_target_soc inp" "in_target_soc inp \<le> 100"
  shows "1 \<le> limit_soc_target now inp cfg \<and> limit_soc_target now inp cfg \<le> 100 \<and>
    (forced_on now inp \<and> in_cap_bypass inp \<longrightarrow>
       cfg_soc_cap cfg < limit_soc_target now inp cfg \<and> limit_soc_target now inp cfg \<le> cfg_soc_max cfg)"
  using assms by (rule limit_target_in_range)

lemma limit_soc_target_bounds_witness:
  "1 \<le> limit_soc_target 5 demo_inputs demo_control \<and> limit_soc_target 5 demo_inputs demo_control \<le> 100"
  using limit_soc_target_bounds [OF demo_control_ok, of demo_inputs 5] by simp

section \<open>The SoC latch\<close>

text \<open>The resume boundary keeps the configured band below whatever target is in force: it is
  \<open>target - (SoCCap - SoCResumeBelow)\<close> without overflow, strictly below the target.\<close>

theorem resume_below_exact:
  assumes "control_ok cfg" and "- 1000000 \<le> cfg_soc_resume_below cfg"
    and "0 \<le> in_target_soc inp" "in_target_soc inp \<le> 100"
  shows "resume_below inp cfg = soc_target inp cfg - (cfg_soc_cap cfg - cfg_soc_resume_below cfg) \<and>
    resume_below inp cfg < soc_target inp cfg"
proof -
  have b: "1 \<le> cfg_soc_cap cfg" "cfg_soc_cap cfg \<le> 99" "cfg_soc_resume_below cfg < cfg_soc_cap cfg"
    using assms(1) by (auto simp: control_ok_def)
  have t: "0 \<le> soc_target inp cfg" "soc_target inp cfg \<le> 100"
    using b assms(3,4) by (auto simp: soc_target_def effective_target_soc_def)
  have i: "sub64 (cfg_soc_cap cfg) (cfg_soc_resume_below cfg) = cfg_soc_cap cfg - cfg_soc_resume_below cfg"
    using b assms(2) by (intro sub64_exact) (simp add: in64_numeral)
  have "resume_below inp cfg = soc_target inp cfg - (cfg_soc_cap cfg - cfg_soc_resume_below cfg)"
    unfolding resume_below_def i using b t assms(2) by (intro sub64_exact) (simp add: in64_numeral)
  with b show ?thesis by simp
qed

lemma resume_below_exact_witness: "resume_below demo_inputs demo_control = 78"
  using resume_below_exact [OF demo_control_ok, of demo_inputs]
  by (simp add: soc_target_def effective_profile_def)

text \<open>A force-on is not stopped by a missing vehicle: only the fail-safe stands above an override.\<close>

lemma forced_on_without_vehicle:
  "\<not> in_stale inp \<Longrightarrow> forced_on now inp \<Longrightarrow> \<not> in_connected inp \<Longrightarrow>
    dec_state (decide now inp st tm cfg) = StateCharging \<and> dec_mode (decide now inp st tm cfg) = effective_mode inp cfg"
  by (simp add: decide_forced_on)


end
