(* ===== verification/PolicyRuns.thy ===== *)
theory PolicyRuns
  imports PolicyProps
begin

text \<open>
  Runs of the decision engine over a sequence of ticks, each with its time and its inputs,
  threading state and timers as the control loop does. The properties here are the temporal
  ones: dwell times before starting and stopping, the SoC latch, charging to completion.
\<close>

section \<open>Runs\<close>

type_synonym tick_input = "time \<times> inputs"

definition decide_step :: "control \<Rightarrow> state \<times> timers \<Rightarrow> tick_input \<Rightarrow> state \<times> timers" where
  "decide_step cfg s x = (let d = decide (fst x) (snd x) (fst s) (snd s) cfg in (dec_state d, dec_timers d))"

definition run_ticks :: "control \<Rightarrow> state \<times> timers \<Rightarrow> tick_input list \<Rightarrow> state \<times> timers" where
  "run_ticks cfg = foldl (decide_step cfg)"

definition initial_fsm :: "state \<times> timers" where
  "initial_fsm = (StateIdle, reset_timers)"

lemma run_ticks_simps [simp]:
  "run_ticks cfg s [] = s" "run_ticks cfg s (x # xs) = run_ticks cfg (decide_step cfg s x) xs"
  "run_ticks cfg s (xs @ [x]) = decide_step cfg (run_ticks cfg s xs) x"
  by (simp_all add: run_ticks_def)

lemma run_ticks_wf: "timers_wf (fst s) (snd s) \<Longrightarrow> timers_wf (fst (run_ticks cfg s xs)) (snd (run_ticks cfg s xs))"
  by (induction xs rule: rev_induct) (simp_all add: decide_step_def Let_def decide_wf)

lemma initial_fsm_wf [simp]: "timers_wf (fst initial_fsm) (snd initial_fsm)"
  by (simp add: initial_fsm_def)

section \<open>How one tick arms and keeps a dwell marker\<close>

lemma decide_crossed_up:
  assumes "crossed_up_at (dec_timers (decide now inp st tm cfg)) \<noteq> 0"
  shows "start_condition cfg inp \<and> auto_permitted now inp cfg \<and>
    (crossed_up_at (dec_timers (decide now inp st tm cfg)) = now \<or>
     crossed_up_at (dec_timers (decide now inp st tm cfg)) = crossed_up_at tm)"
proof (cases rule: decide_cases [where inp = inp and now = now])
  case auto
  with assms show ?thesis
    by (auto simp: decide_automatic decide_auto_def decide_from_idle_def decide_from_charging_def
        decide_latch_def Let_def start_condition_def auto_permitted_def split: if_splits)
qed (use assms in \<open>auto simp: decide_stale decide_forced_off decide_forced_on\<close>)

lemma decide_crossed_down:
  assumes "crossed_down_at (dec_timers (decide now inp st tm cfg)) \<noteq> 0"
  shows "stop_condition cfg inp \<and> auto_permitted now inp cfg \<and>
    (crossed_down_at (dec_timers (decide now inp st tm cfg)) = now \<or>
     crossed_down_at (dec_timers (decide now inp st tm cfg)) = crossed_down_at tm)"
proof (cases rule: decide_cases [where inp = inp and now = now])
  case auto
  with assms show ?thesis
    by (auto simp: decide_automatic decide_auto_def decide_from_idle_def decide_from_charging_def
        decide_latch_def Let_def stop_condition_def auto_permitted_def split: if_splits)
qed (use assms in \<open>auto simp: decide_stale decide_forced_off decide_forced_on\<close>)

lemma decide_auto_starts:
  assumes "\<not> charging_state st" "charging_state (dec_state (decide now inp st tm cfg))" "\<not> forced_on now inp"
  shows "start_condition cfg inp \<and> crossed_up_at tm \<noteq> 0 \<and> cfg_start_dwell cfg \<le> time_sub now (crossed_up_at tm)"
proof (cases rule: decide_cases [where inp = inp and now = now])
  case auto
  with assms show ?thesis
    by (auto simp: decide_automatic decide_auto_def decide_from_idle_def decide_latch_def Let_def
        start_condition_def charging_state_def time_is_zero_def split: if_splits)
qed (use assms in \<open>auto simp: decide_stale decide_forced_off decide_forced_on\<close>)

lemma decide_auto_stops:
  assumes "charging_state st" "\<not> charging_state (dec_state (decide now inp st tm cfg))" "auto_permitted now inp cfg"
  shows "stop_condition cfg inp \<and> crossed_down_at tm \<noteq> 0 \<and> cfg_stop_dwell cfg \<le> time_sub now (crossed_down_at tm)"
proof -
  have "st \<noteq> StateSocReached" using assms(1) by auto
  then show ?thesis using assms
    by (auto simp: decide_permitted decide_from_charging_def decide_latch_def Let_def stop_condition_def
        charging_state_def time_is_zero_def split: if_splits)
qed

text \<open>
  A marker that survived a run was armed at one of its ticks, and its condition has held at
  every tick since. Stated once for a generic marker and condition, used for both dwells.
\<close>

lemma run_marker_sustained:
  assumes keep: "\<And>now inp st tm. marker (dec_timers (decide now inp st tm cfg)) \<noteq> (0 :: int) \<Longrightarrow>
      C now inp \<and> (marker (dec_timers (decide now inp st tm cfg)) = now \<or>
                 marker (dec_timers (decide now inp st tm cfg)) = marker tm)"
    and start: "marker (snd s) = 0"
    and set: "marker (snd (run_ticks cfg s xs)) \<noteq> 0"
  shows "\<exists>m < length xs. fst (xs ! m) = marker (snd (run_ticks cfg s xs)) \<and>
    (\<forall>k. m \<le> k \<and> k < length xs \<longrightarrow> C (fst (xs ! k)) (snd (xs ! k)))"
  using set
proof (induction xs rule: rev_induct)
  case Nil
  with start show ?case by simp
next
  case (snoc x xs)
  let ?s = "run_ticks cfg s xs"
  let ?d = "decide (fst x) (snd x) (fst ?s) (snd ?s) cfg"
  have e: "snd (run_ticks cfg s (xs @ [x])) = dec_timers ?d"
    by (simp add: decide_step_def Let_def)
  from snoc.prems e have nz: "marker (dec_timers ?d) \<noteq> 0" by simp
  from keep[OF nz] have C: "C (fst x) (snd x)"
    and or: "marker (dec_timers ?d) = fst x \<or> marker (dec_timers ?d) = marker (snd ?s)" by auto
  show ?case
  proof (cases "marker (dec_timers ?d) = fst x")
    case True
    then show ?thesis using C e by (intro exI[of _ "length xs"]) (auto simp: le_less_Suc_eq nth_append)
  next
    case False
    with or nz have same: "marker (dec_timers ?d) = marker (snd ?s)" and "marker (snd ?s) \<noteq> 0" by auto
    from snoc.IH[OF this(2)] obtain m where m: "m < length xs" "fst (xs ! m) = marker (snd ?s)"
      "\<forall>k. m \<le> k \<and> k < length xs \<longrightarrow> C (fst (xs ! k)) (snd (xs ! k))" by auto
    then show ?thesis using C e same
      by (intro exI[of _ m]) (auto simp: nth_append less_Suc_eq)
  qed
qed

section \<open>Dwell times\<close>

text \<open>C5. Automatic charging never starts before the start dwell: whenever a tick of a run from
  the initial state starts charging without a force-on, the start condition of the active
  profile has held at every tick from some tick \<open>m\<close> on, automatic control being permitted
  throughout, and the start dwell has elapsed since that tick.\<close>

theorem start_dwell_respected:
  assumes "s = run_ticks cfg initial_fsm xs" and "d = decide now inp (fst s) (snd s) cfg"
    and "\<not> charging_state (fst s)" "charging_state (dec_state d)" "\<not> forced_on now inp"
  shows "start_condition cfg inp \<and> (\<exists>m < length xs. cfg_start_dwell cfg \<le> time_sub now (fst (xs ! m)) \<and>
    (\<forall>k. m \<le> k \<and> k < length xs \<longrightarrow> start_condition cfg (snd (xs ! k)) \<and>
       auto_permitted (fst (xs ! k)) (snd (xs ! k)) cfg))"
proof -
  from decide_auto_starts[of "fst s" now inp "snd s" cfg] assms(2-5) have
    d: "start_condition cfg inp" "crossed_up_at (snd s) \<noteq> 0" "cfg_start_dwell cfg \<le> time_sub now (crossed_up_at (snd s))"
    by auto
  have "\<exists>m < length xs. fst (xs ! m) = crossed_up_at (snd (run_ticks cfg initial_fsm xs)) \<and>
    (\<forall>k. m \<le> k \<and> k < length xs \<longrightarrow> start_condition cfg (snd (xs ! k)) \<and>
       auto_permitted (fst (xs ! k)) (snd (xs ! k)) cfg)"
    using d(2) assms(1)
    by (intro run_marker_sustained) (auto dest: decide_crossed_up simp: initial_fsm_def)
  with d(1,3) assms(1) show ?thesis by auto
qed

text \<open>C6. Automatic charging that may go on never stops before the stop dwell: a tick of a run
  that turns charging off although automatic control is permitted has the default profile
  active and the surplus below the stop threshold, which held at every tick since some
  tick \<open>m\<close> at least the stop dwell ago.\<close>

theorem stop_dwell_respected:
  assumes "s = run_ticks cfg initial_fsm xs" and "d = decide now inp (fst s) (snd s) cfg"
    and "charging_state (fst s)" "\<not> charging_state (dec_state d)" "auto_permitted now inp cfg"
  shows "stop_condition cfg inp \<and> (\<exists>m < length xs. cfg_stop_dwell cfg \<le> time_sub now (fst (xs ! m)) \<and>
    (\<forall>k. m \<le> k \<and> k < length xs \<longrightarrow> stop_condition cfg (snd (xs ! k)) \<and>
       auto_permitted (fst (xs ! k)) (snd (xs ! k)) cfg))"
proof -
  from decide_auto_stops[of "fst s" now inp "snd s" cfg] assms(2-5) have
    d: "stop_condition cfg inp" "crossed_down_at (snd s) \<noteq> 0" "cfg_stop_dwell cfg \<le> time_sub now (crossed_down_at (snd s))"
    by auto
  have "\<exists>m < length xs. fst (xs ! m) = crossed_down_at (snd (run_ticks cfg initial_fsm xs)) \<and>
    (\<forall>k. m \<le> k \<and> k < length xs \<longrightarrow> stop_condition cfg (snd (xs ! k)) \<and>
       auto_permitted (fst (xs ! k)) (snd (xs ! k)) cfg)"
    using d(2) assms(1)
    by (intro run_marker_sustained) (auto dest: decide_crossed_down simp: initial_fsm_def)
  with d(1,3) assms(1) show ?thesis by auto
qed


section \<open>Concrete ticks for the witnesses\<close>

definition low_inputs :: inputs where
  "low_inputs = demo_inputs\<lparr>in_grid := whole 500\<rparr>"

lemma low_surplus: "surplus_of low_inputs = whole (- 500)"
  using whole_minus[of 0 500] whole_minus[of "- 500" 0]
  by (simp add: surplus_of_def low_inputs_def demo_inputs_def whole_def f64_zero_Fin)

lemma low_permitted [simp]: "auto_permitted t low_inputs demo_control"
  using demo_permitted[of t]
  by (simp add: low_inputs_def auto_permitted_def soc_target_def effective_profile_def forced_on_def
      forced_off_def override_active_def)

lemma demo_decide: "st \<noteq> StateSocReached \<Longrightarrow> decide t demo_inputs st tm demo_control =
    (if charging_state st then decide_from_charging t (whole 2000) tm demo_control ''pv''
     else decide_from_idle t (whole 2000) tm demo_control ''pv'')"
  by (subst decide_permitted) (simp_all add: effective_profile_def effective_mode_def demo_surplus)

lemma low_decide: "st \<noteq> StateSocReached \<Longrightarrow> decide t low_inputs st tm demo_control =
    (if charging_state st then decide_from_charging t (whole (- 500)) tm demo_control ''pv''
     else decide_from_idle t (whole (- 500)) tm demo_control ''pv'')"
  by (subst decide_permitted)
    (simp_all add: effective_profile_def effective_mode_def low_surplus, simp_all add: low_inputs_def)

lemma demo_conditions [simp]:
  "start_condition demo_control demo_inputs" "stop_condition demo_control low_inputs"
  by (simp_all add: start_condition_def stop_condition_def effective_profile_def demo_surplus low_surplus)
    (simp add: low_inputs_def)

lemma demo_not_forced [simp]: "\<not> forced_on t demo_inputs"
  by (simp add: forced_on_def override_active_def)

lemmas eval_ticks = decide_step_def demo_decide low_decide decide_from_idle_def decide_from_charging_def
  initial_fsm_def time_sub_def clamp64_def int64_min_def int64_max_def time_is_zero_def Let_def

lemma start_dwell_respected_witness:
  "start_condition demo_control demo_inputs \<and>
   (\<exists>m < length [(1000000000, demo_inputs)]. cfg_start_dwell demo_control
      \<le> time_sub 121000000000 (fst ([(1000000000, demo_inputs)] ! m)))"
  using start_dwell_respected [OF refl refl, of demo_control "[(1000000000, demo_inputs)]" 121000000000 demo_inputs]
  by (simp add: eval_ticks)

lemma stop_dwell_respected_witness:
  "stop_condition demo_control low_inputs \<and>
   (\<exists>m < length [(1000000000, demo_inputs), (121000000000, demo_inputs), (122000000000, low_inputs)].
      cfg_stop_dwell demo_control \<le> time_sub 302000000000
        (fst ([(1000000000, demo_inputs), (121000000000, demo_inputs), (122000000000, low_inputs)] ! m)))"
  using stop_dwell_respected [OF refl refl, of demo_control
      "[(1000000000, demo_inputs), (121000000000, demo_inputs), (122000000000, low_inputs)]" 302000000000 low_inputs]
  by (simp add: eval_ticks) blast

section \<open>Progress: a sustained condition takes effect\<close>

lemma start_not_stop: "control_ok cfg \<Longrightarrow> start_condition cfg inp \<Longrightarrow> \<not> stop_condition cfg inp"
  using f64_less_imp_le [OF f64_le_less_trans, of "cfg_start_threshold cfg" "surplus_of inp" "cfg_stop_threshold cfg"]
  by (auto simp: start_condition_def stop_condition_def dest: control_okD(1))

lemma decide_start_step:
  assumes "control_ok cfg" "auto_permitted now inp cfg" "start_condition cfg inp" "st \<noteq> StateSocReached"
  shows "if charging_state st \<or> crossed_up_at tm \<noteq> 0 \<and> cfg_start_dwell cfg \<le> time_sub now (crossed_up_at tm)
    then dec_state (decide now inp st tm cfg) = StateCharging
    else dec_state (decide now inp st tm cfg) = StateSurplusPending \<and>
      crossed_up_at (dec_timers (decide now inp st tm cfg)) = (if crossed_up_at tm = 0 then now else crossed_up_at tm)"
proof -
  have "\<not> stop_condition cfg inp" using assms(1,3) by (rule start_not_stop)
  then show ?thesis using assms(2-4)
    by (auto simp: decide_permitted decide_from_idle_def decide_from_charging_def decide_latch_def Let_def
        start_condition_def stop_condition_def charging_state_def time_is_zero_def)
qed

lemma decide_stop_step:
  assumes "control_ok cfg" "auto_permitted now inp cfg" "stop_condition cfg inp" "st \<noteq> StateSocReached"
  shows "if \<not> charging_state st \<or> crossed_down_at tm \<noteq> 0 \<and> cfg_stop_dwell cfg \<le> time_sub now (crossed_down_at tm)
    then dec_state (decide now inp st tm cfg) = StateIdle
    else dec_state (decide now inp st tm cfg) = StateStopPending \<and>
      crossed_down_at (dec_timers (decide now inp st tm cfg)) = (if crossed_down_at tm = 0 then now else crossed_down_at tm)"
proof -
  have "\<not> start_condition cfg inp" using assms(1,3) start_not_stop by blast
  then show ?thesis using assms(2-4)
    by (auto simp: decide_permitted decide_from_idle_def decide_from_charging_def decide_latch_def Let_def
        start_condition_def stop_condition_def charging_state_def time_is_zero_def)
qed

lemma time_sub_dwell: "d \<le> t - t0 \<Longrightarrow> d \<le> int64_max \<Longrightarrow> c \<le> t0 \<Longrightarrow> d \<le> time_sub t c"
  by (simp add: time_sub_def clamp64_geI)

text \<open>C9. Sustained surplus does start charging: if from some tick on the start condition of the
  active profile holds at every tick, automatic control being permitted, then after at
  least two ticks spanning the start dwell the engine is charging.\<close>

theorem sustained_start_charges:
  assumes ok: "control_ok cfg" and dwell: "cfg_start_dwell cfg \<le> int64_max"
    and st: "fst s \<noteq> StateSocReached" "crossed_up_at (snd s) \<le> t0" and t0: "t0 \<noteq> 0"
    and run: "\<forall>x \<in> set ((t0, i0) # xs @ [(t, i)]). auto_permitted (fst x) (snd x) cfg \<and> start_condition cfg (snd x)"
    and span: "cfg_start_dwell cfg \<le> t - t0"
  shows "fst (run_ticks cfg s ((t0, i0) # xs @ [(t, i)])) = StateCharging"
proof -
  define armed where "armed = (\<lambda>p :: state \<times> timers. fst p = StateCharging \<or>
    fst p = StateSurplusPending \<and> crossed_up_at (snd p) \<noteq> 0 \<and> crossed_up_at (snd p) \<le> t0)"
  have armed: "armed (run_ticks cfg s ((t0, i0) # xs))"
    using run
  proof (induction xs rule: rev_induct)
    case Nil
    then show ?case using decide_start_step[OF ok, of t0 i0 "fst s" "snd s"] st t0
      by (auto simp: armed_def decide_step_def Let_def split: if_splits)
  next
    case (snoc x xs)
    let ?p = "run_ticks cfg s ((t0, i0) # xs)"
    have p: "armed ?p" using snoc by auto
    then have "fst ?p \<noteq> StateSocReached" by (auto simp: armed_def)
    from decide_start_step[OF ok _ _ this, of "fst x" "snd x" "snd ?p"] snoc.prems p
    have "armed (decide_step cfg ?p x)"
      by (auto simp: armed_def decide_step_def Let_def split: if_splits)
    then show ?case by (simp del: append_Cons flip: append_Cons)
  qed
  let ?p = "run_ticks cfg s ((t0, i0) # xs)"
  have soc: "fst ?p \<noteq> StateSocReached" using armed by (auto simp: armed_def)
  have "fst (decide_step cfg ?p (t, i)) = StateCharging"
    using decide_start_step[OF ok _ _ soc, of t i "snd ?p"] run armed
      time_sub_dwell[OF span dwell, of "crossed_up_at (snd ?p)"]
    by (auto simp: armed_def decide_step_def Let_def split: if_splits)
  then show ?thesis by (simp del: append_Cons flip: append_Cons)
qed


lemma sustained_start_charges_witness:
  "fst (run_ticks demo_control initial_fsm ((1000000000, demo_inputs) # [] @ [(121000000000, demo_inputs)]))
     = StateCharging"
  by (rule sustained_start_charges) (simp_all add: initial_fsm_def int64_max_def)

text \<open>C10. Sustained lack of surplus does stop charging: if the stop condition holds at every tick
  over at least the stop dwell, the engine has left charging at the end.\<close>

theorem sustained_stop_ends:
  assumes ok: "control_ok cfg" and dwell: "cfg_stop_dwell cfg \<le> int64_max"
    and st: "fst s \<noteq> StateSocReached" "crossed_down_at (snd s) \<le> t0" and t0: "t0 \<noteq> 0"
    and run: "\<forall>x \<in> set ((t0, i0) # xs @ [(t, i)]). auto_permitted (fst x) (snd x) cfg \<and> stop_condition cfg (snd x)"
    and span: "cfg_stop_dwell cfg \<le> t - t0"
  shows "fst (run_ticks cfg s ((t0, i0) # xs @ [(t, i)])) = StateIdle"
proof -
  define low where "low = (\<lambda>p :: state \<times> timers. fst p = StateIdle \<or>
    fst p = StateStopPending \<and> crossed_down_at (snd p) \<noteq> 0 \<and> crossed_down_at (snd p) \<le> t0)"
  have low: "low (run_ticks cfg s ((t0, i0) # xs))"
    using run
  proof (induction xs rule: rev_induct)
    case Nil
    then show ?case using decide_stop_step[OF ok, of t0 i0 "fst s" "snd s"] st t0
      by (auto simp: low_def decide_step_def Let_def split: if_splits)
  next
    case (snoc x xs)
    let ?p = "run_ticks cfg s ((t0, i0) # xs)"
    have p: "low ?p" using snoc by auto
    then have "fst ?p \<noteq> StateSocReached" by (auto simp: low_def)
    from decide_stop_step[OF ok _ _ this, of "fst x" "snd x" "snd ?p"] snoc.prems p
    have "low (decide_step cfg ?p x)"
      by (auto simp: low_def decide_step_def Let_def split: if_splits)
    then show ?case by (simp del: append_Cons flip: append_Cons)
  qed
  let ?p = "run_ticks cfg s ((t0, i0) # xs)"
  have soc: "fst ?p \<noteq> StateSocReached" using low by (auto simp: low_def)
  have "fst (decide_step cfg ?p (t, i)) = StateIdle"
    using decide_stop_step[OF ok _ _ soc, of t i "snd ?p"] run low
      time_sub_dwell[OF span dwell, of "crossed_down_at (snd ?p)"]
    by (auto simp: low_def decide_step_def Let_def split: if_splits)
  then show ?thesis by (simp del: append_Cons flip: append_Cons)
qed

lemma sustained_stop_ends_witness:
  "fst (run_ticks demo_control (StateCharging, reset_timers)
     ((1000000000, low_inputs) # [] @ [(181000000000, low_inputs)])) = StateIdle"
  by (rule sustained_stop_ends) (simp_all add: int64_max_def)

section \<open>Charging to completion\<close>

lemma decide_latch_holds:
  assumes "auto_permitted now inp cfg" "effective_profile inp cfg \<noteq> AutoProfileSurplus" "charging_state st"
  shows "decide now inp st tm cfg = new_decision StateCharging reset_timers EnableModeNow ReasonLatchCharging"
proof -
  have "st \<noteq> StateSocReached" using assms(3) by auto
  with assms(1,2) have "decide now inp st tm cfg = decide_latch now inp st tm cfg (effective_profile inp cfg)"
    by (simp add: decide_permitted)
  also have "\<dots> = new_decision StateCharging reset_timers EnableModeNow ReasonLatchCharging"
    using assms(3) by (auto simp: charging_state_def decide_latch_def)
  finally show ?thesis .
qed

text \<open>C23. A latch profile charges to completion: once charging, it keeps charging at full power at
  every tick at which automatic control is permitted, whatever the surplus does; only the
  target SoC, the fail-safe, an override or unplugging can end it.\<close>

theorem latch_charges_to_completion:
  assumes "charging_state (fst s)"
    and "\<forall>x \<in> set xs. auto_permitted (fst x) (snd x) cfg \<and> effective_profile (snd x) cfg \<noteq> AutoProfileSurplus"
    and "auto_permitted now inp cfg" "effective_profile inp cfg \<noteq> AutoProfileSurplus"
  shows "dec_state (decide now inp (fst (run_ticks cfg s xs)) (snd (run_ticks cfg s xs)) cfg) = StateCharging \<and>
    dec_mode (decide now inp (fst (run_ticks cfg s xs)) (snd (run_ticks cfg s xs)) cfg) = EnableModeNow"
proof -
  have "charging_state (fst (run_ticks cfg s xs))"
    using assms(2)
  proof (induction xs rule: rev_induct)
    case (snoc x xs)
    then have "charging_state (fst (run_ticks cfg s xs))" by simp
    with snoc.prems show ?case by (simp add: decide_step_def Let_def decide_latch_holds)
  qed (use assms(1) in simp)
  with assms(3,4) show ?thesis by (simp add: decide_latch_holds)
qed

definition latch_inputs :: inputs where
  "latch_inputs = low_inputs\<lparr>in_auto_profile := ''power_latch'', in_target_soc := 90, in_vehicle_soc := 85\<rparr>"

lemma latch_inputs_permitted [simp]:
  "auto_permitted t latch_inputs demo_control" "effective_profile latch_inputs demo_control \<noteq> AutoProfileSurplus"
  by (simp_all add: latch_inputs_def low_inputs_def auto_permitted_def soc_target_def effective_profile_def
      effective_target_soc_def forced_on_def forced_off_def override_active_def profile_defs)

lemma latch_charges_to_completion_witness:
  "dec_mode (decide 9 latch_inputs (fst (run_ticks demo_control (StateCharging, reset_timers) [(5, latch_inputs)]))
     (snd (run_ticks demo_control (StateCharging, reset_timers) [(5, latch_inputs)])) demo_control) = EnableModeNow"
  using latch_charges_to_completion [of "(StateCharging, reset_timers)" "[(5, latch_inputs)]" demo_control 9 latch_inputs]
  by simp

section \<open>The SoC latch over time\<close>

definition latch_tick :: "control \<Rightarrow> tick_input \<Rightarrow> bool" where
  "latch_tick cfg x \<longleftrightarrow> \<not> in_stale (snd x) \<and> \<not> forced_on (fst x) (snd x) \<and> \<not> forced_off (fst x) (snd x) \<and>
     in_ready (snd x) \<and> in_connected (snd x) \<and> resume_below (snd x) cfg \<le> in_vehicle_soc (snd x)"

text \<open>C22. Once the SoC cap has latched, it stays latched over any run of fresh automatic ticks with
  the vehicle connected, whatever the surplus, until the SoC is below the resume boundary.\<close>

theorem soc_latch_holds:
  assumes "fst s = StateSocReached" and "\<forall>x \<in> set xs. latch_tick cfg x"
  shows "fst (run_ticks cfg s xs) = StateSocReached"
  using assms(2)
proof (induction xs rule: rev_induct)
  case (snoc x xs)
  then show ?case
    by (simp add: decide_step_def Let_def latch_tick_def decide_automatic decide_auto_def)
qed (use assms(1) in simp)

definition full_inputs :: inputs where
  "full_inputs = demo_inputs\<lparr>in_vehicle_soc := 79\<rparr>"

lemma full_surplus: "surplus_of full_inputs = whole 2000"
  unfolding full_inputs_def surplus_of_frame by (rule demo_surplus)

lemma full_gates [simp]:
  "forced_on t full_inputs = False" "forced_off t full_inputs = False" "in_stale full_inputs = False"
  "in_ready full_inputs = True" "in_connected full_inputs = True" "in_vehicle_soc full_inputs = 79"
  "effective_profile full_inputs demo_control = AutoProfileSurplus" "soc_target full_inputs demo_control = 80"
  "resume_below full_inputs demo_control = 78" "effective_mode full_inputs demo_control = ''pv''"
  by (simp_all add: full_inputs_def forced_on_def forced_off_def override_active_def effective_profile_def
      soc_target_def resume_below_def sub64_def wrap64_def effective_mode_def)

lemma soc_latch_holds_witness:
  "fst (run_ticks demo_control (StateSocReached, reset_timers) [(5, full_inputs), (6, full_inputs)]) = StateSocReached"
  by (rule soc_latch_holds) (simp_all add: latch_tick_def)

lemma full_decide: "st \<noteq> StateSocReached \<Longrightarrow> decide t full_inputs st tm demo_control =
    (if charging_state st then decide_from_charging t (whole 2000) tm demo_control ''pv''
     else decide_from_idle t (whole 2000) tm demo_control ''pv'')"
  by (subst decide_permitted) (simp_all add: full_surplus auto_permitted_def)

text \<open>The latch does not survive an interruption: with cap 80 and resume boundary 78, at SoC 79
  the engine latched off stays off without end, but one stale tick in between forgets the
  latch, and two minutes of surplus later it charges again at the very same SoC 79.\<close>

theorem soc_latch_lost_by_failsafe:
  "fst (run_ticks demo_control (StateSocReached, reset_timers)
     [(1000000000, full_inputs), (121000000000, full_inputs)]) = StateSocReached \<and>
   fst (run_ticks demo_control (StateSocReached, reset_timers)
     [(500000000, full_inputs\<lparr>in_stale := True\<rparr>), (1000000000, full_inputs), (121000000000, full_inputs)])
     = StateCharging \<and>
   resume_below full_inputs demo_control \<le> in_vehicle_soc full_inputs"
  by (simp add: decide_step_def full_decide full_surplus decide_stale decide_automatic decide_auto_def decide_from_idle_def
      time_sub_def clamp64_def int64_min_def int64_max_def time_is_zero_def Let_def)

end
