(* ===== verification/PolicyDiagram.thy ===== *)
theory PolicyDiagram
  imports PolicyProps
begin

text \<open>
  The decisions against the state diagram of the README.
\<close>

section \<open>The diagram\<close>

text \<open>
  The arrows with their labels. A label \<open>held\<close> asks for the condition now and a marker set at
  least the dwell time ago. The diagram speaks of the default profile; overrides and the
  connection gate are said to sit above it.
\<close>

inductive arrow :: "time \<Rightarrow> inputs \<Rightarrow> timers \<Rightarrow> control \<Rightarrow> state \<Rightarrow> state \<Rightarrow> bool"
  for now :: time and inp :: inputs and tm :: timers and cfg :: control where
  at_start: "cfg_start_threshold cfg \<le> surplus_of inp \<Longrightarrow> arrow now inp tm cfg StateIdle StateSurplusPending"
| held_start: "cfg_start_threshold cfg \<le> surplus_of inp \<Longrightarrow> crossed_up_at tm \<noteq> 0 \<Longrightarrow>
    cfg_start_dwell cfg \<le> time_sub now (crossed_up_at tm) \<Longrightarrow> arrow now inp tm cfg StateSurplusPending StateCharging"
| below_start: "surplus_of inp < cfg_start_threshold cfg \<Longrightarrow> arrow now inp tm cfg StateSurplusPending StateIdle"
| below_stop: "surplus_of inp < cfg_stop_threshold cfg \<Longrightarrow> arrow now inp tm cfg StateCharging StateStopPending"
| at_stop: "cfg_stop_threshold cfg \<le> surplus_of inp \<Longrightarrow> arrow now inp tm cfg StateStopPending StateCharging"
| held_stop: "surplus_of inp < cfg_stop_threshold cfg \<Longrightarrow> crossed_down_at tm \<noteq> 0 \<Longrightarrow>
    cfg_stop_dwell cfg \<le> time_sub now (crossed_down_at tm) \<Longrightarrow> arrow now inp tm cfg StateStopPending StateIdle"
| at_cap: "cfg_soc_cap cfg \<le> in_vehicle_soc inp \<Longrightarrow> arrow now inp tm cfg StateCharging StateSocReached"
| resumes: "in_vehicle_soc inp < cfg_soc_resume_below cfg \<Longrightarrow> arrow now inp tm cfg StateSocReached StateIdle"
| fails: "in_stale inp \<or> \<not> in_connected inp \<Longrightarrow> arrow now inp tm cfg StateCharging StateFailSafe"
| recovered: "\<not> in_stale inp \<Longrightarrow> arrow now inp tm cfg StateFailSafe StateIdle"

inductive_cases arrow_from [elim]: "arrow now inp tm cfg st st'"
inductive_simps arrow_simps [simp]:
  "arrow now inp tm cfg StateIdle st" "arrow now inp tm cfg StateSurplusPending st" "arrow now inp tm cfg StateCharging st"
  "arrow now inp tm cfg StateStopPending st" "arrow now inp tm cfg StateSocReached st" "arrow now inp tm cfg StateFailSafe st"

text \<open>Where the diagram speaks: automatic control of a connected vehicle under the default profile, on power
  readings that are numbers; lost data while charging or already failing safe; the cap while
  charging or after it was reached.\<close>

definition on_diagram :: "time \<Rightarrow> inputs \<Rightarrow> state \<Rightarrow> control \<Rightarrow> bool" where
  "on_diagram now inp st cfg \<longleftrightarrow> \<not> forced_on now inp \<and> \<not> forced_off now inp \<and> in_ready inp \<and> in_connected inp \<and>
     effective_profile inp cfg = AutoProfileSurplus \<and> \<not> is_nan (surplus_of inp) \<and>
     (in_stale inp \<longrightarrow> st = StateCharging \<or> st = StateFailSafe) \<and>
     (cfg_soc_cap cfg \<le> in_vehicle_soc inp \<longrightarrow> st = StateCharging \<or> st = StateSocReached)"

section \<open>Decisions follow the arrows\<close>

lemma resume_below_surplus:
  assumes "in64 (cfg_soc_resume_below cfg)" "effective_profile inp cfg = AutoProfileSurplus"
  shows "resume_below inp cfg = cfg_soc_resume_below cfg"
proof -
  have "resume_below inp cfg = wrap64 (cfg_soc_resume_below cfg)"
    using mod_add_self2[of "cfg_soc_resume_below cfg - 9223372036854775808" "18446744073709551616"]
    unfolding resume_below_def sub64_def soc_target_def assms(2) by (simp add: wrap64_def mod_simps add.commute)
  with assms(1) show ?thesis by (simp add: wrap64_id)
qed

lemma decide_on_diagram:
  assumes "in64 (cfg_soc_resume_below cfg)" "on_diagram now inp st cfg"
  shows "decide now inp st tm cfg =
    (if in_stale inp then new_decision StateFailSafe reset_timers ModeOff ReasonStaleOff
     else if cfg_soc_cap cfg \<le> in_vehicle_soc inp then new_decision StateSocReached reset_timers ModeOff ReasonSoCCap
     else if st = StateSocReached \<and> cfg_soc_resume_below cfg \<le> in_vehicle_soc inp
       then new_decision StateSocReached reset_timers ModeOff ReasonSoCLatch
     else if charging_state st then decide_from_charging now (surplus_of inp) tm cfg (effective_mode inp cfg)
     else decide_from_idle now (surplus_of inp) tm cfg (effective_mode inp cfg))"
proof (cases "in_stale inp")
  case False
  with assms show ?thesis
    by (simp add: decide_automatic on_diagram_def decide_auto_def Let_def soc_target_def resume_below_surplus charging_state_def)
qed (simp add: decide_stale)



end
