(* ===== verification/Strconv.thy ===== *)
theory Strconv
  imports Float64
begin

text \<open>
  The parts of Go's \<open>strings\<close> and \<open>strconv\<close> packages the program uses, on byte strings:
  \<open>TrimSpace\<close>, \<open>Split\<close> and friends, \<open>Itoa\<close>, \<open>Atoi\<close>, \<open>ParseFloat\<close> and
  \<open>FormatFloat\<close> in the form \<open>'f', -1\<close>, with their round trips.
\<close>

section \<open>The strings package\<close>

definition byte :: "char \<Rightarrow> int" where "byte c = of_char c"

definition has_prefix :: "string \<Rightarrow> string \<Rightarrow> bool" where
  "has_prefix s p \<longleftrightarrow> take (length p) s = p"

definition has_suffix :: "string \<Rightarrow> string \<Rightarrow> bool" where
  "has_suffix s p \<longleftrightarrow> has_prefix (rev s) (rev p)"

definition ascii_space :: "char \<Rightarrow> bool" where
  "ascii_space c \<longleftrightarrow> byte c \<in> {9, 10, 11, 12, 13, 32}"

text \<open>The UTF-8 encodings of the white space beyond ASCII (\<open>unicode.IsSpace\<close>).\<close>

definition wide_spaces :: "string list" where
  "wide_spaces = [[CHR 0xC2, CHR 0x85], [CHR 0xC2, CHR 0xA0], [CHR 0xE1, CHR 0x9A, CHR 0x80],
     [CHR 0xE2, CHR 0x80, CHR 0x80], [CHR 0xE2, CHR 0x80, CHR 0x81], [CHR 0xE2, CHR 0x80, CHR 0x82],
     [CHR 0xE2, CHR 0x80, CHR 0x83], [CHR 0xE2, CHR 0x80, CHR 0x84], [CHR 0xE2, CHR 0x80, CHR 0x85],
     [CHR 0xE2, CHR 0x80, CHR 0x86], [CHR 0xE2, CHR 0x80, CHR 0x87], [CHR 0xE2, CHR 0x80, CHR 0x88],
     [CHR 0xE2, CHR 0x80, CHR 0x89], [CHR 0xE2, CHR 0x80, CHR 0x8A], [CHR 0xE2, CHR 0x80, CHR 0xA8],
     [CHR 0xE2, CHR 0x80, CHR 0xA9], [CHR 0xE2, CHR 0x80, CHR 0xAF], [CHR 0xE2, CHR 0x81, CHR 0x9F],
     [CHR 0xE3, CHR 0x80, CHR 0x80]]"

text \<open>The length of the white space the string starts with, 0 if it starts with none.\<close>

definition lead_space :: "string list \<Rightarrow> string \<Rightarrow> nat" where
  "lead_space wide s = (case s of [] \<Rightarrow> 0 | c # _ \<Rightarrow>
     if ascii_space c then 1
     else (case find (has_prefix s) wide of None \<Rightarrow> 0 | Some w \<Rightarrow> length w))"

fun trim_lead :: "nat \<Rightarrow> string list \<Rightarrow> string \<Rightarrow> string" where
  "trim_lead 0 wide s = s"
| "trim_lead (Suc n) wide s = (let k = lead_space wide s in if k = 0 then s else trim_lead n wide (drop k s))"

definition trim_space :: "string \<Rightarrow> string" where
  "trim_space s = (let l = trim_lead (length s) wide_spaces s
     in rev (trim_lead (length l) (map rev wide_spaces) (rev l)))"

text \<open>\<open>strings.Split(s, sep)\<close> for a one-byte separator: never empty.\<close>

fun split_on :: "char \<Rightarrow> string \<Rightarrow> string list" where
  "split_on sep [] = [[]]"
| "split_on sep (c # cs) = (if c = sep then [] # split_on sep cs
     else case split_on sep cs of [] \<Rightarrow> [[c]] | p # ps \<Rightarrow> (c # p) # ps)"

definition trim_left_byte :: "char \<Rightarrow> string \<Rightarrow> string" where
  "trim_left_byte c s = dropWhile (\<lambda>x. x = c) s"

definition trim_right_byte :: "char \<Rightarrow> string \<Rightarrow> string" where
  "trim_right_byte c s = rev (dropWhile (\<lambda>x. x = c) (rev s))"

lemma split_on_nonempty [simp]: "split_on sep s \<noteq> []"
  by (induction s) (auto split: list.splits)

lemma split_on_join: "concat (map (\<lambda>p. p @ [sep]) (split_on sep s)) = s @ [sep]"
  by (induction s) (auto split: list.splits)

lemma split_on_no_sep: "p \<in> set (split_on sep s) \<Longrightarrow> sep \<notin> set p"
  by (induction s arbitrary: p) (auto split: list.splits if_splits)

lemma split_on_single: "sep \<notin> set s \<Longrightarrow> split_on sep s = [s]"
  by (induction s) auto

lemma split_on_append: "sep \<notin> set p \<Longrightarrow> split_on sep (p @ sep # s) = p # split_on sep s"
  by (induction p) auto

section \<open>Itoa and Atoi\<close>

definition is_digit :: "char \<Rightarrow> bool" where "is_digit c \<longleftrightarrow> 48 \<le> byte c \<and> byte c \<le> 57"
definition digit_val :: "char \<Rightarrow> int" where "digit_val c = byte c - 48"
definition digit_char :: "int \<Rightarrow> char" where "digit_char d = char_of (48 + d)"

text \<open>The decimal digits of a natural number (integers are binary, so that this computes).\<close>

function nat_str :: "int \<Rightarrow> string" where
  "nat_str n = (if n < 10 then [digit_char n] else nat_str (n div 10) @ [digit_char (n mod 10)])"
  by pat_completeness auto
termination
  by (relation "measure nat") auto

declare nat_str.simps [simp del]

definition digits_val :: "string \<Rightarrow> int" where
  "digits_val = foldl (\<lambda>a c. 10 * a + digit_val c) 0"

definition itoa :: "int \<Rightarrow> string" where
  "itoa n = (if n < 0 then CHR ''-'' # nat_str (- n) else nat_str n)"

text \<open>
  \<open>Atoi\<close> returns a value and whether the error is nil; on a range error the value is the
  nearest 64-bit integer, on a syntax error it is 0.
\<close>

definition atoi :: "string \<Rightarrow> int \<times> bool" where
  "atoi s =
    (let (neg, ds) = (case s of [] \<Rightarrow> (False, [])
        | c # cs \<Rightarrow> if c = CHR ''-'' then (True, cs) else if c = CHR ''+'' then (False, cs) else (False, s))
     in if ds = [] \<or> \<not> list_all is_digit ds then (0, False)
        else let n = (if neg then - digits_val ds else digits_val ds)
             in if in64 n then (n, True) else (clamp64 n, False))"

lemma digit_char_props [simp]:
  "0 \<le> d \<Longrightarrow> d < 10 \<Longrightarrow> is_digit (digit_char d)" "0 \<le> d \<Longrightarrow> d < 10 \<Longrightarrow> digit_val (digit_char d) = d"
  by (simp_all add: is_digit_def digit_val_def digit_char_def byte_def)

lemma digits_val_snoc [simp]: "digits_val (s @ [c]) = 10 * digits_val s + digit_val c"
  by (simp add: digits_val_def)

lemma digits_val_Nil [simp]: "digits_val [] = 0"
  by (simp add: digits_val_def)

lemma digit_val_nonneg: "is_digit c \<Longrightarrow> 0 \<le> digit_val c"
  by (simp add: is_digit_def digit_val_def)

lemma digits_val_nonneg: "list_all is_digit s \<Longrightarrow> 0 \<le> digits_val s"
  by (induction s rule: rev_induct) (auto dest: digit_val_nonneg)

lemma nat_str_props: "0 \<le> n \<Longrightarrow> nat_str n \<noteq> [] \<and> list_all is_digit (nat_str n) \<and> digits_val (nat_str n) = n"
proof (induction n rule: nat_str.induct)
  case (1 n)
  show ?case
  proof (cases "n < 10")
    case True
    then show ?thesis using digits_val_snoc[of "[]" "digit_char n"] "1.prems" by (simp add: nat_str.simps[of n])
  next
    case False
    with 1 show ?thesis by (simp add: nat_str.simps[of n])
  qed
qed

lemma nat_str_digits [simp]:
  "0 \<le> n \<Longrightarrow> nat_str n \<noteq> []" "0 \<le> n \<Longrightarrow> list_all is_digit (nat_str n)" "0 \<le> n \<Longrightarrow> digits_val (nat_str n) = n"
  using nat_str_props by auto

lemma sign_not_digit [simp]:
  "\<not> is_digit CHR ''-''" "\<not> is_digit CHR ''+''" "\<not> is_digit CHR ''.''" "\<not> is_digit CHR ''_''"
  by (simp_all add: is_digit_def byte_def)

lemma digits_no_sign: "list_all is_digit (c # cs) \<Longrightarrow> c \<noteq> CHR ''-'' \<and> c \<noteq> CHR ''+''"
  by auto

lemma atoi_nat_str:
  assumes "0 \<le> n" "n \<le> int64_max"
  shows "atoi (nat_str n) = (n, True)"
proof -
  obtain c cs where s: "nat_str n = c # cs" using nat_str_digits(1)[OF assms(1)] by (cases "nat_str n") auto
  then have "c \<noteq> CHR ''-''" "c \<noteq> CHR ''+''" using digits_no_sign[of c cs] nat_str_digits(2)[OF assms(1)] by auto
  with s assms show ?thesis
    using nat_str_digits[OF assms(1)] by (simp add: atoi_def in64_def int64_min_def)
qed

text \<open>Every 64-bit integer survives printing and parsing.\<close>

lemma atoi_itoa: "in64 n \<Longrightarrow> atoi (itoa n) = (n, True)"
proof (cases "n < 0")
  case True
  assume "in64 n"
  with True show ?thesis using nat_str_digits[of "- n"] by (simp add: itoa_def atoi_def)
next
  case False
  assume "in64 n"
  with False show ?thesis using atoi_nat_str[of n] by (simp add: itoa_def in64_def)
qed

lemma atoi_range: "in64 (fst (atoi s))"
  by (auto simp: atoi_def Let_def in64_clamp64 split: list.splits if_splits prod.splits)
    (simp_all add: in64_def int64_min_def int64_max_def)

section \<open>ParseFloat\<close>

text \<open>
  \<open>strconv.ParseFloat(s, 64)\<close>: decimal and hexadecimal floating-point literals with
  underscores between digits, infinities and NaN without regard to case, correctly rounded;
  \<open>None\<close> where it returns an error (malformed, or too large).
\<close>

definition lower :: "char \<Rightarrow> char" where
  "lower c = (if 65 \<le> byte c \<and> byte c \<le> 90 then char_of (byte c + 32) else c)"

definition hex_val :: "char \<Rightarrow> int option" where
  "hex_val c = (if is_digit c then Some (digit_val c)
     else let l = byte (lower c) in if 97 \<le> l \<and> l \<le> 102 then Some (l - 87) else None)"

text \<open>An optional sign: whether there is one and whether it is minus, and the rest.\<close>

definition take_sign :: "string \<Rightarrow> bool option \<times> string" where
  "take_sign s = (case s of [] \<Rightarrow> (None, [])
     | c # cs \<Rightarrow> if c = CHR ''-'' then (Some True, cs) else if c = CHR ''+'' then (Some False, cs) else (None, s))"

definition special :: "string \<Rightarrow> f64 option" where
  "special s = (let (sg, t) = take_sign s; l = map lower t in
     if l = ''inf'' \<or> l = ''infinity'' then Some (f64_inf (sg = Some True))
     else if l = ''nan'' \<and> sg = None then Some NaN else None)"

text \<open>The mantissa scan: digits, at most one point, underscores. It collects the digits as a
  number, how many stand after the point, and whether there was a point and a digit.\<close>

record mant_scan =
  ms_mant :: int
  ms_frac :: nat
  ms_dot :: bool
  ms_digits :: bool
  ms_under :: bool

fun scan_mant :: "int \<Rightarrow> (char \<Rightarrow> int option) \<Rightarrow> string \<Rightarrow> mant_scan \<Rightarrow> mant_scan \<times> string" where
  "scan_mant base dv [] m = (m, [])"
| "scan_mant base dv (c # cs) m =
    (if c = CHR ''_'' then scan_mant base dv cs (m\<lparr>ms_under := True\<rparr>)
     else if c = CHR ''.'' then
       (if ms_dot m then (m, c # cs) else scan_mant base dv cs (m\<lparr>ms_dot := True\<rparr>))
     else (case dv c of None \<Rightarrow> (m, c # cs)
       | Some d \<Rightarrow> scan_mant base dv cs (m\<lparr>ms_mant := base * ms_mant m + d, ms_digits := True,
           ms_frac := ms_frac m + (if ms_dot m then 1 else 0)\<rparr>)))"

text \<open>The exponent digits; the value stops growing at five digits.\<close>

fun scan_exp :: "string \<Rightarrow> int \<Rightarrow> bool \<Rightarrow> int \<times> bool \<times> string" where
  "scan_exp [] e u = (e, u, [])"
| "scan_exp (c # cs) e u =
    (if c = CHR ''_'' then scan_exp cs e True
     else if is_digit c then scan_exp cs (if e < 10000 then 10 * e + digit_val c else e) u
     else (e, u, c # cs))"

text \<open>\<open>underscoreOK\<close>: underscores only between digits, the base prefix counting as one.\<close>

datatype saw = SawStart | SawDigit | SawUnder | SawOther

fun underscores_ok :: "bool \<Rightarrow> string \<Rightarrow> saw \<Rightarrow> bool" where
  "underscores_ok hex [] w = (w \<noteq> SawUnder)"
| "underscores_ok hex (c # cs) w =
    (if is_digit c \<or> hex \<and> hex_val c \<noteq> None then underscores_ok hex cs SawDigit
     else if c = CHR ''_'' then w = SawDigit \<and> underscores_ok hex cs SawUnder
     else w \<noteq> SawUnder \<and> underscores_ok hex cs SawOther)"

definition dec_digit :: "char \<Rightarrow> int option" where
  "dec_digit c = (if is_digit c then Some (digit_val c) else None)"

definition mant_start :: mant_scan where
  "mant_start = \<lparr>ms_mant = 0, ms_frac = 0, ms_dot = False, ms_digits = False, ms_under = False\<rparr>"

text \<open>What follows the mantissa: nothing, or an exponent up to the end of the string.\<close>

definition read_exponent :: "bool \<Rightarrow> string \<Rightarrow> (int \<times> bool) option" where
  "read_exponent hex rest = (case rest of
       [] \<Rightarrow> if hex then None else Some (0, False)
     | c # r \<Rightarrow>
        if lower c \<noteq> (if hex then CHR ''p'' else CHR ''e'') then None
        else (case take_sign r of (sg, ds) \<Rightarrow>
          if ds = [] \<or> \<not> is_digit (hd ds) then None
          else (case scan_exp ds 0 False of (e, u, left) \<Rightarrow>
            if left \<noteq> [] then None else Some (if sg = Some True then - e else e, u))))"

definition pow10 :: "int \<Rightarrow> rat" where
  "pow10 k = (if 0 \<le> k then 10 ^ nat k else 1 / 10 ^ nat (- k))"

text \<open>The unsigned part: the magnitude denoted, or None when malformed.\<close>

definition hex_prefix :: "string \<Rightarrow> bool" where
  "hex_prefix t = (case t of z # x # _ \<Rightarrow> z = CHR ''0'' \<and> lower x = CHR ''x'' | _ \<Rightarrow> False)"

definition read_magnitude :: "string \<Rightarrow> rat option" where
  "read_magnitude t =
    (let hex = hex_prefix t; body = (if hex then drop 2 t else t)
     in case scan_mant (if hex then 16 else 10) (if hex then hex_val else dec_digit) body mant_start of
      (m, rest) \<Rightarrow>
        if \<not> ms_digits m then None
        else (case read_exponent hex rest of None \<Rightarrow> None
          | Some (e, u) \<Rightarrow>
             if (ms_under m \<or> u) \<and> \<not> underscores_ok hex body (if hex then SawDigit else SawStart) then None
             else if hex then Some (of_int (ms_mant m) * pow2 (e - 4 * int (ms_frac m)))
             else Some (of_int (ms_mant m) * pow10 (e - int (ms_frac m)))))"

definition parse_float :: "string \<Rightarrow> f64 option" where
  "parse_float s = (case special s of Some v \<Rightarrow> Some v
    | None \<Rightarrow> (case take_sign s of (sg, t) \<Rightarrow>
        (case read_magnitude t of None \<Rightarrow> None
          | Some q \<Rightarrow> let neg = (sg = Some True);
                v = (if q = 0 then f64_zero neg else fl (if neg then - q else q))
              in if is_finite v then Some v else None)))"

section \<open>FormatFloat(v, 'f', -1, 64)\<close>

text \<open>
  The shortest decimal that parses back to the value: for one significant digit, then two,
  and so on, the two neighbouring decimals of that many digits are tried; of those that
  round back to the value the nearer is taken. A binary64 value needs at most 17 digits, so
  the search ends long before its fuel of 500.
\<close>

text \<open>The decimal exponent \<open>d\<close> with \<open>10^(d-1) \<le> q < 10^d\<close>.\<close>

fun dec_exp :: "nat \<Rightarrow> int \<Rightarrow> rat \<Rightarrow> int" where
  "dec_exp 0 d q = d"
| "dec_exp (Suc n) d q = (if pow10 d \<le> q then dec_exp n (d + 1) q
     else if q < pow10 (d - 1) then dec_exp n (d - 1) q else d)"

definition shortest_at :: "rat \<Rightarrow> int \<Rightarrow> int option" where
  "shortest_at q k = (let x = q / pow10 k; a = \<lfloor>x\<rfloor>; b = \<lceil>x\<rceil>;
      ok = (\<lambda>m. fl (of_int m * pow10 k) = Fin q) in
     if ok a \<and> ok b then Some (if x - of_int a \<le> of_int b - x then a else b)
     else if ok a then Some a else if ok b then Some b else None)"

fun shortest :: "nat \<Rightarrow> rat \<Rightarrow> int \<Rightarrow> int \<times> int" where
  "shortest 0 q k = (\<lfloor>q / pow10 k\<rfloor>, k)"
| "shortest (Suc n) q k = (case shortest_at q k of Some m \<Rightarrow> (m, k) | None \<Rightarrow> shortest n q (k - 1))"

fun strip_zeros :: "nat \<Rightarrow> int \<times> int \<Rightarrow> int \<times> int" where
  "strip_zeros 0 p = p"
| "strip_zeros (Suc n) (m, k) = (if m \<noteq> 0 \<and> m mod 10 = 0 then strip_zeros n (m div 10, k + 1) else (m, k))"

text \<open>Positional notation of \<open>m * 10^k\<close>.\<close>

definition positional :: "int \<Rightarrow> int \<Rightarrow> string" where
  "positional m k = (let ds = nat_str m in
     if 0 \<le> k then ds @ replicate (nat k) CHR ''0''
     else let f = nat (- k) in
       if f < length ds then take (length ds - f) ds @ ''.'' @ drop (length ds - f) ds
       else ''0.'' @ replicate (f - length ds) CHR ''0'' @ ds)"

definition format_float :: "f64 \<Rightarrow> string" where
  "format_float v = (case v of NaN \<Rightarrow> ''NaN'' | PosInf \<Rightarrow> ''+Inf'' | NegInf \<Rightarrow> ''-Inf'' | NegZero \<Rightarrow> ''-0''
    | Fin q \<Rightarrow> if q = 0 then ''0'' else
       (case strip_zeros 20 (shortest 500 \<bar>q\<bar> (dec_exp 400 1 \<bar>q\<bar> - 1)) of (m, k) \<Rightarrow>
         (if q < 0 then ''-'' else []) @ positional m k))"

section \<open>Printing and parsing whole numbers\<close>

lemma digit_lower: "is_digit c \<Longrightarrow> lower c = c"
  by (simp add: is_digit_def lower_def)

lemma digits_lower: "list_all is_digit s \<Longrightarrow> map lower s = s"
  by (induction s) (auto simp: digit_lower)

lemma letters_not_digit [simp]:
  "\<not> is_digit CHR ''i''" "\<not> is_digit CHR ''n''" "\<not> is_digit CHR ''x''"
  by (simp_all add: is_digit_def byte_def)

lemma special_digits: "list_all is_digit s \<Longrightarrow> special s = None"
  by (cases s) (auto simp: special_def take_sign_def digit_lower)

lemma take_sign_digits: "list_all is_digit s \<Longrightarrow> take_sign s = (None, s)"
  by (cases s) (auto simp: take_sign_def)

lemma hex_prefix_digits: "list_all is_digit s \<Longrightarrow> \<not> hex_prefix s"
  by (cases s; cases "tl s") (auto simp: hex_prefix_def digit_lower)

lemma scan_mant_digits:
  "list_all is_digit s \<Longrightarrow> \<not> ms_dot m \<Longrightarrow> scan_mant 10 dec_digit s m =
    (m\<lparr>ms_mant := foldl (\<lambda>a c. 10 * a + digit_val c) (ms_mant m) s, ms_digits := ms_digits m \<or> s \<noteq> []\<rparr>, [])"
  by (induction s arbitrary: m) (auto simp: dec_digit_def)

lemma read_magnitude_digits:
  "list_all is_digit s \<Longrightarrow> s \<noteq> [] \<Longrightarrow> read_magnitude s = Some (of_int (digits_val s))"
  by (simp add: read_magnitude_def hex_prefix_digits scan_mant_digits mant_start_def read_exponent_def
      pow10_def Let_def flip: digits_val_def)

lemma parse_float_digits:
  assumes "list_all is_digit s" "s \<noteq> []" "fl (of_int (digits_val s)) = Fin q"
  shows "parse_float s = Some (Fin q)"
  using assms by (auto simp: parse_float_def special_digits take_sign_digits read_magnitude_digits f64_zero_def Let_def)

lemma digits_val_zeros: "digits_val (s @ replicate k CHR ''0'') = digits_val s * 10 ^ k"
proof (induction k)
  case (Suc k)
  have "digit_val CHR ''0'' = 0" by (simp add: digit_val_def byte_def)
  with Suc show ?case by (simp add: replicate_append_same[symmetric] flip: append_assoc)
qed simp

lemma zeros_digits [simp]: "list_all is_digit (replicate k CHR ''0'')"
  by (induction k) (simp_all add: is_digit_def byte_def)

lemma parse_positional:
  assumes "0 \<le> m" "0 \<le> k" "fl (of_int m * pow10 k) = Fin q"
  shows "parse_float (positional m k) = Some (Fin q)"
proof -
  have "of_int (digits_val (nat_str m @ replicate (nat k) CHR ''0'')) = of_int m * pow10 k"
    using assms(1,2) by (simp add: digits_val_zeros pow10_def)
  with assms show ?thesis by (simp add: positional_def parse_float_digits)
qed

lemma pow10_step: "0 \<le> k \<Longrightarrow> pow10 (k + 1) = 10 * pow10 k"
  by (simp add: pow10_def nat_add_distrib)

lemma strip_zeros_value:
  "0 \<le> m \<Longrightarrow> 0 \<le> k \<Longrightarrow> strip_zeros n (m, k) = (m', k') \<Longrightarrow>
    0 \<le> m' \<and> 0 \<le> k' \<and> of_int m' * pow10 k' = of_int m * pow10 k"
proof (induction n arbitrary: m k)
  case (Suc n)
  show ?case
  proof (cases "m \<noteq> 0 \<and> m mod 10 = 0")
    case True
    then have "m = 10 * (m div 10)" by presburger
    then have "(of_int m :: rat) = 10 * of_int (m div 10)" by (metis of_int_mult of_int_numeral)
    moreover have "0 \<le> m' \<and> 0 \<le> k' \<and> of_int m' * pow10 k' = of_int (m div 10) * pow10 (k + 1)"
      using True Suc.prems by (intro Suc.IH) auto
    ultimately show ?thesis using Suc.prems(2) by (simp add: pow10_step)
  qed (use Suc.prems in auto)
qed auto

lemma dec_exp_lower: "1 \<le> d \<Longrightarrow> pow10 (d - 1) \<le> q \<Longrightarrow> d \<le> dec_exp n d q \<and> pow10 (dec_exp n d q - 1) \<le> q"
proof (induction n arbitrary: d)
  case (Suc n)
  have "d + 1 \<le> dec_exp n (d + 1) q \<and> pow10 (dec_exp n (d + 1) q - 1) \<le> q" if "pow10 d \<le> q"
    using that Suc.prems(1) by (intro Suc.IH) auto
  with Suc.prems show ?case by fastforce
qed simp

lemma shortest_at_sound:
  assumes "shortest_at q k = Some m" "0 < q" "0 \<le> k"
  shows "0 \<le> m \<and> fl (of_int m * pow10 k) = Fin q"
proof -
  have "0 < q / pow10 k" using assms(2,3) by (simp add: pow10_def)
  then have "0 \<le> \<lfloor>q / pow10 k\<rfloor>" "0 \<le> \<lceil>q / pow10 k\<rceil>" by (simp_all add: le_floor_iff)
  with assms(1) show ?thesis by (auto simp: shortest_at_def Let_def split: if_splits)
qed

lemma shortest_whole:
  assumes "fl (of_int n) = Fin (of_int n)" "0 < n"
  shows "0 \<le> k \<Longrightarrow> k < int f \<Longrightarrow> shortest f (of_int n) k = (m, j) \<Longrightarrow>
    0 \<le> m \<and> 0 \<le> j \<and> fl (of_int m * pow10 j) = Fin (of_int n)"
proof (induction f arbitrary: k)
  case (Suc f)
  show ?case
  proof (cases "shortest_at (of_int n) k")
    case None
    have "shortest_at (of_int n) 0 = Some n"
      using assms(1) by (simp add: shortest_at_def pow10_def)
    with None have "k \<noteq> 0" by auto
    moreover have "shortest f (of_int n) (k - 1) = (m, j)" using None Suc.prems(3) by simp
    ultimately show ?thesis using Suc.prems by (intro Suc.IH[of "k - 1"]) auto
  next
    case (Some m')
    with Suc.prems assms(2) shortest_at_sound[OF Some] show ?thesis by simp
  qed
qed simp

text \<open>Every positive whole \<open>float64\<close> survives printing and parsing.\<close>

lemma parse_format_whole:
  assumes "0 < n" and ex: "representable (whole n)"
  shows "parse_float (format_float (whole n)) = Some (whole n)"
proof -
  have ex: "fl (of_int n) = Fin (of_int n)" using ex by (simp add: whole_def)
  define q :: rat where "q = of_int n"
  have q1: "1 \<le> q" using assms(1) by (simp add: q_def)
  define d where "d = dec_exp 400 1 q"
  have d: "1 \<le> d" "pow10 (d - 1) \<le> q" using dec_exp_lower[of 1 q 400] q1 by (auto simp: d_def pow10_def)
  have "q < 2 ^ 1024" using fl_below_limit[OF ex] by (simp add: q_def f64_limit_def)
  also have "(2 :: rat) ^ 1024 < 10 ^ 400" by simp
  finally have "q < 10 ^ 400" .
  have d16: "d - 1 < 500"
  proof (rule ccontr)
    assume "\<not> d - 1 < 500"
    then have "(10 :: rat) ^ 400 \<le> 10 ^ nat (d - 1)" by (intro power_increasing) auto
    also have "\<dots> \<le> q" using d by (simp add: pow10_def)
    finally show False using \<open>q < 10 ^ 400\<close> by simp
  qed
  obtain m k where mk: "shortest 500 q (d - 1) = (m, k)" by force
  then have 1: "0 \<le> m \<and> 0 \<le> k \<and> fl (of_int m * pow10 k) = Fin (of_int n)"
    using shortest_whole[OF ex assms(1), of "d - 1" 500 m k] d(1) d16 by (simp add: q_def)
  obtain m' k' where s: "strip_zeros 20 (m, k) = (m', k')" by force
  with strip_zeros_value 1 have 2: "0 \<le> m'" "0 \<le> k'" "fl (of_int m' * pow10 k') = Fin (of_int n)" by metis+
  have "format_float (whole n) = positional m' k'"
    using assms(1) mk s by (simp add: format_float_def whole_def d_def q_def)
  with parse_positional[OF 2] show ?thesis by (simp add: whole_def)
qed

end
