(* ===== verification/Timestamp.thy ===== *)
theory Timestamp
  imports Strconv
begin

text \<open>
  The timestamps of \<open>internal/store/db.go\<close>: \<open>formatTime\<close> writes an instant as fixed-width
  UTC text, \<open>parseTime\<close> reads RFC 3339 text back. Go's proleptic Gregorian calendar is written
  out, because the store compares timestamps as text: the lemmas show that this comparison is
  the chronological one and that parsing undoes formatting.
\<close>

section \<open>The calendar\<close>

definition leap :: "int \<Rightarrow> bool" where
  "leap y \<longleftrightarrow> y mod 4 = 0 \<and> (y mod 100 \<noteq> 0 \<or> y mod 400 = 0)"

definition month_lengths :: "bool \<Rightarrow> int list" where
  "month_lengths lp = [31, if lp then 29 else 28, 31, 30, 31, 30, 31, 31, 30, 31, 30, 31]"

definition days_in :: "int \<Rightarrow> int \<Rightarrow> int" where
  "days_in m y = month_lengths (leap y) ! nat (m - 1)"

text \<open>The month (from 1) and day of month (from 1) of a day of the year (from 0).\<close>

fun split_yday :: "int list \<Rightarrow> int \<Rightarrow> int \<Rightarrow> int \<times> int" where
  "split_yday [] m d = (m, d + 1)"
| "split_yday (l # ls) m d = (if d < l then (m, d + 1) else split_yday ls (m + 1) (d - l))"

text \<open>The date of a day, counted from January 1 of year 1.\<close>

definition civil_of_days :: "int \<Rightarrow> int \<times> int \<times> int" where
  "civil_of_days n =
    (let era = n div 146097; r = n mod 146097;
         c = min 3 (r div 36524); r = r - 36524 * c;
         q = r div 1461; r = r mod 1461;
         a = min 3 (r div 365); yday = r - 365 * a;
         y = 400 * era + 100 * c + 4 * q + a + 1
     in (y, split_yday (month_lengths (leap y)) 1 yday))"

definition days_before_year :: "int \<Rightarrow> int" where
  "days_before_year y = (let p = y - 1 in 365 * p + p div 4 - p div 100 + p div 400)"

definition days_before_month :: "bool \<Rightarrow> int \<Rightarrow> int" where
  "days_before_month lp m = sum_list (take (nat (m - 1)) (month_lengths lp))"

definition days_of_civil :: "int \<Rightarrow> int \<Rightarrow> int \<Rightarrow> int" where
  "days_of_civil y m d = days_before_year y + days_before_month (leap y) m + d - 1"

section \<open>Formatting and parsing\<close>

text \<open>A number padded with zeros to at least \<open>w\<close> digits.\<close>

definition pad :: "nat \<Rightarrow> int \<Rightarrow> string" where
  "pad w n = (if n < 0 then ''-'' else '''') @
     (let s = nat_str \<bar>n\<bar> in replicate (w - length s) CHR ''0'' @ s)"

definition format_time :: "time \<Rightarrow> string" where
  "format_time t =
    (let secs = t div 1000000000; ns = t mod 1000000000; sod = secs mod 86400 in
     case civil_of_days (secs div 86400) of (y, m, d) \<Rightarrow>
       pad 4 y @ ''-'' @ pad 2 m @ ''-'' @ pad 2 d @ ''T'' @ pad 2 (sod div 3600) @ '':'' @
       pad 2 (sod mod 3600 div 60) @ '':'' @ pad 2 (sod mod 60) @ ''.'' @ pad 9 ns @ ''Z'')"

text \<open>
  RFC 3339 with an optional fraction, as \<open>time.Parse(time.RFC3339Nano, s)\<close> reads it
  (\<open>parseRFC3339\<close>); digits of the fraction beyond the ninth are dropped.
\<close>

definition parse_uint :: "string \<Rightarrow> int \<Rightarrow> int \<Rightarrow> int option" where
  "parse_uint s lo hi = (if s \<noteq> [] \<and> list_all is_digit s \<and> lo \<le> digits_val s \<and> digits_val s \<le> hi
     then Some (digits_val s) else None)"

definition parse_zone :: "string \<Rightarrow> int option" where
  "parse_zone z = (if z = ''Z'' then Some 0
     else if length z \<noteq> 6 \<or> (z ! 0 \<noteq> CHR ''-'' \<and> z ! 0 \<noteq> CHR ''+'') \<or> z ! 3 \<noteq> CHR '':'' then None
     else case (parse_uint (take 2 (drop 1 z)) 0 23, parse_uint (drop 4 z) 0 59) of
       (Some h, Some m) \<Rightarrow> Some ((if z ! 0 = CHR ''-'' then - 1 else 1) * (h * 60 + m) * 60)
     | _ \<Rightarrow> None)"

definition parse_fraction :: "string \<Rightarrow> int \<times> string" where
  "parse_fraction s = (case s of
     dot # c # cs \<Rightarrow> if dot = CHR ''.'' \<and> is_digit c then
         let ds = takeWhile is_digit (c # cs); k = take 9 ds
         in (digits_val k * 10 ^ (9 - length k), drop (length ds) (c # cs))
       else (0, s)
   | _ \<Rightarrow> (0, s))"

definition parse_time :: "string \<Rightarrow> time option" where
  "parse_time s =
    (if length s < 20 then None
     else if s ! 4 \<noteq> CHR ''-'' \<or> s ! 7 \<noteq> CHR ''-'' \<or> s ! 10 \<noteq> CHR ''T'' \<or> s ! 13 \<noteq> CHR '':'' \<or> s ! 16 \<noteq> CHR '':'' then None
     else case (parse_uint (take 4 s) 0 9999, parse_uint (take 2 (drop 5 s)) 1 12) of
       (Some y, Some m) \<Rightarrow>
         (case (parse_uint (take 2 (drop 8 s)) 1 (days_in m y), parse_uint (take 2 (drop 11 s)) 0 23,
                parse_uint (take 2 (drop 14 s)) 0 59, parse_uint (take 2 (drop 17 s)) 0 59) of
            (Some d, Some h, Some mi, Some se) \<Rightarrow>
              (case parse_fraction (drop 19 s) of (ns, z) \<Rightarrow>
                 (case parse_zone z of None \<Rightarrow> None
                  | Some off \<Rightarrow> Some ((days_of_civil y m d * 86400 + h * 3600 + mi * 60 + se - off) * 1000000000 + ns)))
          | _ \<Rightarrow> None)
     | _ \<Rightarrow> None)"

section \<open>The calendar is consistent\<close>

definition valid_date :: "int \<Rightarrow> int \<Rightarrow> int \<Rightarrow> bool" where
  "valid_date y m d \<longleftrightarrow> 1 \<le> m \<and> m \<le> 12 \<and> 1 \<le> d \<and> d \<le> days_in m y"

lemma split_yday_spec:
  "0 \<le> d \<Longrightarrow> d < sum_list ls \<Longrightarrow> (\<forall>l \<in> set ls. 0 < l) \<Longrightarrow> split_yday ls k d = (m, e) \<Longrightarrow>
    k \<le> m \<and> m < k + int (length ls) \<and> 1 \<le> e \<and> e \<le> ls ! nat (m - k) \<and> d = sum_list (take (nat (m - k)) ls) + e - 1"
proof (induction ls arbitrary: k d)
  case (Cons l ls)
  show ?case
  proof (cases "d < l")
    case False
    with Cons.prems have "k + 1 \<le> m \<and> m < k + 1 + int (length ls) \<and> 1 \<le> e \<and> e \<le> ls ! nat (m - (k + 1)) \<and>
        d - l = sum_list (take (nat (m - (k + 1))) ls) + e - 1"
      by (intro Cons.IH) auto
    moreover from this have "nat (m - k) = Suc (nat (m - (k + 1)))"
      by (auto simp: Suc_nat_eq_nat_zadd1 algebra_simps)
    ultimately show ?thesis by simp
  qed (use Cons.prems in auto)
qed simp

definition year_length :: "int \<Rightarrow> int" where
  "year_length y = (if leap y then 366 else 365)"

lemma sum_month_lengths: "sum_list (month_lengths (leap y)) = year_length y"
  by (simp add: month_lengths_def year_length_def)

lemma div_pred:
  fixes y :: int
  assumes "0 < k"
  shows "y div k = (y - 1) div k + (if y mod k = 0 then 1 else 0)"
proof (cases "y mod k = 0")
  case True
  then have "y - 1 = k * (y div k - 1) + (k - 1)" using div_mult_mod_eq[of y k] by (simp add: algebra_simps)
  with assms have "(y - 1) div k = y div k - 1" by (intro int_div_pos_eq[of _ _ _ "k - 1"]) simp_all
  with True show ?thesis by simp
next
  case False
  have "y - 1 = k * (y div k) + (y mod k - 1)" using div_mult_mod_eq[of y k] by (simp add: algebra_simps)
  moreover have "0 < y mod k" using False assms pos_mod_sign[of k y] by (simp add: less_le)
  ultimately have "(y - 1) div k = y div k"
    using pos_mod_bound[OF assms, of y] assms by (intro int_div_pos_eq[of _ _ _ "y mod k - 1"]) linarith+
  with False show ?thesis by simp
qed

lemma leap_days:
  assumes "hundred \<Longrightarrow> four" "four_hundred \<Longrightarrow> hundred"
  shows "(if four \<and> (\<not> hundred \<or> four_hundred) then 366 else 365) =
    365 + (if four then 1 else 0) - (if hundred then 1 else 0) + (if four_hundred then 1 else (0 :: int))"
  using assms by (cases four; cases hundred; cases four_hundred) simp_all

lemma year_count:
  fixes y :: int
  assumes "d = d' + x" "c = c' + u" "e = e' + v"
  shows "365 * y + d - c + e = 365 * (y - 1) + d' - c' + e' + (365 + x - u + v)"
  using assms by simp

lemma days_before_next_year: "days_before_year (y + 1) = days_before_year y + year_length y"
proof -
  have "(4 :: int) dvd 100" "(100 :: int) dvd 400" by simp_all
  then have "y mod 100 = 0 \<Longrightarrow> y mod 4 = 0" "y mod 400 = 0 \<Longrightarrow> y mod 100 = 0"
    by (auto simp: mod_eq_0_iff_dvd intro: dvd_trans)
  then have l: "year_length y = 365 + (if y mod 4 = 0 then 1 else 0) - (if y mod 100 = 0 then 1 else 0)
      + (if y mod 400 = 0 then 1 else 0)"
    unfolding year_length_def leap_def by (rule leap_days)
  have "y div 4 = (y - 1) div 4 + (if y mod 4 = 0 then 1 else 0)"
    "y div 100 = (y - 1) div 100 + (if y mod 100 = 0 then 1 else 0)"
    "y div 400 = (y - 1) div 400 + (if y mod 400 = 0 then 1 else 0)" by (intro div_pred; simp)+
  then show ?thesis
    unfolding days_before_year_def Let_def l add_diff_cancel_right' by (rule year_count)
qed

lemma days_before_year_mono: "y < y' \<Longrightarrow> days_before_year y + year_length y \<le> days_before_year y'"
proof (induction "nat (y' - y)" arbitrary: y')
  case (Suc n)
  show ?case
  proof (cases "y < y' - 1")
    case True
    with Suc have "days_before_year y + year_length y \<le> days_before_year (y' - 1)" by simp
    also have "\<dots> \<le> days_before_year y'"
      using days_before_next_year[of "y' - 1"] by (simp add: year_length_def split: if_splits)
    finally show ?thesis .
  next
    case False
    with Suc.prems have "y' = y + 1" by simp
    then show ?thesis by (simp add: days_before_next_year)
  qed
qed simp

text \<open>The components of a day number: 400-year eras, centuries, four-year cycles, years.\<close>

lemma min3_div:
  fixes r k :: int
  assumes "0 \<le> r" "0 < k"
  shows "0 \<le> min 3 (r div k)" "0 \<le> r - k * min 3 (r div k)"
    "r - k * min 3 (r div k) < k \<or> min 3 (r div k) = 3"
proof -
  have d: "0 \<le> r div k" "k * (r div k) \<le> r" "r < k * (r div k) + k"
    using assms pos_mod_bound[of k r] pos_mod_sign[of k r] mult_div_mod_eq[of k r]
    by (simp add: pos_imp_zdiv_nonneg_iff, linarith+)
  show "0 \<le> min 3 (r div k)" using d by simp
  have "k * min 3 (r div k) \<le> k * (r div k)" using assms by (intro mult_left_mono) auto
  with d show "0 \<le> r - k * min 3 (r div k)" by linarith
  show "r - k * min 3 (r div k) < k \<or> min 3 (r div k) = 3"
    using d by (cases "r div k \<le> 3") (auto simp: min_def algebra_simps)
qed

lemma days_before_year_parts:
  assumes "0 \<le> c" "c \<le> 3" "0 \<le> q" "q \<le> 24" "0 \<le> a" "a \<le> 3"
  shows "days_before_year (400 * e + 100 * c + 4 * q + a + 1) = 146097 * e + 36524 * c + 1461 * q + 365 * a"
proof -
  let ?p = "400 * e + 100 * c + 4 * q + a"
  have "?p div 4 = 100 * e + 25 * c + q" using assms by (intro int_div_pos_eq[of _ _ _ a]) auto
  moreover have "?p div 100 = 4 * e + c" using assms by (intro int_div_pos_eq[of _ _ _ "4 * q + a"]) auto
  moreover have "?p div 400 = e" using assms by (intro int_div_pos_eq[of _ _ _ "100 * c + 4 * q + a"]) auto
  ultimately show ?thesis by (simp add: days_before_year_def Let_def)
qed

lemma leap_parts:
  assumes "q \<le> 23 \<or> c = 3" "0 \<le> q" "q \<le> 24"
  shows "leap (400 * e + 100 * c + 4 * q + 3 + 1)"
proof -
  let ?y = "400 * e + 100 * c + 4 * q + 3 + 1"
  have y: "?y = 4 * (100 * e + 25 * c + q + 1)" by simp
  have 4: "?y mod 4 = 0" unfolding y by simp
  show ?thesis
  proof (cases "q = 24")
    case True
    with assms have "c = 3" by simp
    then have "?y = 400 * (e + 1)" using True by simp
    then have "?y mod 400 = 0" by (simp only: mod_mult_self1_is_0)
    with 4 show ?thesis by (simp add: leap_def)
  next
    case False
    have "?y = 100 * (4 * e + c) + (4 * q + 4)" by simp
    then have "?y mod 100 = 4 * q + 4" using assms False by (simp only: mod_mult_self4) (simp add: mod_pos_pos_trivial)
    with 4 assms show ?thesis by (simp add: leap_def)
  qed
qed

lemma civil_of_days_spec:
  assumes "civil_of_days n = (y, m, d)"
  shows "valid_date y m d \<and> days_of_civil y m d = n"
proof -
  define e r where "e = n div 146097" and "r = n mod 146097"
  define c r1 where "c = min 3 (r div 36524)" and "r1 = r - 36524 * c"
  define q r2 where "q = r1 div 1461" and "r2 = r1 mod 1461"
  define a yd where "a = min 3 (r2 div 365)" and "yd = r2 - 365 * a"
  have r: "0 \<le> r" "r < 146097" by (simp_all add: r_def)
  have c: "0 \<le> c" "c \<le> 3" "0 \<le> r1" "r1 < 36524 \<or> c = 3"
    using min3_div[of r 36524] r by (simp_all add: c_def r1_def)
  then have r1: "r1 \<le> 36524" using r by (auto simp: r1_def)
  have q: "0 \<le> q" "0 \<le> r2" "r2 < 1461" "r1 = 1461 * q + r2"
    using c(3) by (simp_all add: q_def r2_def pos_imp_zdiv_nonneg_iff)
  have q24: "q \<le> 24" using q r1 by simp
  have a: "0 \<le> a" "a \<le> 3" "0 \<le> yd" "yd < 365 \<or> a = 3"
    using min3_div[of r2 365] q(2) by (simp_all add: a_def yd_def)
  have y: "y = 400 * e + 100 * c + 4 * q + a + 1" and md: "split_yday (month_lengths (leap y)) 1 yd = (m, d)"
    using assms
    unfolding civil_of_days_def Let_def e_def[symmetric] r_def[symmetric] c_def[symmetric] r1_def[symmetric]
      q_def[symmetric] r2_def[symmetric] a_def[symmetric] yd_def[symmetric] prod.inject
    by auto
  have "yd < year_length y"
  proof (cases "yd < 365")
    case False
    then have "a = 3" "yd = 365" using a q(3) by (auto simp: yd_def)
    moreover from this have "q \<le> 23 \<or> c = 3" using c q by (auto simp: yd_def)
    ultimately show ?thesis using leap_parts[of q c e] q q24 \<open>yd = 365\<close> by (simp add: year_length_def y)
  qed (simp add: year_length_def)
  then have s: "1 \<le> m \<and> m < 13 \<and> 1 \<le> d \<and> d \<le> month_lengths (leap y) ! nat (m - 1) \<and>
      yd = sum_list (take (nat (m - 1)) (month_lengths (leap y))) + d - 1"
    using split_yday_spec[OF a(3) _ _ md] sum_month_lengths[of y] by (simp add: month_lengths_def)
  have "n = 146097 * e + r" by (simp add: e_def r_def)
  then have "days_before_year y + yd = n"
    unfolding y using days_before_year_parts[OF c(1,2) q(1) q24 a(1,2)] q(4) by (simp add: r1_def yd_def)
  with s show ?thesis by (simp add: valid_date_def days_in_def days_of_civil_def days_before_month_def)
qed

section \<open>Fixed-width digits\<close>

fun digits :: "nat \<Rightarrow> int \<Rightarrow> string" where
  "digits 0 n = []"
| "digits (Suc w) n = digits w (n div 10) @ [digit_char (n mod 10)]"

lemma length_digits [simp]: "length (digits w n) = w"
  by (induction w n rule: digits.induct) simp_all

lemma digit_char_0: "digit_char 0 = CHR ''0''"
  by code_simp

lemma div10:
  fixes n :: int
  assumes "0 \<le> n" "n < 10 ^ Suc w"
  shows "0 \<le> n div 10" "n div 10 < 10 ^ w"
  using assms by (simp_all add: pos_imp_zdiv_nonneg_iff)

lemma digits_zero: "digits w 0 = replicate w CHR ''0''"
  by (induction w) (simp_all add: digit_char_0 replicate_append_same)

lemma nat_str_digit: "n < 10 \<Longrightarrow> nat_str n = [digit_char n]"
  by (simp add: nat_str.simps)

lemma nat_str_step: "10 \<le> n \<Longrightarrow> nat_str n = nat_str (n div 10) @ [digit_char (n mod 10)]"
  by (simp add: nat_str.simps[of n])

lemma pad_digits: "0 \<le> n \<Longrightarrow> n < 10 ^ Suc w \<Longrightarrow> pad (Suc w) n = digits (Suc w) n \<and> length (nat_str n) \<le> Suc w"
proof (induction w arbitrary: n)
  case 0
  then show ?case by (simp add: pad_def nat_str_digit)
next
  case (Suc w)
  show ?case
  proof (cases "n < 10")
    case True
    then show ?thesis using Suc.prems(1)
      by (simp add: pad_def nat_str_digit digits_zero)
  next
    case False
    have "pad (Suc w) (n div 10) = digits (Suc w) (n div 10) \<and> length (nat_str (n div 10)) \<le> Suc w"
      using div10[OF Suc.prems] by (rule Suc.IH)
    moreover have "0 \<le> n div 10" using div10[OF Suc.prems] by simp
    ultimately show ?thesis using False by (simp add: pad_def nat_str_step Let_def)
  qed
qed

lemma digits_digit [simp]: "0 \<le> n \<Longrightarrow> list_all is_digit (digits w n)"
  by (induction w n rule: digits.induct) (simp_all add: pos_imp_zdiv_nonneg_iff)

lemma digits_val_digits: "0 \<le> n \<Longrightarrow> n < 10 ^ w \<Longrightarrow> digits_val (digits w n) = n"
proof (induction w n rule: digits.induct)
  case (2 w n)
  then have "digits_val (digits w (n div 10)) = n div 10" using div10[of n w] by simp
  then show ?case by simp
qed simp

lemma append_less:
  fixes xs ys us vs :: string
  assumes "length xs = length ys"
  shows "xs @ us < ys @ vs \<longleftrightarrow> xs < ys \<or> xs = ys \<and> us < vs"
  using assms by (induction xs ys rule: list_induct2) auto

lemma byte_nat: "byte c = int (of_char c)"
  by (simp add: byte_def of_nat_of_char)

lemma char_less_byte: "c < d \<longleftrightarrow> byte c < byte d"
  unfolding byte_nat less_char_def by simp

lemma div_mod_less:
  fixes a b :: int
  assumes "a = 10 * qa + ra" "b = 10 * qb + rb" "0 \<le> ra" "ra < 10" "0 \<le> rb" "rb < 10"
  shows "a < b \<longleftrightarrow> qa < qb \<or> qa = qb \<and> ra < rb"
  using assms by linarith

lemma digit_char_less: "0 \<le> a \<Longrightarrow> a < 10 \<Longrightarrow> 0 \<le> b \<Longrightarrow> b < 10 \<Longrightarrow> digit_char a < digit_char b \<longleftrightarrow> a < b"
  using digit_char_props(2)[of a] digit_char_props(2)[of b] unfolding char_less_byte digit_val_def by linarith

lemma digit_char_inject: "0 \<le> a \<Longrightarrow> a < 10 \<Longrightarrow> 0 \<le> b \<Longrightarrow> b < 10 \<Longrightarrow> digit_char a = digit_char b \<longleftrightarrow> a = b"
  by (metis digit_char_props(2))

text \<open>Fixed-width decimal numbers compare as text exactly as they compare as numbers.\<close>

lemma digits_less:
  "0 \<le> a \<Longrightarrow> a < 10 ^ w \<Longrightarrow> 0 \<le> b \<Longrightarrow> b < 10 ^ w \<Longrightarrow> digits w a < digits w b \<longleftrightarrow> a < b"
proof (induction w arbitrary: a b)
  case (Suc w)
  have q: "0 \<le> a div 10" "a div 10 < 10 ^ w" "0 \<le> b div 10" "b div 10 < 10 ^ w"
    using div10 Suc.prems by blast+
  have e: "digits w (a div 10) = digits w (b div 10) \<longleftrightarrow> a div 10 = b div 10"
    using digits_val_digits[of "a div 10" w] digits_val_digits[of "b div 10" w] q by metis
  have "a < b \<longleftrightarrow> a div 10 < b div 10 \<or> a div 10 = b div 10 \<and> a mod 10 < b mod 10"
    by (intro div_mod_less) simp_all
  then show ?case by (simp add: append_less Suc.IH[OF q] e digit_char_less)
qed simp

lemma digits_inject:
  "0 \<le> a \<Longrightarrow> a < 10 ^ w \<Longrightarrow> 0 \<le> b \<Longrightarrow> b < 10 ^ w \<Longrightarrow> digits w a = digits w b \<longleftrightarrow> a = b"
  by (metis digits_val_digits)

section \<open>Formatting\<close>

text \<open>The seven fields of an instant in the years 1 to 9999.\<close>

definition time_in_range :: "time \<Rightarrow> bool" where
  "time_in_range t \<longleftrightarrow> 0 \<le> t \<and> t < days_before_year 10000 * 86400 * 1000000000"

record fields =
  f_year :: int
  f_month :: int
  f_day :: int
  f_hour :: int
  f_minute :: int
  f_second :: int
  f_nano :: int

definition fields_of :: "time \<Rightarrow> fields" where
  "fields_of t = (let secs = t div 1000000000; sod = secs mod 86400 in
     case civil_of_days (secs div 86400) of (y, m, d) \<Rightarrow>
     \<lparr>f_year = y, f_month = m, f_day = d, f_hour = sod div 3600, f_minute = sod mod 3600 div 60,
      f_second = sod mod 60, f_nano = t mod 1000000000\<rparr>)"

definition fields_ok :: "fields \<Rightarrow> bool" where
  "fields_ok f \<longleftrightarrow> 1 \<le> f_year f \<and> f_year f \<le> 9999 \<and> valid_date (f_year f) (f_month f) (f_day f) \<and>
     0 \<le> f_hour f \<and> f_hour f \<le> 23 \<and> 0 \<le> f_minute f \<and> f_minute f \<le> 59 \<and>
     0 \<le> f_second f \<and> f_second f \<le> 59 \<and> 0 \<le> f_nano f \<and> f_nano f < 1000000000"

definition instant :: "fields \<Rightarrow> time" where
  "instant f = (days_of_civil (f_year f) (f_month f) (f_day f) * 86400 + f_hour f * 3600 + f_minute f * 60
     + f_second f) * 1000000000 + f_nano f"

definition render :: "fields \<Rightarrow> string" where
  "render f = digits 4 (f_year f) @ ''-'' @ digits 2 (f_month f) @ ''-'' @ digits 2 (f_day f) @ ''T'' @
     digits 2 (f_hour f) @ '':'' @ digits 2 (f_minute f) @ '':'' @ digits 2 (f_second f) @ ''.'' @
     digits 9 (f_nano f) @ ''Z''"

lemma split_time:
  fixes t :: int
  shows "t = (((t div 1000000000) div 86400) * 86400 + (t div 1000000000 mod 86400) div 3600 * 3600 +
    (t div 1000000000 mod 86400) mod 3600 div 60 * 60 + (t div 1000000000 mod 86400) mod 60) * 1000000000 + t mod 1000000000"
proof -
  define s where "s = t div 1000000000"
  define r where "r = s mod 86400"
  have "r = r div 3600 * 3600 + r mod 3600" by simp
  moreover have "r mod 3600 = r mod 3600 div 60 * 60 + r mod 3600 mod 60" by simp
  moreover have "r mod 3600 mod 60 = r mod 60" by (simp add: mod_mod_cancel)
  moreover have "s = s div 86400 * 86400 + r" by (simp add: r_def)
  moreover have "t = s * 1000000000 + t mod 1000000000" by (simp add: s_def)
  ultimately have "t = (s div 86400 * 86400 + r div 3600 * 3600 + r mod 3600 div 60 * 60 + r mod 60) * 1000000000
      + t mod 1000000000" by algebra
  then show ?thesis by (simp only: r_def s_def)
qed

lemma div_less_times:
  fixes n m k :: int
  assumes "0 < k"
  shows "n div k < m \<longleftrightarrow> n < m * k"
proof
  assume "n div k < m"
  then have "(n div k + 1) * k \<le> m * k" using assms by (intro mult_right_mono) auto
  moreover have "n < (n div k + 1) * k"
    using pos_mod_bound[OF assms, of n] div_mult_mod_eq[of n k] unfolding distrib_right mult_1_left by linarith
  ultimately show "n < m * k" by simp
next
  assume "n < m * k"
  moreover have "n div k * k \<le> n" using pos_mod_sign[OF assms, of n] div_mult_mod_eq[of n k] by linarith
  ultimately have "n div k * k < m * k" by linarith
  then show "n div k < m" using assms by (simp add: mult_less_cancel_right)
qed

lemma days_before_year_1: "days_before_year 1 = 0"
  by (simp add: days_before_year_def)

lemma month_cases:
  "1 \<le> m \<Longrightarrow> m \<le> 12 \<Longrightarrow>
    m = 1 \<or> m = 2 \<or> m = 3 \<or> m = 4 \<or> m = 5 \<or> m = 6 \<or> m = 7 \<or> m = 8 \<or> m = 9 \<or> m = 10 \<or> m = 11 \<or> m = (12 :: int)"
  by presburger

lemma days_in_before:
  assumes "1 \<le> m" "m \<le> 12"
  shows "0 \<le> days_before_month (leap y) m" "days_before_month (leap y) m + days_in m y \<le> year_length y"
    "days_in m y \<le> 31"
  using month_cases[OF assms]
  by (auto simp: days_before_month_def month_lengths_def days_in_def year_length_def)

lemma days_before_next_month:
  assumes "1 \<le> m" "m < m'" "m' \<le> 12"
  shows "days_before_month (leap y) m + days_in m y \<le> days_before_month (leap y) m'"
proof -
  let ?L = "month_lengths (leap y)"
  have "nat m < 13" "nat m = Suc (nat (m - 1))" using assms by auto
  moreover have "length ?L = 12" by (simp add: month_lengths_def)
  ultimately have "take (nat m) ?L = take (nat (m - 1)) ?L @ [?L ! nat (m - 1)]"
    by (simp add: take_Suc_conv_app_nth)
  then have "days_before_month (leap y) m + days_in m y = sum_list (take (nat m) ?L)"
    by (simp add: days_before_month_def days_in_def)
  also have "\<dots> \<le> sum_list (take (nat m) ?L) + sum_list (drop (nat m) (take (nat (m' - 1)) ?L))"
    by (simp, intro sum_list_nonneg) (auto simp: month_lengths_def dest!: in_set_dropD in_set_takeD split: if_splits)
  also have "\<dots> = sum_list (take (nat (m' - 1)) ?L)"
    using assms by (simp flip: sum_list_append) (metis append_take_drop_id min.absorb1 nat_mono take_take zle_diff1_eq)
  finally show ?thesis by (simp add: days_before_month_def)
qed

lemma valid_day_count: "valid_date y m d \<Longrightarrow>
    days_before_year y \<le> days_of_civil y m d \<and> days_of_civil y m d < days_before_year y + year_length y"
  using days_in_before[of m y] by (auto simp: valid_date_def days_of_civil_def)

lemma instant_fields: "instant (fields_of t) = t"
proof -
  obtain y m d where c: "civil_of_days (t div 1000000000 div 86400) = (y, m, d)" by (metis prod_cases3)
  then have d: "days_of_civil y m d = t div 1000000000 div 86400" using civil_of_days_spec by blast
  show ?thesis
    unfolding instant_def fields_of_def Let_def c prod.case fields.select_convs d by (rule split_time[symmetric])
qed

lemma day_fields_ok:
  fixes r :: int
  assumes "0 \<le> r" "r < 86400"
  shows "0 \<le> r div 3600 \<and> r div 3600 \<le> 23 \<and> 0 \<le> r mod 3600 div 60 \<and> r mod 3600 div 60 \<le> 59 \<and>
    0 \<le> r mod 60 \<and> r mod 60 \<le> 59"
proof -
  have "r div 3600 < 24" using assms by (simp add: div_less_times)
  moreover have "r mod 3600 div 60 < 60" by (simp add: div_less_times)
  moreover have "r mod 60 < 60" by simp
  ultimately show ?thesis using assms by (simp add: pos_imp_zdiv_nonneg_iff)
qed

lemma fields_of_ok:
  assumes "time_in_range t"
  shows "fields_ok (fields_of t)"
proof -
  define n where "n = t div 1000000000 div 86400"
  obtain y m d where c: "civil_of_days n = (y, m, d)" by (metis prod_cases3)
  have v: "valid_date y m d" "days_of_civil y m d = n" using civil_of_days_spec[OF c] by auto
  have "0 \<le> n" "n < days_before_year 10000"
    using assms unfolding n_def time_in_range_def
    by (simp_all only: pos_imp_zdiv_nonneg_iff zero_less_numeral div_less_times)
  then have "\<not> y < 1" "\<not> 9999 < y"
    using valid_day_count[OF v(1)] days_before_year_mono[of y 1] days_before_year_mono[of 9999 y]
      days_before_next_year[of 9999] v(2) by (auto simp: days_before_year_1)
  then show ?thesis
    using v(1) day_fields_ok[of "t div 1000000000 mod 86400"]
    by (simp add: fields_ok_def fields_of_def Let_def c flip: n_def)
qed

section \<open>Text order is chronological order\<close>

lemma radix_less:
  fixes a b r s k :: int
  assumes "0 \<le> r" "r < k" "0 \<le> s" "s < k"
  shows "a * k + r < b * k + s \<longleftrightarrow> a < b \<or> a = b \<and> r < s"
proof -
  have lt: "x * k + u < y * k + v" if "x < y" "u < k" "0 \<le> v" for x y u v :: int
  proof -
    have "(x + 1) * k \<le> y * k" using that assms by (intro mult_right_mono) auto
    with that show ?thesis unfolding distrib_right mult_1_left by linarith
  qed
  show ?thesis using lt[of a b r s] lt[of b a s r] assms by (cases a b rule: linorder_cases) auto
qed

lemma date_less:
  assumes "valid_date y m d" "valid_date y' m' d'"
  shows "days_of_civil y m d < days_of_civil y' m' d' \<longleftrightarrow> y < y' \<or> y = y' \<and> (m < m' \<or> m = m' \<and> d < d')"
proof -
  have yr: "days_of_civil a b c < days_of_civil a' b' c'" if "a < a'" "valid_date a b c" "valid_date a' b' c'" for a b c a' b' c'
    using days_before_year_mono[OF that(1)] valid_day_count[OF that(2)] valid_day_count[OF that(3)] by linarith
  have mo: "days_of_civil a b c < days_of_civil a b' c'" if "b < b'" "valid_date a b c" "valid_date a b' c'" for a b c b' c'
    using days_before_next_month[of b b' a] that by (auto simp: valid_date_def days_of_civil_def)
  show ?thesis
  proof (cases y y' rule: linorder_cases)
    case equal
    then show ?thesis
    proof (cases m m' rule: linorder_cases)
      case greater
      then show ?thesis using mo[of m' m y' d' d] assms equal by simp
    qed (use mo[of m m' y d d'] assms equal in \<open>auto simp: days_of_civil_def\<close>)
  next
    case greater
    then show ?thesis using yr[of y' y m' d' m d] assms by simp
  qed (use yr[of y y' m d m' d'] assms in auto)
qed

lemma instant_nested: "instant f = ((((days_of_civil (f_year f) (f_month f) (f_day f)) * 24 + f_hour f) * 60
    + f_minute f) * 60 + f_second f) * 1000000000 + f_nano f"
  by (simp add: instant_def)

lemma instant_less:
  assumes "fields_ok f" "fields_ok g"
  shows "instant f < instant g \<longleftrightarrow>
    f_year f < f_year g \<or> f_year f = f_year g \<and> (f_month f < f_month g \<or> f_month f = f_month g \<and>
    (f_day f < f_day g \<or> f_day f = f_day g \<and> (f_hour f < f_hour g \<or> f_hour f = f_hour g \<and>
    (f_minute f < f_minute g \<or> f_minute f = f_minute g \<and> (f_second f < f_second g \<or> f_second f = f_second g \<and>
     f_nano f < f_nano g)))))"
proof -
  let ?D = "\<lambda>f. days_of_civil (f_year f) (f_month f) (f_day f)"
  have v: "valid_date (f_year f) (f_month f) (f_day f)" "valid_date (f_year g) (f_month g) (f_day g)"
    using assms by (simp_all add: fields_ok_def)
  have b: "0 \<le> f_hour f" "f_hour f < 24" "0 \<le> f_minute f" "f_minute f < 60" "0 \<le> f_second f" "f_second f < 60"
      "0 \<le> f_nano f" "f_nano f < 1000000000"
      "0 \<le> f_hour g" "f_hour g < 24" "0 \<le> f_minute g" "f_minute g < 60" "0 \<le> f_second g" "f_second g < 60"
      "0 \<le> f_nano g" "f_nano g < 1000000000"
    using assms by (simp_all add: fields_ok_def)
  have eq: "a * k + r = b * k + s \<longleftrightarrow> a = b \<and> r = s" if "0 \<le> r" "r < k" "0 \<le> s" "s < k" for a b k r s :: int
    using radix_less[OF that, of a b] radix_less[OF that(3,4) that(1,2), of b a] by (auto simp: not_less_iff_gr_or_eq)
  have "?D f = ?D g \<longleftrightarrow> f_year f = f_year g \<and> f_month f = f_month g \<and> f_day f = f_day g"
    using date_less[OF v] date_less[OF v(2,1)] by (metis less_irrefl not_less_iff_gr_or_eq)
  then show ?thesis
    unfolding instant_nested using b by (simp only: radix_less eq date_less[OF v]) blast
qed

lemma render_less:
  assumes "fields_ok f" "fields_ok g"
  shows "render f < render g \<longleftrightarrow> instant f < instant g"
proof -
  have d: "1 \<le> f_month f" "f_month f \<le> 12" "1 \<le> f_day f" "f_day f \<le> 31"
    "1 \<le> f_month g" "f_month g \<le> 12" "1 \<le> f_day g" "f_day g \<le> 31"
    using assms days_in_before(3)[of "f_month f" "f_year f"] days_in_before(3)[of "f_month g" "f_year g"]
    by (auto simp: fields_ok_def valid_date_def)
  show ?thesis
    unfolding instant_less[OF assms] render_def
    using assms d by (simp add: append_less digits_less digits_inject fields_ok_def)
qed

lemma pad_fixed:
  "0 \<le> n \<Longrightarrow> n < 100 \<Longrightarrow> pad 2 n = digits 2 n" "0 \<le> n \<Longrightarrow> n < 10000 \<Longrightarrow> pad 4 n = digits 4 n"
  "0 \<le> n \<Longrightarrow> n < 1000000000 \<Longrightarrow> pad 9 n = digits 9 n"
  using pad_digits[of n 1] pad_digits[of n 3] pad_digits[of n 8] by (simp_all del: digits.simps add: numeral_2_eq_2)

lemma pad_fields:
  assumes "fields_ok (fields_of t)"
  shows "format_time t = render (fields_of t)"
proof -
  define f where "f = fields_of t"
  obtain y m d where c: "civil_of_days (t div 1000000000 div 86400) = (y, m, d)" by (metis prod_cases3)
  have "format_time t = pad 4 (f_year f) @ ''-'' @ pad 2 (f_month f) @ ''-'' @ pad 2 (f_day f) @ ''T'' @
     pad 2 (f_hour f) @ '':'' @ pad 2 (f_minute f) @ '':'' @ pad 2 (f_second f) @ ''.'' @ pad 9 (f_nano f) @ ''Z''"
    unfolding f_def fields_of_def format_time_def Let_def c prod.case fields.select_convs ..
  moreover have "1 \<le> f_month f" "f_month f \<le> 12" "1 \<le> f_day f" "f_day f \<le> 31"
    using assms days_in_before(3)[of "f_month f" "f_year f"] by (auto simp: fields_ok_def valid_date_def f_def)
  ultimately show ?thesis using assms by (simp add: pad_fixed render_def fields_ok_def flip: f_def)
qed

section \<open>Parsing undoes formatting\<close>

lemma parse_uint_digits:
  "0 < w \<Longrightarrow> 0 \<le> n \<Longrightarrow> n < 10 ^ w \<Longrightarrow> lo \<le> n \<Longrightarrow> n \<le> hi \<Longrightarrow> parse_uint (digits w n) lo hi = Some n"
  by (cases w) (auto simp: parse_uint_def digits_val_digits simp del: digits.simps, simp)

lemma parse_fraction_nanos:
  assumes "0 \<le> n" "n < 1000000000"
  shows "parse_fraction (CHR ''.'' # digits 9 n @ ''Z'') = (n, ''Z'')"
proof -
  obtain c cs where cc: "digits 9 n = c # cs" by (metis length_digits length_0_conv neq_Nil_conv zero_neq_numeral)
  have l: "list_all is_digit (digits 9 n)" using assms by simp
  then have "is_digit c" using cc by simp
  moreover have "\<not> is_digit CHR ''Z''" by (simp add: is_digit_def byte_def)
  then have "takeWhile is_digit (digits 9 n @ ''Z'') = digits 9 n"
    using l by (simp add: list_all_iff takeWhile_append2)
  moreover have "take 9 (digits 9 n) = digits 9 n" "drop 9 (digits 9 n @ ''Z'') = ''Z''" by (simp_all del: digits.simps)
  ultimately show ?thesis
    using digits_val_digits[of n 9] assms length_digits[of 9 n] cc by (simp add: parse_fraction_def Let_def)
qed

lemma parse_render:
  assumes "fields_ok f"
  shows "parse_time (render f) = Some (instant f)"
proof -
  have d: "1 \<le> f_month f" "f_month f \<le> 12" "1 \<le> f_day f" "f_day f \<le> 31" "f_day f \<le> days_in (f_month f) (f_year f)"
    using assms days_in_before(3)[of "f_month f" "f_year f"] by (auto simp: fields_ok_def valid_date_def)
  let ?s = "render f"
  have n: "?s ! 4 = CHR ''-''" "?s ! 7 = CHR ''-''" "?s ! 10 = CHR ''T''" "?s ! 13 = CHR '':''" "?s ! 16 = CHR '':''"
    "length ?s = 30"
    by (simp_all add: render_def nth_append del: digits.simps)
  have t: "take 4 ?s = digits 4 (f_year f)" "take 2 (drop 5 ?s) = digits 2 (f_month f)"
    "take 2 (drop 8 ?s) = digits 2 (f_day f)" "take 2 (drop 11 ?s) = digits 2 (f_hour f)"
    "take 2 (drop 14 ?s) = digits 2 (f_minute f)" "take 2 (drop 17 ?s) = digits 2 (f_second f)"
    "drop 19 ?s = CHR ''.'' # digits 9 (f_nano f) @ ''Z''"
    by (simp_all add: render_def del: digits.simps)
  have p: "parse_uint (digits 4 (f_year f)) 0 9999 = Some (f_year f)"
    "parse_uint (digits 2 (f_month f)) 1 12 = Some (f_month f)"
    "parse_uint (digits 2 (f_day f)) 1 (days_in (f_month f) (f_year f)) = Some (f_day f)"
    "parse_uint (digits 2 (f_hour f)) 0 23 = Some (f_hour f)"
    "parse_uint (digits 2 (f_minute f)) 0 59 = Some (f_minute f)"
    "parse_uint (digits 2 (f_second f)) 0 59 = Some (f_second f)"
    using assms d by (intro parse_uint_digits; simp add: fields_ok_def)+
  have f: "parse_fraction (CHR ''.'' # digits 9 (f_nano f) @ ''Z'') = (f_nano f, ''Z'')"
    using assms by (intro parse_fraction_nanos) (simp_all add: fields_ok_def)
  show ?thesis
    unfolding parse_time_def by (simp add: n t p f parse_zone_def instant_def)
qed

lemma time_text_less:
  assumes "time_in_range t" "time_in_range u"
  shows "format_time t < format_time u \<longleftrightarrow> t < u"
  using render_less[OF fields_of_ok[OF assms(1)] fields_of_ok[OF assms(2)]] assms
  by (simp add: pad_fields fields_of_ok instant_fields)

lemma time_text_parse: "time_in_range t \<Longrightarrow> parse_time (format_time t) = Some t"
  by (simp add: pad_fields fields_of_ok parse_render instant_fields)

text \<open>C37. Timestamps compare as text exactly as they compare in time, for all instants of the years
  1 to 9999: the range and order queries of the store, which compare text, are chronological.\<close>

theorem format_time_order:
  assumes "time_in_range t" "time_in_range u"
  shows "format_time t < format_time u \<longleftrightarrow> t < u"
  using assms by (rule time_text_less)

text \<open>C38. Parsing a formatted timestamp gives back the instant, to the nanosecond.\<close>

theorem parse_format_time:
  assumes "time_in_range t"
  shows "parse_time (format_time t) = Some t"
  using assms by (rule time_text_parse)

theorem format_time_order_witness:
  "format_time 62135596799999999999 < format_time 62135596800000000000"
  using format_time_order[of 62135596799999999999 62135596800000000000]
  by (simp add: time_in_range_def days_before_year_def)

theorem parse_format_time_witness: "parse_time (format_time 63891234567000000089) = Some 63891234567000000089"
  using parse_format_time[of 63891234567000000089] by (simp add: time_in_range_def days_before_year_def)

end
