(* ===== verification/Store.thy ===== *)
theory Store
  imports Timestamp Config "HOL-Library.Product_Lexorder"
begin

text \<open>
  \<open>internal/store\<close>: the SQLite persistence layer. A table is the list of its rows in insertion
  order with the next AUTOINCREMENT id; each SQL statement of the source is written as the
  list operation it denotes, timestamps being the text \<open>formatTime\<close> writes. The SQL driver is
  third-party code: whether its n-th statement succeeds, how it renders the text of a
  TIMESTAMP column, and the wall clock are the parameters of a \<open>driver\<close> record.
\<close>

section \<open>Data\<close>

text \<open>
  A struct and its table row differ in the type of the timestamp (\<open>Time\<close> or text), of the
  charging flag (boolean or 0/1) and of nullable columns, which are type parameters.
\<close>

record 'ts event =
  ev_id :: int
  ev_ts :: 'ts
  ev_type :: string
  ev_from :: string
  ev_to :: string
  ev_action :: string
  ev_surplus :: f64
  ev_grid :: f64
  ev_pv :: f64
  ev_battery_soc :: int
  ev_battery :: f64
  ev_vehicle_soc :: int
  ev_charge :: f64
  ev_detail :: string

record ('ts, 'flag) sample =
  sm_id :: int
  sm_ts :: 'ts
  sm_grid :: f64
  sm_pv :: f64
  sm_home :: f64
  sm_battery_soc :: int
  sm_battery :: f64
  sm_charge :: f64
  sm_vehicle_soc :: int
  sm_charging :: 'flag
  sm_mode :: string
  sm_surplus :: f64
  sm_state :: string

record ('ts, 'stop) session =
  se_id :: int
  se_started_at :: 'ts
  se_ended_at :: "'ts option"
  se_start_reason :: string
  se_stop_reason :: 'stop
  se_start_soc :: "int option"
  se_end_soc :: "int option"
  se_energy :: f64
  se_avg :: f64
  se_peak :: f64

type_synonym event_row = "string event"
type_synonym sample_row = "(string, int) sample"
type_synonym session_row = "(string, string option) session"

record db =
  db_events :: "event_row list"
  db_next_event :: int
  db_samples :: "sample_row list"
  db_next_sample :: int
  db_sessions :: "session_row list"
  db_next_session :: int
  db_settings :: "string \<rightharpoonup> string \<times> string"
  db_calls :: nat

text \<open>The database after the migrations.\<close>

definition empty_db :: db where
  "empty_db = \<lparr>db_events = [], db_next_event = 1, db_samples = [], db_next_sample = 1,
     db_sessions = [], db_next_session = 1, db_settings = Map.empty, db_calls = 0\<rparr>"

section \<open>The driver\<close>

text \<open>
  \<open>SqlFail\<close>: the statement fails and changes nothing. \<open>SqlMetaFail\<close>: it takes effect, but
  reading its insert id, row count or the end of its result set reports an error.
\<close>

datatype sql_outcome = SqlOk | SqlFail | SqlMetaFail

record driver =
  drv_outcome :: "nat \<Rightarrow> sql_outcome"
  drv_text :: "string \<Rightarrow> string"
  drv_now :: "nat \<Rightarrow> time"

definition outcome :: "driver \<Rightarrow> db \<Rightarrow> sql_outcome" where
  "outcome drv d = drv_outcome drv (db_calls d)"

definition called :: "db \<Rightarrow> db" where
  "called d = d\<lparr>db_calls := Suc (db_calls d)\<rparr>"

text \<open>Reading a timestamp column back.\<close>

definition scan_time :: "driver \<Rightarrow> string \<Rightarrow> time option" where
  "scan_time drv s = parse_time (drv_text drv s)"

text \<open>SQLite's \<open>LIMIT\<close>: negative means unlimited.\<close>

definition limit_rows :: "int \<Rightarrow> 'a list \<Rightarrow> 'a list" where
  "limit_rows n rows = (if n < 0 then rows else take (nat n) rows)"

text \<open>Scanning rows one by one, stopping at the first that fails.\<close>

fun scan_rows :: "('r \<Rightarrow> 'a option) \<Rightarrow> 'r list \<Rightarrow> 'a list option" where
  "scan_rows scan [] = Some []"
| "scan_rows scan (r # rs) = (case scan r of None \<Rightarrow> None
     | Some a \<Rightarrow> map_option (Cons a) (scan_rows scan rs))"

section \<open>Events\<close>

definition insert_event :: "driver \<Rightarrow> time event \<Rightarrow> db \<Rightarrow> db \<times> status" where
  "insert_event drv e d =
    (if outcome drv d = SqlFail then (called d, Some (Wrapped ''insert event'' ErrDriver))
     else ((called d)\<lparr>
       db_events := db_events d @ [\<lparr>ev_id = db_next_event d, ev_ts = format_time (ev_ts e), ev_type = ev_type e,
         ev_from = ev_from e, ev_to = ev_to e, ev_action = ev_action e, ev_surplus = ev_surplus e,
         ev_grid = ev_grid e, ev_pv = ev_pv e, ev_battery_soc = ev_battery_soc e, ev_battery = ev_battery e,
         ev_vehicle_soc = ev_vehicle_soc e, ev_charge = ev_charge e, ev_detail = ev_detail e\<rparr>],
       db_next_event := db_next_event d + 1\<rparr>, None))"

definition prune_events :: "driver \<Rightarrow> time \<Rightarrow> db \<Rightarrow> db \<times> (error + int)" where
  "prune_events drv before d =
    (if outcome drv d = SqlFail then (called d, Inl (Wrapped ''prune events'' ErrDriver))
     else let old = (\<lambda>r. ev_ts r < format_time before) in
       ((called d)\<lparr>db_events := filter (\<lambda>r. \<not> old r) (db_events d)\<rparr>,
        if outcome drv d = SqlMetaFail then Inl (Wrapped ''prune events: rows affected'' ErrDriver)
        else Inr (int (length (filter old (db_events d))))))"

definition scan_event :: "driver \<Rightarrow> event_row \<Rightarrow> time event option" where
  "scan_event drv r = map_option (\<lambda>t. \<lparr>ev_id = ev_id r, ev_ts = t, ev_type = ev_type r,
     ev_from = ev_from r, ev_to = ev_to r, ev_action = ev_action r, ev_surplus = ev_surplus r,
     ev_grid = ev_grid r, ev_pv = ev_pv r, ev_battery_soc = ev_battery_soc r, ev_battery = ev_battery r,
     ev_vehicle_soc = ev_vehicle_soc r, ev_charge = ev_charge r, ev_detail = ev_detail r\<rparr>)
     (scan_time drv (ev_ts r))"

definition recent_events :: "driver \<Rightarrow> int \<Rightarrow> db \<Rightarrow> db \<times> (error + time event list)" where
  "recent_events drv limit d = (called d,
    if outcome drv d = SqlFail then Inl (Wrapped ''recent events'' ErrDriver)
    else case scan_rows (scan_event drv)
        (limit_rows limit (rev (sort_key (\<lambda>r. (ev_ts r, ev_id r)) (db_events d)))) of
      None \<Rightarrow> Inl (Wrapped ''recent events'' ErrTimeSyntax)
    | Some out \<Rightarrow> if outcome drv d = SqlMetaFail then Inl (Wrapped ''recent events: iterate'' ErrDriver) else Inr out)"

section \<open>Samples\<close>

definition max_history_rows :: int where "max_history_rows = 50000"

definition bool_to_int :: "bool \<Rightarrow> int" where "bool_to_int b = (if b then 1 else 0)"

definition insert_sample :: "driver \<Rightarrow> (time, bool) sample \<Rightarrow> db \<Rightarrow> db \<times> status" where
  "insert_sample drv s d =
    (if outcome drv d = SqlFail then (called d, Some (Wrapped ''insert sample'' ErrDriver))
     else ((called d)\<lparr>
       db_samples := db_samples d @ [\<lparr>sm_id = db_next_sample d, sm_ts = format_time (sm_ts s), sm_grid = sm_grid s,
         sm_pv = sm_pv s, sm_home = sm_home s, sm_battery_soc = sm_battery_soc s, sm_battery = sm_battery s,
         sm_charge = sm_charge s, sm_vehicle_soc = sm_vehicle_soc s, sm_charging = bool_to_int (sm_charging s),
         sm_mode = sm_mode s, sm_surplus = sm_surplus s, sm_state = sm_state s\<rparr>],
       db_next_sample := db_next_sample d + 1\<rparr>, None))"

definition scan_sample :: "driver \<Rightarrow> sample_row \<Rightarrow> (time, bool) sample option" where
  "scan_sample drv r = map_option (\<lambda>t. \<lparr>sm_id = sm_id r, sm_ts = t, sm_grid = sm_grid r,
     sm_pv = sm_pv r, sm_home = sm_home r, sm_battery_soc = sm_battery_soc r, sm_battery = sm_battery r,
     sm_charge = sm_charge r, sm_vehicle_soc = sm_vehicle_soc r, sm_charging = (sm_charging r \<noteq> 0),
     sm_mode = sm_mode r, sm_surplus = sm_surplus r, sm_state = sm_state r\<rparr>) (scan_time drv (sm_ts r))"

definition samples_between :: "driver \<Rightarrow> time \<Rightarrow> time \<Rightarrow> db \<Rightarrow> db \<times> (error + (time, bool) sample list)" where
  "samples_between drv from_t to_t d = (called d,
    if outcome drv d = SqlFail then Inl (Wrapped ''samples'' ErrDriver)
    else case scan_rows (scan_sample drv)
        (limit_rows max_history_rows (sort_key (\<lambda>r. (sm_ts r, sm_id r))
          (filter (\<lambda>r. format_time from_t \<le> sm_ts r \<and> sm_ts r \<le> format_time to_t) (db_samples d)))) of
      None \<Rightarrow> Inl (Wrapped ''samples'' ErrTimeSyntax)
    | Some out \<Rightarrow> if outcome drv d = SqlMetaFail then Inl (Wrapped ''samples: iterate'' ErrDriver) else Inr out)"

definition prune_samples :: "driver \<Rightarrow> time \<Rightarrow> db \<Rightarrow> db \<times> (error + int)" where
  "prune_samples drv before d =
    (if outcome drv d = SqlFail then (called d, Inl (Wrapped ''prune samples'' ErrDriver))
     else let old = (\<lambda>r. sm_ts r < format_time before) in
       ((called d)\<lparr>db_samples := filter (\<lambda>r. \<not> old r) (db_samples d)\<rparr>,
        if outcome drv d = SqlMetaFail then Inl (Wrapped ''prune samples: rows affected'' ErrDriver)
        else Inr (int (length (filter old (db_samples d))))))"

section \<open>Sessions\<close>

definition start_session :: "driver \<Rightarrow> time \<Rightarrow> string \<Rightarrow> int option \<Rightarrow> db \<Rightarrow> db \<times> (error + int)" where
  "start_session drv started reason soc d =
    (if outcome drv d = SqlFail then (called d, Inl (Wrapped ''start session'' ErrDriver))
     else ((called d)\<lparr>
       db_sessions := db_sessions d @ [\<lparr>se_id = db_next_session d, se_started_at = format_time started,
         se_ended_at = None, se_start_reason = reason, se_stop_reason = None, se_start_soc = soc,
         se_end_soc = None, se_energy = 0, se_avg = 0, se_peak = 0\<rparr>],
       db_next_session := db_next_session d + 1\<rparr>,
       if outcome drv d = SqlMetaFail then Inl (Wrapped ''start session: read insert id'' ErrDriver)
       else Inr (db_next_session d)))"

text \<open>An \<open>UPDATE\<close> of the rows that match: the new table and the number of rows affected.\<close>

definition update_rows :: "('r \<Rightarrow> bool) \<Rightarrow> ('r \<Rightarrow> 'r) \<Rightarrow> 'r list \<Rightarrow> 'r list \<times> int" where
  "update_rows p f rows = (map (\<lambda>r. if p r then f r else r) rows, int (length (filter p rows)))"

definition update_session_metrics :: "driver \<Rightarrow> int \<Rightarrow> f64 \<Rightarrow> f64 \<Rightarrow> f64 \<Rightarrow> db \<Rightarrow> db \<times> status" where
  "update_session_metrics drv i energy avg peak d =
    (if outcome drv d = SqlFail then (called d, Some (Wrapped ''update session metrics'' ErrDriver))
     else case update_rows (\<lambda>r. se_id r = i \<and> se_ended_at r = None)
         (\<lambda>r. r\<lparr>se_energy := energy, se_avg := avg, se_peak := peak\<rparr>) (db_sessions d) of
       (rows, n) \<Rightarrow> ((called d)\<lparr>db_sessions := rows\<rparr>,
         if outcome drv d = SqlMetaFail then Some (Wrapped ''update session metrics: rows affected'' ErrDriver)
         else if n = 0 then Some (Wrapped ''update session metrics'' ErrNoRows) else None))"

definition end_session ::
    "driver \<Rightarrow> int \<Rightarrow> time \<Rightarrow> string \<Rightarrow> int option \<Rightarrow> f64 \<Rightarrow> f64 \<Rightarrow> f64 \<Rightarrow> db \<Rightarrow> db \<times> status" where
  "end_session drv i ended reason soc energy avg peak d =
    (if outcome drv d = SqlFail then (called d, Some (Wrapped ''end session'' ErrDriver))
     else case update_rows (\<lambda>r. se_id r = i)
         (\<lambda>r. r\<lparr>se_ended_at := Some (format_time ended), se_stop_reason := Some reason, se_end_soc := soc,
               se_energy := energy, se_avg := avg, se_peak := peak\<rparr>) (db_sessions d) of
       (rows, n) \<Rightarrow> ((called d)\<lparr>db_sessions := rows\<rparr>,
         if outcome drv d = SqlMetaFail then Some (Wrapped ''end session: rows affected'' ErrDriver)
         else if n = 0 then Some (Wrapped ''end session'' ErrNoRows) else None))"

definition scan_session :: "driver \<Rightarrow> session_row \<Rightarrow> (time, string) session option" where
  "scan_session drv r =
    (case scan_time drv (se_started_at r) of None \<Rightarrow> None
     | Some t \<Rightarrow>
        let build = (\<lambda>et. \<lparr>se_id = se_id r, se_started_at = t, se_ended_at = et, se_start_reason = se_start_reason r,
          se_stop_reason = (case se_stop_reason r of None \<Rightarrow> '''' | Some s \<Rightarrow> s), se_start_soc = se_start_soc r,
          se_end_soc = se_end_soc r, se_energy = se_energy r, se_avg = se_avg r, se_peak = se_peak r\<rparr>)
        in (case se_ended_at r of None \<Rightarrow> Some (build None)
           | Some e \<Rightarrow> (case scan_time drv e of None \<Rightarrow> None | Some et \<Rightarrow> Some (build (Some et)))))"

text \<open>\<open>ORDER BY started_at DESC, id DESC\<close>.\<close>

definition newest_first :: "session_row list \<Rightarrow> session_row list" where
  "newest_first rows = rev (sort_key (\<lambda>r. (se_started_at r, se_id r)) rows)"

text \<open>\<open>(nil, nil)\<close> is \<open>Inr None\<close>.\<close>

definition open_session :: "driver \<Rightarrow> db \<Rightarrow> db \<times> (error + (time, string) session option)" where
  "open_session drv d = (called d,
    if outcome drv d \<noteq> SqlOk then Inl (Wrapped ''open session'' ErrDriver)
    else case limit_rows 1 (newest_first (filter (\<lambda>r. se_ended_at r = None) (db_sessions d))) of
        [] \<Rightarrow> Inr None
      | r # rest \<Rightarrow> (case scan_session drv r of None \<Rightarrow> Inl (Wrapped ''open session'' ErrTimeSyntax)
                  | Some s \<Rightarrow> Inr (Some s)))"

definition recent_sessions :: "driver \<Rightarrow> int \<Rightarrow> db \<Rightarrow> db \<times> (error + (time, string) session list)" where
  "recent_sessions drv limit d = (called d,
    if outcome drv d = SqlFail then Inl (Wrapped ''recent sessions'' ErrDriver)
    else case scan_rows (scan_session drv) (limit_rows limit (newest_first (db_sessions d))) of
        None \<Rightarrow> Inl (Wrapped ''recent sessions'' ErrTimeSyntax)
      | Some out \<Rightarrow> if outcome drv d = SqlMetaFail then Inl (Wrapped ''recent sessions: iterate'' ErrDriver) else Inr out)"

section \<open>Settings\<close>

text \<open>A missing key is \<open>Inr None\<close>.\<close>

definition get_setting :: "driver \<Rightarrow> string \<Rightarrow> db \<Rightarrow> db \<times> (error + string option)" where
  "get_setting drv k d = (called d,
    if outcome drv d \<noteq> SqlOk then Inl (Wrapped ''get setting'' ErrDriver)
    else Inr (map_option fst (db_settings d k)))"

definition set_setting :: "driver \<Rightarrow> string \<Rightarrow> string \<Rightarrow> db \<Rightarrow> db \<times> status" where
  "set_setting drv k v d =
    (if outcome drv d = SqlFail then (called d, Some (Wrapped ''set setting'' ErrDriver))
     else ((called d)\<lparr>db_settings := (db_settings d)(k \<mapsto> (v, format_time (drv_now drv (db_calls d))))\<rparr>, None))"

end
