(* ===== verification/StoreProps.thy ===== *)
theory StoreProps
  imports Store
begin

text \<open>
  The event log and the sample history as abstract lists: inserting appends, pruning drops what
  is older than a time, the queries return the newest events and the samples of an interval in
  the order of time. The store implements them on text timestamps, with a driver that may
  render a timestamp in any way the program's parser reads back as the same instant.
\<close>

section \<open>Scanning, sorting and limiting commute with decoding rows\<close>

lemma scan_rows_map: "(\<And>r. r \<in> set rows \<Longrightarrow> scan r = Some (g r)) \<Longrightarrow> scan_rows scan rows = Some (map g rows)"
  by (induction rows) auto

lemma limit_rows_map: "map g (limit_rows n rows) = limit_rows n (map g rows)"
  by (simp add: limit_rows_def take_map)

lemma set_limit_rows: "r \<in> set (limit_rows n rows) \<Longrightarrow> r \<in> set rows"
  by (auto simp: limit_rows_def split: if_splits dest: in_set_takeD)

lemma insort_key_map:
  "(\<And>y. y \<in> set ys \<Longrightarrow> (k x \<le> k y) = (k' (g x) \<le> k' (g y))) \<Longrightarrow>
    map g (insort_key k x ys) = insort_key k' (g x) (map g ys)"
  by (induction ys) auto

lemma sort_key_map:
  "(\<And>x y. x \<in> set xs \<Longrightarrow> y \<in> set xs \<Longrightarrow> (k x \<le> k y) = (k' (g x) \<le> k' (g y))) \<Longrightarrow>
    map g (sort_key k xs) = sort_key k' (map g xs)"
proof (induction xs)
  case (Cons a xs)
  have "map g (insort_key k a (sort_key k xs)) = insort_key k' (g a) (map g (sort_key k xs))"
    by (rule insort_key_map) (use Cons.prems in simp)
  with Cons show ?case by simp
qed simp

section \<open>Faithful drivers\<close>

definition faithful :: "driver \<Rightarrow> bool" where
  "faithful drv \<longleftrightarrow> (\<forall>t. time_in_range t \<longrightarrow> parse_time (drv_text drv (format_time t)) = Some t)"

lemma faithful_scan: "faithful drv \<Longrightarrow> time_in_range t \<Longrightarrow> scan_time drv (format_time t) = Some t"
  by (simp add: faithful_def scan_time_def)

definition stamped :: "string \<Rightarrow> bool" where
  "stamped s \<longleftrightarrow> (\<exists>t. time_in_range t \<and> s = format_time t)"

definition stamp :: "driver \<Rightarrow> string \<Rightarrow> time" where
  "stamp drv s = the (scan_time drv s)"

lemma stampedI: "time_in_range t \<Longrightarrow> stamped (format_time t)"
  by (auto simp: stamped_def)

lemma stamp_format [simp]: "faithful drv \<Longrightarrow> time_in_range t \<Longrightarrow> stamp drv (format_time t) = t"
  by (simp add: stamp_def faithful_scan)

lemma scan_stamped: "faithful drv \<Longrightarrow> stamped s \<Longrightarrow> scan_time drv s = Some (stamp drv s)"
  by (auto simp: stamped_def faithful_scan)

lemma stamp_less:
  "faithful drv \<Longrightarrow> stamped s \<Longrightarrow> stamped u \<Longrightarrow> s < u \<longleftrightarrow> stamp drv s < stamp drv u"
  by (auto simp: stamped_def time_text_less)

lemma stamp_le:
  "faithful drv \<Longrightarrow> stamped s \<Longrightarrow> stamped u \<Longrightarrow> s \<le> u \<longleftrightarrow> stamp drv s \<le> stamp drv u"
  using stamp_less[of drv u s] by (simp add: linorder_not_less[symmetric])

lemma stamp_key_le:
  "faithful drv \<Longrightarrow> stamped s \<Longrightarrow> stamped u \<Longrightarrow> (s, i :: int) \<le> (u, j) \<longleftrightarrow> (stamp drv s, i) \<le> (stamp drv u, j)"
  by (simp add: stamp_less stamp_le)

section \<open>The event log\<close>

definition decode_event :: "driver \<Rightarrow> event_row \<Rightarrow> time event" where
  "decode_event drv r = the (scan_event drv r)"

definition event_log :: "driver \<Rightarrow> db \<Rightarrow> time event list" where
  "event_log drv d = map (decode_event drv) (db_events d)"

definition events_stamped :: "db \<Rightarrow> bool" where
  "events_stamped d \<longleftrightarrow> (\<forall>r \<in> set (db_events d). stamped (ev_ts r))"

text \<open>The abstract operations.\<close>

definition log_recent :: "int \<Rightarrow> time event list \<Rightarrow> time event list" where
  "log_recent n es = limit_rows n (rev (sort_key (\<lambda>e. (ev_ts e, ev_id e)) es))"

definition log_prune :: "time \<Rightarrow> time event list \<Rightarrow> time event list" where
  "log_prune before es = filter (\<lambda>e. before \<le> ev_ts e) es"

lemma scan_event_stamped:
  "faithful drv \<Longrightarrow> stamped (ev_ts r) \<Longrightarrow> scan_event drv r = Some (decode_event drv r)"
  by (simp add: decode_event_def scan_event_def scan_stamped)

lemma decode_event_key:
  "faithful drv \<Longrightarrow> stamped (ev_ts r) \<Longrightarrow> ev_ts (decode_event drv r) = stamp drv (ev_ts r) \<and> ev_id (decode_event drv r) = ev_id r"
  by (simp add: decode_event_def scan_event_def scan_stamped)

lemma recent_events_log:
  assumes "faithful drv" "events_stamped d"
  shows "scan_rows (scan_event drv) (limit_rows n (rev (sort_key (\<lambda>r. (ev_ts r, ev_id r)) (db_events d)))) =
    Some (log_recent n (event_log drv d))"
proof -
  let ?rows = "rev (sort_key (\<lambda>r. (ev_ts r, ev_id r)) (db_events d))"
  have st: "stamped (ev_ts r)" if "r \<in> set (db_events d)" for r using assms(2) that by (simp add: events_stamped_def)
  have "scan_rows (scan_event drv) (limit_rows n ?rows) = Some (map (decode_event drv) (limit_rows n ?rows))"
    using st by (intro scan_rows_map scan_event_stamped[OF assms(1)]) (auto dest: set_limit_rows)
  moreover have "map (decode_event drv) (sort_key (\<lambda>r. (ev_ts r, ev_id r)) (db_events d)) =
      sort_key (\<lambda>e. (ev_ts e, ev_id e)) (event_log drv d)"
    unfolding event_log_def
    by (rule sort_key_map) (simp only: st decode_event_key[OF assms(1)] stamp_key_le[OF assms(1)])
  ultimately show ?thesis by (simp add: log_recent_def limit_rows_map flip: rev_map)
qed

lemma prune_rows:
  assumes "\<And>r. r \<in> set rows \<Longrightarrow> (ts r < s) = (\<not> b \<le> ts' (g r))"
  shows "map g (filter (\<lambda>r. \<not> ts r < s) rows) = filter (\<lambda>e. b \<le> ts' e) (map g rows)"
    "int (length (filter (\<lambda>r. ts r < s) rows)) = int (length rows) - int (length (filter (\<lambda>e. b \<le> ts' e) (map g rows)))"
  using assms by (induction rows) (auto simp: Let_def)

text \<open>C26. The event table implements an event log: inserting appends the event under the next id,
  pruning keeps exactly the events at or after the given time and reports how many it dropped,
  and the query returns at most the given number of events, newest first by time and then id.\<close>

theorem events_refine_log:
  assumes "faithful drv" and "events_stamped d" and "outcome drv d = SqlOk"
    and "time_in_range (ev_ts e)" and "time_in_range before"
  shows "event_log drv (fst (insert_event drv e d)) = event_log drv d @ [e\<lparr>ev_id := db_next_event d\<rparr>] \<and>
    events_stamped (fst (insert_event drv e d)) \<and>
    event_log drv (fst (prune_events drv before d)) = log_prune before (event_log drv d) \<and>
    snd (prune_events drv before d) = Inr (int (length (event_log drv d)) - int (length (log_prune before (event_log drv d)))) \<and>
    recent_events drv n d = (called d, Inr (log_recent n (event_log drv d)))"
proof (intro conjI)
  have st: "stamped (ev_ts r)" if "r \<in> set (db_events d)" for r using assms(2) that by (simp add: events_stamped_def)
  have old: "(ev_ts r < format_time before) = (\<not> before \<le> ev_ts (decode_event drv r))" if "r \<in> set (db_events d)" for r
    using stamp_less[OF assms(1) st[OF that] stampedI[OF assms(5)]] decode_event_key[OF assms(1) st[OF that]] assms(1,5)
    by (simp add: not_le)
  note prune = prune_rows[where ts = ev_ts and ts' = ev_ts and g = "decode_event drv", OF old]
  show "event_log drv (fst (insert_event drv e d)) = event_log drv d @ [e\<lparr>ev_id := db_next_event d\<rparr>]"
    using assms(3) by (simp add: insert_event_def event_log_def decode_event_def scan_event_def faithful_scan[OF assms(1,4)] called_def)
  show "events_stamped (fst (insert_event drv e d))"
    using assms(2,3) stampedI[OF assms(4)] by (auto simp: insert_event_def events_stamped_def called_def)
  show "event_log drv (fst (prune_events drv before d)) = log_prune before (event_log drv d)"
    using assms(3) prune(1) by (simp add: prune_events_def event_log_def log_prune_def called_def Let_def)
  show "snd (prune_events drv before d) = Inr (int (length (event_log drv d)) - int (length (log_prune before (event_log drv d))))"
    using assms(3) prune(2)[of "db_events d"]
    by (simp add: prune_events_def event_log_def log_prune_def called_def Let_def)
  show "recent_events drv n d = (called d, Inr (log_recent n (event_log drv d)))"
    using assms(3) recent_events_log[OF assms(1,2)] by (simp add: recent_events_def)
qed

section \<open>The sample history\<close>

definition decode_sample :: "driver \<Rightarrow> sample_row \<Rightarrow> (time, bool) sample" where
  "decode_sample drv r = the (scan_sample drv r)"

definition history :: "driver \<Rightarrow> db \<Rightarrow> (time, bool) sample list" where
  "history drv d = map (decode_sample drv) (db_samples d)"

definition samples_stamped :: "db \<Rightarrow> bool" where
  "samples_stamped d \<longleftrightarrow> (\<forall>r \<in> set (db_samples d). stamped (sm_ts r))"

definition history_between :: "time \<Rightarrow> time \<Rightarrow> (time, bool) sample list \<Rightarrow> (time, bool) sample list" where
  "history_between a b ss = take (nat max_history_rows)
     (sort_key (\<lambda>s. (sm_ts s, sm_id s)) (filter (\<lambda>s. a \<le> sm_ts s \<and> sm_ts s \<le> b) ss))"

definition history_prune :: "time \<Rightarrow> (time, bool) sample list \<Rightarrow> (time, bool) sample list" where
  "history_prune before ss = filter (\<lambda>s. before \<le> sm_ts s) ss"

lemma scan_sample_stamped:
  "faithful drv \<Longrightarrow> stamped (sm_ts r) \<Longrightarrow> scan_sample drv r = Some (decode_sample drv r)"
  by (simp add: decode_sample_def scan_sample_def scan_stamped)

lemma decode_sample_key:
  "faithful drv \<Longrightarrow> stamped (sm_ts r) \<Longrightarrow> sm_ts (decode_sample drv r) = stamp drv (sm_ts r) \<and> sm_id (decode_sample drv r) = sm_id r"
  by (simp add: decode_sample_def scan_sample_def scan_stamped)

lemma filter_map_rows: "(\<And>r. r \<in> set rows \<Longrightarrow> P r = Q (g r)) \<Longrightarrow> map g (filter P rows) = filter Q (map g rows)"
  by (induction rows) auto

lemma samples_between_history:
  assumes "faithful drv" "samples_stamped d" "time_in_range a" "time_in_range b"
  shows "scan_rows (scan_sample drv) (limit_rows max_history_rows (sort_key (\<lambda>r. (sm_ts r, sm_id r))
      (filter (\<lambda>r. format_time a \<le> sm_ts r \<and> sm_ts r \<le> format_time b) (db_samples d)))) =
    Some (history_between a b (history drv d))"
proof -
  let ?in = "filter (\<lambda>r. format_time a \<le> sm_ts r \<and> sm_ts r \<le> format_time b) (db_samples d)"
  have st: "stamped (sm_ts r)" if "r \<in> set (db_samples d)" for r using assms(2) that by (simp add: samples_stamped_def)
  have 1: "map (decode_sample drv) ?in = filter (\<lambda>s. a \<le> sm_ts s \<and> sm_ts s \<le> b) (history drv d)"
    unfolding history_def
  proof (rule filter_map_rows)
    fix r assume "r \<in> set (db_samples d)"
    from st[OF this] show "(format_time a \<le> sm_ts r \<and> sm_ts r \<le> format_time b) =
        (a \<le> sm_ts (decode_sample drv r) \<and> sm_ts (decode_sample drv r) \<le> b)"
      using stamp_le[OF assms(1) stampedI[OF assms(3)], of "sm_ts r"] stamp_le[OF assms(1) _ stampedI[OF assms(4)], of "sm_ts r"]
        assms(1,3,4) by (simp add: decode_sample_key)
  qed
  have 2: "map (decode_sample drv) (sort_key (\<lambda>r. (sm_ts r, sm_id r)) ?in) =
      sort_key (\<lambda>s. (sm_ts s, sm_id s)) (map (decode_sample drv) ?in)"
  proof (rule sort_key_map)
    fix x y assume "x \<in> set ?in" "y \<in> set ?in"
    then have "stamped (sm_ts x)" "stamped (sm_ts y)" using st by simp_all
    then show "((sm_ts x, sm_id x) \<le> (sm_ts y, sm_id y)) =
      ((sm_ts (decode_sample drv x), sm_id (decode_sample drv x)) \<le> (sm_ts (decode_sample drv y), sm_id (decode_sample drv y)))"
      by (simp only: decode_sample_key[OF assms(1)] stamp_key_le[OF assms(1)])
  qed
  have "scan_rows (scan_sample drv) (limit_rows max_history_rows (sort_key (\<lambda>r. (sm_ts r, sm_id r)) ?in)) =
      Some (map (decode_sample drv) (limit_rows max_history_rows (sort_key (\<lambda>r. (sm_ts r, sm_id r)) ?in)))"
    using st by (intro scan_rows_map scan_sample_stamped[OF assms(1)]) (auto dest: set_limit_rows)
  also have "\<dots> = Some (history_between a b (history drv d))"
    unfolding limit_rows_map 2 1 by (simp add: history_between_def limit_rows_def max_history_rows_def)
  finally show ?thesis .
qed

text \<open>C27. The sample table implements a history: inserting appends the sample, pruning keeps exactly
  the samples at or after the given time, and the query of an interval returns its samples,
  both ends included, in the order of time, at most 50000 of them.\<close>

theorem samples_refine_history:
  assumes "faithful drv" and "samples_stamped d" and "outcome drv d = SqlOk"
    and "time_in_range (sm_ts s)" and "time_in_range a" and "time_in_range b"
  shows "history drv (fst (insert_sample drv s d)) = history drv d @ [s\<lparr>sm_id := db_next_sample d\<rparr>] \<and>
    samples_stamped (fst (insert_sample drv s d)) \<and>
    history drv (fst (prune_samples drv a d)) = history_prune a (history drv d) \<and>
    snd (prune_samples drv a d) = Inr (int (length (history drv d)) - int (length (history_prune a (history drv d)))) \<and>
    samples_between drv a b d = (called d, Inr (history_between a b (history drv d)))"
proof (intro conjI)
  have st: "stamped (sm_ts r)" if "r \<in> set (db_samples d)" for r using assms(2) that by (simp add: samples_stamped_def)
  have old: "(sm_ts r < format_time a) = (\<not> a \<le> sm_ts (decode_sample drv r))" if "r \<in> set (db_samples d)" for r
    using stamp_less[OF assms(1) st[OF that] stampedI[OF assms(5)]] decode_sample_key[OF assms(1) st[OF that]] assms(1,5)
    by (simp add: not_le)
  note prune = prune_rows[where ts = sm_ts and ts' = sm_ts and g = "decode_sample drv", OF old]
  show "history drv (fst (insert_sample drv s d)) = history drv d @ [s\<lparr>sm_id := db_next_sample d\<rparr>]"
    using assms(3) by (simp add: insert_sample_def history_def decode_sample_def scan_sample_def
        faithful_scan[OF assms(1,4)] called_def bool_to_int_def)
  show "samples_stamped (fst (insert_sample drv s d))"
    using assms(2,3) stampedI[OF assms(4)] by (auto simp: insert_sample_def samples_stamped_def called_def)
  show "history drv (fst (prune_samples drv a d)) = history_prune a (history drv d)"
    using assms(3) prune(1) by (simp add: prune_samples_def history_def history_prune_def called_def Let_def)
  show "snd (prune_samples drv a d) = Inr (int (length (history drv d)) - int (length (history_prune a (history drv d))))"
    using assms(3) prune(2)[of "db_samples d"]
    by (simp add: prune_samples_def history_def history_prune_def called_def Let_def)
  show "samples_between drv a b d = (called d, Inr (history_between a b (history drv d)))"
    using assms(3) samples_between_history[OF assms(1,2,5,6)] by (simp add: samples_between_def)
qed

section \<open>Witnesses\<close>

definition plain_driver :: driver where
  "plain_driver = \<lparr>drv_outcome = (\<lambda>_. SqlOk), drv_text = id, drv_now = (\<lambda>_. 0)\<rparr>"

lemma plain_facts: "faithful plain_driver" "outcome plain_driver d = SqlOk" "events_stamped empty_db" "samples_stamped empty_db"
  by (simp_all add: faithful_def plain_driver_def time_text_parse outcome_def events_stamped_def samples_stamped_def empty_db_def)

definition demo_time :: time where "demo_time = 63891234567000000089"

lemma demo_time_in_range [simp]: "time_in_range demo_time"
  by (simp add: demo_time_def time_in_range_def days_before_year_def)

definition demo_event :: "time event" where
  "demo_event = \<lparr>ev_id = 0, ev_ts = demo_time, ev_type = ''command'', ev_from = '''', ev_to = '''', ev_action = ''set_mode:pv'',
     ev_surplus = 0, ev_grid = 0, ev_pv = 0, ev_battery_soc = 0, ev_battery = 0, ev_vehicle_soc = 0, ev_charge = 0,
     ev_detail = ''''\<rparr>"

definition demo_sample :: "(time, bool) sample" where
  "demo_sample = \<lparr>sm_id = 0, sm_ts = demo_time, sm_grid = 0, sm_pv = 0, sm_home = 0, sm_battery_soc = 0, sm_battery = 0,
     sm_charge = 0, sm_vehicle_soc = 0, sm_charging = True, sm_mode = ''pv'', sm_surplus = 0, sm_state = ''charging''\<rparr>"

theorem events_refine_log_witness:
  "event_log plain_driver (fst (insert_event plain_driver demo_event empty_db)) = [demo_event\<lparr>ev_id := 1\<rparr>]"
  using events_refine_log[OF plain_facts(1,3,2), of demo_event demo_time 1]
  by (simp add: demo_event_def event_log_def empty_db_def)

theorem samples_refine_history_witness:
  "history plain_driver (fst (insert_sample plain_driver demo_sample empty_db)) = [demo_sample\<lparr>sm_id := 1\<rparr>]"
  using samples_refine_history[OF plain_facts(1,4,2), of demo_sample demo_time demo_time]
  by (simp add: demo_sample_def history_def empty_db_def)

end
