(* ===== verification/Clock.thy ===== *)
theory Clock
  imports Prelude
begin

text \<open>
  \<open>controller/clock.go\<close>: the two clocks. The real one returns the instant at which it is read, so the
  other theories pass that instant to the operation that reads it; the fake one is a register
  that tests move. Its methods hold the mutex from start to end, so each is one step.
\<close>

definition real_now :: "time \<Rightarrow> time" where
  "real_now wall = wall"

record fake_clock =
  fc_now :: time

definition new_fake_clock :: "time \<Rightarrow> fake_clock" where
  "new_fake_clock t = \<lparr>fc_now = t\<rparr>"

definition fake_now :: "fake_clock \<Rightarrow> fake_clock \<times> time" where
  "fake_now c = (c, fc_now c)"

definition fake_set :: "time \<Rightarrow> fake_clock \<Rightarrow> fake_clock" where
  "fake_set t c = c\<lparr>fc_now := t\<rparr>"

definition fake_advance :: "duration \<Rightarrow> fake_clock \<Rightarrow> fake_clock" where
  "fake_advance d c = c\<lparr>fc_now := time_add (fc_now c) d\<rparr>"

text \<open>Advances from several goroutines add up, in whatever order they come.\<close>

lemma advance_sum: "snd (fake_now (fold fake_advance ds (new_fake_clock t))) = t + sum_list ds"
proof -
  have "fc_now (fold fake_advance ds c) = fc_now c + sum_list ds" for c
    by (induction ds arbitrary: c) (simp_all add: fake_advance_def time_add_def)
  then show ?thesis by (simp add: fake_now_def new_fake_clock_def)
qed

end
