(* ===== verification/Evcc.thy ===== *)
theory Evcc
  imports Strconv Config
begin

text \<open>
  \<open>internal/evcc\<close>: the MQTT topics of one evcc loadpoint, the store of latest values fed by
  incoming messages (\<open>state.go\<close>), and the client that publishes commands (\<open>client.go\<close>,
  \<open>commands.go\<close>). The paho MQTT client is third-party code: what a publish or a subscription
  comes to is a parameter, and the state keeps the list of publish attempts with their
  outcomes, which is all of the broker the program can see.
\<close>

section \<open>Topics\<close>

record topics =
  tp_grid_power :: string
  tp_pv_power :: string
  tp_home_power :: string
  tp_battery_soc :: string
  tp_battery_power :: string
  tp_status :: string
  tp_charge_power :: string
  tp_charging :: string
  tp_connected :: string
  tp_enabled :: string
  tp_vehicle_soc :: string
  tp_mode :: string
  tp_limit_soc :: string
  tp_mode_set :: string
  tp_limit_soc_set :: string

definition new_topics :: "string \<Rightarrow> string \<Rightarrow> topics" where
  "new_topics prefix loadpoint = (let lp = prefix @ ''/loadpoints/'' @ loadpoint in
    \<lparr>tp_grid_power = prefix @ ''/site/grid/power'',
     tp_pv_power = prefix @ ''/site/pvPower'',
     tp_home_power = prefix @ ''/site/homePower'',
     tp_battery_soc = prefix @ ''/site/battery/soc'',
     tp_battery_power = prefix @ ''/site/battery/power'',
     tp_status = prefix @ ''/status'',
     tp_charge_power = lp @ ''/chargePower'',
     tp_charging = lp @ ''/charging'',
     tp_connected = lp @ ''/connected'',
     tp_enabled = lp @ ''/enabled'',
     tp_vehicle_soc = lp @ ''/vehicleSoc'',
     tp_mode = lp @ ''/mode'',
     tp_limit_soc = lp @ ''/limitSoc'',
     tp_mode_set = lp @ ''/mode/set'',
     tp_limit_soc_set = lp @ ''/limitSoc/set''\<rparr>)"

definition read_subscriptions :: "topics \<Rightarrow> string list" where
  "read_subscriptions t =
    [tp_grid_power t, tp_pv_power t, tp_home_power t, tp_battery_soc t, tp_battery_power t, tp_status t,
     tp_charge_power t, tp_charging t, tp_connected t, tp_enabled t, tp_vehicle_soc t, tp_mode t, tp_limit_soc t]"

section \<open>The snapshot\<close>

text \<open>\<open>FloatMetric\<close>, \<open>BoolMetric\<close> and \<open>StringMetric\<close> differ only in the type of their value.\<close>

record 'a metric =
  m_value :: 'a
  m_at :: time
  m_seen :: bool

type_synonym float_metric = "f64 metric"
type_synonym bool_metric = "bool metric"
type_synonym string_metric = "string metric"

record snapshot =
  sn_grid :: float_metric
  sn_pv :: float_metric
  sn_home :: float_metric
  sn_battery_power :: float_metric
  sn_battery_soc :: float_metric
  sn_charge_power :: float_metric
  sn_vehicle_soc :: float_metric
  sn_limit_soc :: float_metric
  sn_charging :: bool_metric
  sn_connected :: bool_metric
  sn_enabled :: bool_metric
  sn_mode :: string_metric
  sn_online :: bool_metric
  sn_broker_connected :: bool

definition zero_float :: float_metric where "zero_float = \<lparr>m_value = 0, m_at = 0, m_seen = False\<rparr>"
definition zero_bool :: bool_metric where "zero_bool = \<lparr>m_value = False, m_at = 0, m_seen = False\<rparr>"
definition zero_string :: string_metric where "zero_string = \<lparr>m_value = '''', m_at = 0, m_seen = False\<rparr>"

text \<open>The zero \<open>Snapshot\<close> of a new store.\<close>

definition zero_snapshot :: snapshot where
  "zero_snapshot = \<lparr>sn_grid = zero_float, sn_pv = zero_float, sn_home = zero_float,
     sn_battery_power = zero_float, sn_battery_soc = zero_float, sn_charge_power = zero_float,
     sn_vehicle_soc = zero_float, sn_limit_soc = zero_float, sn_charging = zero_bool,
     sn_connected = zero_bool, sn_enabled = zero_bool, sn_mode = zero_string, sn_online = zero_bool,
     sn_broker_connected = False\<rparr>"

record evcc_store =
  es_topics :: topics
  es_snap :: snapshot

definition new_store :: "topics \<Rightarrow> evcc_store" where
  "new_store t = \<lparr>es_topics = t, es_snap = zero_snapshot\<rparr>"

definition snapshot_of :: "evcc_store \<Rightarrow> snapshot" where
  "snapshot_of s = es_snap s"

definition set_broker_connected :: "bool \<Rightarrow> evcc_store \<Rightarrow> evcc_store" where
  "set_broker_connected v s = s\<lparr>es_snap := (es_snap s)\<lparr>sn_broker_connected := v\<rparr>\<rparr>"

text \<open>The setters return the field and whether the payload was accepted.\<close>

definition set_float :: "float_metric \<Rightarrow> string \<Rightarrow> time \<Rightarrow> float_metric \<times> bool" where
  "set_float field payload ts = (case parse_float (trim_space payload) of
     None \<Rightarrow> (field, False)
   | Some v \<Rightarrow> (\<lparr>m_value = v, m_at = ts, m_seen = True\<rparr>, True))"

definition set_bool :: "bool_metric \<Rightarrow> string \<Rightarrow> time \<Rightarrow> bool_metric \<times> bool" where
  "set_bool field payload ts = (let p = trim_space payload in
     if p = ''true'' then (\<lparr>m_value = True, m_at = ts, m_seen = True\<rparr>, True)
     else if p = ''false'' then (\<lparr>m_value = False, m_at = ts, m_seen = True\<rparr>, True)
     else (field, False))"

definition apply_snap :: "topics \<Rightarrow> string \<Rightarrow> string \<Rightarrow> time \<Rightarrow> snapshot \<Rightarrow> snapshot \<times> bool" where
  "apply_snap t topic payload ts s =
    (if topic = tp_grid_power t then case set_float (sn_grid s) payload ts of (m, ok) \<Rightarrow> (s\<lparr>sn_grid := m\<rparr>, ok)
     else if topic = tp_pv_power t then case set_float (sn_pv s) payload ts of (m, ok) \<Rightarrow> (s\<lparr>sn_pv := m\<rparr>, ok)
     else if topic = tp_home_power t then case set_float (sn_home s) payload ts of (m, ok) \<Rightarrow> (s\<lparr>sn_home := m\<rparr>, ok)
     else if topic = tp_battery_power t then
       case set_float (sn_battery_power s) payload ts of (m, ok) \<Rightarrow> (s\<lparr>sn_battery_power := m\<rparr>, ok)
     else if topic = tp_battery_soc t then
       case set_float (sn_battery_soc s) payload ts of (m, ok) \<Rightarrow> (s\<lparr>sn_battery_soc := m\<rparr>, ok)
     else if topic = tp_charge_power t then
       case set_float (sn_charge_power s) payload ts of (m, ok) \<Rightarrow> (s\<lparr>sn_charge_power := m\<rparr>, ok)
     else if topic = tp_vehicle_soc t then
       case set_float (sn_vehicle_soc s) payload ts of (m, ok) \<Rightarrow> (s\<lparr>sn_vehicle_soc := m\<rparr>, ok)
     else if topic = tp_limit_soc t then
       case set_float (sn_limit_soc s) payload ts of (m, ok) \<Rightarrow> (s\<lparr>sn_limit_soc := m\<rparr>, ok)
     else if topic = tp_charging t then case set_bool (sn_charging s) payload ts of (m, ok) \<Rightarrow> (s\<lparr>sn_charging := m\<rparr>, ok)
     else if topic = tp_connected t then
       case set_bool (sn_connected s) payload ts of (m, ok) \<Rightarrow> (s\<lparr>sn_connected := m\<rparr>, ok)
     else if topic = tp_enabled t then case set_bool (sn_enabled s) payload ts of (m, ok) \<Rightarrow> (s\<lparr>sn_enabled := m\<rparr>, ok)
     else if topic = tp_mode t then (s\<lparr>sn_mode := \<lparr>m_value = payload, m_at = ts, m_seen = True\<rparr>\<rparr>, True)
     else if topic = tp_status t then
       (s\<lparr>sn_online := \<lparr>m_value = (payload = ''online''), m_at = ts, m_seen = True\<rparr>\<rparr>, True)
     else (s, False))"

definition apply_message :: "string \<Rightarrow> string \<Rightarrow> time \<Rightarrow> evcc_store \<Rightarrow> evcc_store \<times> bool" where
  "apply_message topic payload ts st = (case apply_snap (es_topics st) topic payload ts (es_snap st) of
     (s, ok) \<Rightarrow> (st\<lparr>es_snap := s\<rparr>, ok))"

section \<open>The client\<close>

text \<open>What a publish comes to, as its token reports it within the timeout.\<close>

datatype pub_outcome = PubAcked | PubTimedOut | PubFailed

text \<open>The bytes on the wire: topic, quality of service, retained flag, payload; and the outcome.\<close>

record wire =
  w_topic :: string
  w_qos :: int
  w_retained :: bool
  w_payload :: string
  w_outcome :: pub_outcome

definition qos :: int where "qos = 1"

record client =
  cl_store :: evcc_store
  cl_topics :: topics
  cl_wire :: "wire list"
  cl_filters :: "string list"

definition new_client :: "mqtt_config \<Rightarrow> string \<Rightarrow> client" where
  "new_client cfg loadpoint = (let t = new_topics (mq_topic_prefix cfg) loadpoint in
     \<lparr>cl_store = new_store t, cl_topics = t, cl_wire = [], cl_filters = []\<rparr>)"

text \<open>
  What the paho library is told: a clean session, so that no subscription outlives a connection,
  retries without end, and callbacks in any order.
\<close>

record mqtt_options =
  mo_broker :: string
  mo_client_id :: string
  mo_clean_session :: bool
  mo_auto_reconnect :: bool
  mo_connect_retry :: bool
  mo_connect_retry_interval :: duration
  mo_connect_timeout :: duration
  mo_keep_alive :: duration
  mo_order_matters :: bool
  mo_credentials :: "(string \<times> string) option"

definition client_options :: "mqtt_config \<Rightarrow> mqtt_options" where
  "client_options cfg = \<lparr>mo_broker = mq_broker cfg, mo_client_id = mq_client_id cfg, mo_clean_session = True,
     mo_auto_reconnect = True, mo_connect_retry = True, mo_connect_retry_interval = 5 * second,
     mo_connect_timeout = 10 * second, mo_keep_alive = 30 * second, mo_order_matters = False,
     mo_credentials = (if mq_username cfg \<noteq> '''' then Some (mq_username cfg, mq_password cfg) else None)\<rparr>"

text \<open>\<open>Connect\<close>, from the outcome of its token; the state changes in the callbacks.\<close>

definition client_connect :: "error option \<Rightarrow> status" where
  "client_connect tok = (case tok of None \<Rightarrow> None | Some err \<Rightarrow> Some (Wrapped ''mqtt connect'' err))"

definition client_set_connected :: "bool \<Rightarrow> client \<Rightarrow> client" where
  "client_set_connected v c = c\<lparr>cl_store := set_broker_connected v (cl_store c)\<rparr>"

definition disconnect :: "client \<Rightarrow> client" where
  "disconnect c = client_set_connected False c"

text \<open>
  The broker starts a clean session on every connection, so the filters in force are those
  this handler subscribes, if the subscription succeeds.
\<close>

definition on_connect :: "bool \<Rightarrow> client \<Rightarrow> client" where
  "on_connect subscribe_ok c =
     (client_set_connected True c)\<lparr>cl_filters := (if subscribe_ok then read_subscriptions (cl_topics c) else [])\<rparr>"

definition on_connection_lost :: "client \<Rightarrow> client" where
  "on_connection_lost c = client_set_connected False c"

definition handle_message :: "string \<Rightarrow> string \<Rightarrow> time \<Rightarrow> client \<Rightarrow> client" where
  "handle_message topic payload now c = c\<lparr>cl_store := fst (apply_message topic payload now (cl_store c))\<rparr>"

text \<open>
  The parameter \<open>paho\<close> gives the outcome of the publish attempt with a given number, topic
  and payload.
\<close>

type_synonym paho = "nat \<Rightarrow> string \<Rightarrow> string \<Rightarrow> pub_outcome"

definition publish :: "paho \<Rightarrow> string \<Rightarrow> string \<Rightarrow> client \<Rightarrow> client \<times> status" where
  "publish paho topic payload c =
    (let outcome = paho (length (cl_wire c)) topic payload;
         c' = c\<lparr>cl_wire := cl_wire c @ [\<lparr>w_topic = topic, w_qos = qos, w_retained = False,
                                          w_payload = payload, w_outcome = outcome\<rparr>]\<rparr>
     in (c', case outcome of
          PubTimedOut \<Rightarrow> Some (Wrapped (''mqtt publish '' @ topic) ErrTimeout)
        | PubFailed \<Rightarrow> Some (Wrapped (''mqtt publish '' @ topic) ErrBroker)
        | PubAcked \<Rightarrow> None))"

definition set_mode :: "paho \<Rightarrow> string \<Rightarrow> client \<Rightarrow> client \<times> status" where
  "set_mode paho mode c = publish paho (tp_mode_set (cl_topics c)) mode c"

definition set_limit_soc :: "paho \<Rightarrow> int \<Rightarrow> client \<Rightarrow> client \<times> status" where
  "set_limit_soc paho pct c = publish paho (tp_limit_soc_set (cl_topics c)) (itoa pct) c"

section \<open>Topics are told apart\<close>

lemma topics_distinct:
  "distinct (read_subscriptions (new_topics prefix lp) @
     [tp_mode_set (new_topics prefix lp), tp_limit_soc_set (new_topics prefix lp)])"
  by (simp add: read_subscriptions_def new_topics_def Let_def)

section \<open>The store holds the latest valid reading of each topic\<close>

definition decode_float :: "string \<Rightarrow> f64 option" where
  "decode_float p = parse_float (trim_space p)"

definition decode_bool :: "string \<Rightarrow> bool option" where
  "decode_bool p = (if trim_space p = ''true'' then Some True
     else if trim_space p = ''false'' then Some False else None)"

definition decode_online :: "string \<Rightarrow> bool option" where
  "decode_online p = Some (p = ''online'')"

type_synonym message = "string \<times> string \<times> time"

text \<open>The specification: the last message on the topic that decodes, if there is one.\<close>

definition latest :: "(string \<Rightarrow> 'a option) \<Rightarrow> string \<Rightarrow> 'a metric \<Rightarrow> message list \<Rightarrow> 'a metric" where
  "latest dec key unseen msgs =
    (case List.map_filter (\<lambda>(topic, p, ts). if topic = key then map_option (\<lambda>v. (v, ts)) (dec p) else None) (rev msgs) of
       [] \<Rightarrow> unseen
     | (v, ts) # _ \<Rightarrow> \<lparr>m_value = v, m_at = ts, m_seen = True\<rparr>)"

definition overwrite :: "(string \<Rightarrow> 'a option) \<Rightarrow> string \<Rightarrow> message \<Rightarrow> 'a metric \<Rightarrow> 'a metric" where
  "overwrite dec key msg m = (case msg of (topic, p, ts) \<Rightarrow>
     if topic = key then (case dec p of None \<Rightarrow> m | Some v \<Rightarrow> \<lparr>m_value = v, m_at = ts, m_seen = True\<rparr>) else m)"

lemma overwrite_message: "overwrite dec key (topic, p, ts) m =
    (if topic = key then (case dec p of None \<Rightarrow> m | Some v \<Rightarrow> \<lparr>m_value = v, m_at = ts, m_seen = True\<rparr>) else m)"
  by (simp add: overwrite_def)

lemma latest_Nil: "latest dec key unseen [] = unseen"
  by (simp add: latest_def List.map_filter_simps)

lemma latest_snoc: "latest dec key unseen (msgs @ [msg]) = overwrite dec key msg (latest dec key unseen msgs)"
  by (cases msg) (auto simp: latest_def overwrite_def List.map_filter_simps split: option.split)

definition latest_snapshot :: "topics \<Rightarrow> message list \<Rightarrow> snapshot" where
  "latest_snapshot t msgs = \<lparr>
     sn_grid = latest decode_float (tp_grid_power t) zero_float msgs,
     sn_pv = latest decode_float (tp_pv_power t) zero_float msgs,
     sn_home = latest decode_float (tp_home_power t) zero_float msgs,
     sn_battery_power = latest decode_float (tp_battery_power t) zero_float msgs,
     sn_battery_soc = latest decode_float (tp_battery_soc t) zero_float msgs,
     sn_charge_power = latest decode_float (tp_charge_power t) zero_float msgs,
     sn_vehicle_soc = latest decode_float (tp_vehicle_soc t) zero_float msgs,
     sn_limit_soc = latest decode_float (tp_limit_soc t) zero_float msgs,
     sn_charging = latest decode_bool (tp_charging t) zero_bool msgs,
     sn_connected = latest decode_bool (tp_connected t) zero_bool msgs,
     sn_enabled = latest decode_bool (tp_enabled t) zero_bool msgs,
     sn_mode = latest Some (tp_mode t) zero_string msgs,
     sn_online = latest decode_online (tp_status t) zero_bool msgs,
     sn_broker_connected = False\<rparr>"

lemma fst_set_float: "fst (set_float m p ts) = (case decode_float p of None \<Rightarrow> m | Some v \<Rightarrow> \<lparr>m_value = v, m_at = ts, m_seen = True\<rparr>)"
  by (simp add: set_float_def decode_float_def split: option.split)

lemma snd_set_float: "snd (set_float m p ts) = (decode_float p \<noteq> None)"
  by (simp add: set_float_def decode_float_def split: option.split)

lemma fst_set_bool: "fst (set_bool m p ts) = (case decode_bool p of None \<Rightarrow> m | Some v \<Rightarrow> \<lparr>m_value = v, m_at = ts, m_seen = True\<rparr>)"
  by (simp add: set_bool_def decode_bool_def Let_def)

lemma snd_set_bool: "snd (set_bool m p ts) = (decode_bool p \<noteq> None)"
  by (auto simp: set_bool_def decode_bool_def Let_def)

lemmas setter_simps = fst_set_float snd_set_float fst_set_bool snd_set_bool

text \<open>Distinctness as rewrite rules, in both directions.\<close>

lemma distinct_topics:
  assumes "distinct (read_subscriptions t)"
  shows "distinct (read_subscriptions t)" and "distinct (rev (read_subscriptions t))"
  using assms by simp_all

lemmas distinct_topics_ne = distinct_topics[unfolded read_subscriptions_def rev.simps append.simps distinct.simps
  list.set insert_iff empty_iff de_Morgan_disj simp_thms]

lemma apply_snap_overwrites:
  assumes "distinct (read_subscriptions t)"
  shows "fst (apply_snap t topic p ts s) = \<lparr>
     sn_grid = overwrite decode_float (tp_grid_power t) (topic, p, ts) (sn_grid s),
     sn_pv = overwrite decode_float (tp_pv_power t) (topic, p, ts) (sn_pv s),
     sn_home = overwrite decode_float (tp_home_power t) (topic, p, ts) (sn_home s),
     sn_battery_power = overwrite decode_float (tp_battery_power t) (topic, p, ts) (sn_battery_power s),
     sn_battery_soc = overwrite decode_float (tp_battery_soc t) (topic, p, ts) (sn_battery_soc s),
     sn_charge_power = overwrite decode_float (tp_charge_power t) (topic, p, ts) (sn_charge_power s),
     sn_vehicle_soc = overwrite decode_float (tp_vehicle_soc t) (topic, p, ts) (sn_vehicle_soc s),
     sn_limit_soc = overwrite decode_float (tp_limit_soc t) (topic, p, ts) (sn_limit_soc s),
     sn_charging = overwrite decode_bool (tp_charging t) (topic, p, ts) (sn_charging s),
     sn_connected = overwrite decode_bool (tp_connected t) (topic, p, ts) (sn_connected s),
     sn_enabled = overwrite decode_bool (tp_enabled t) (topic, p, ts) (sn_enabled s),
     sn_mode = overwrite Some (tp_mode t) (topic, p, ts) (sn_mode s),
     sn_online = overwrite decode_online (tp_status t) (topic, p, ts) (sn_online s),
     sn_broker_connected = sn_broker_connected s\<rparr>"
proof (cases "topic \<in> set (read_subscriptions t)")
  case False
  then have "topic \<notin> set (read_subscriptions t)" .
  note ne = this[unfolded read_subscriptions_def list.set insert_iff empty_iff de_Morgan_disj simp_thms]
  show ?thesis by (simp only: apply_snap_def overwrite_message ne if_False fst_conv) (cases s, simp)
next
  case True
  note ne = distinct_topics_ne[OF assms[unfolded read_subscriptions_def distinct.simps
    list.set insert_iff empty_iff de_Morgan_disj simp_thms]]
  show ?thesis
    using True[unfolded read_subscriptions_def list.set insert_iff empty_iff simp_thms]
    by (elim disjE; hypsubst; simp only: apply_snap_def overwrite_message ne if_False if_True refl fst_conv;
      cases s; clarsimp simp: setter_simps decode_online_def case_prod_beta split: option.split)
qed

definition apply_all :: "message list \<Rightarrow> evcc_store \<Rightarrow> evcc_store" where
  "apply_all msgs st = foldl (\<lambda>s (topic, p, ts). fst (apply_message topic p ts s)) st msgs"

lemma apply_message_store:
  "fst (apply_message topic p ts st) = st\<lparr>es_snap := fst (apply_snap (es_topics st) topic p ts (es_snap st))\<rparr>"
  by (simp add: apply_message_def split_beta)

lemma apply_all_topics [frame]: "es_topics (apply_all msgs st) = es_topics st"
  by (induction msgs rule: rev_induct) (auto simp: apply_all_def apply_message_store)

text \<open>C20. The store is exactly the latest valid reading of every topic: after any sequence of
  messages to a new store, each metric holds the value and receipt time of the last message on
  its own topic whose payload decodes, and is unseen if there was none; no message touches
  another topic's metric.\<close>

theorem store_refines_latest:
  "es_snap (apply_all msgs (new_store (new_topics prefix lp))) = latest_snapshot (new_topics prefix lp) msgs"
proof (induction msgs rule: rev_induct)
  case Nil
  show ?case by (simp add: apply_all_def new_store_def zero_snapshot_def latest_snapshot_def latest_Nil)
next
  case (snoc m msgs)
  obtain topic p ts where m: "m = (topic, p, ts)" by (cases m)
  let ?t = "new_topics prefix lp" and ?s = "apply_all msgs (new_store (new_topics prefix lp))"
  have t: "es_topics ?s = ?t" by (simp add: apply_all_topics new_store_def)
  have d: "distinct (read_subscriptions ?t)" using topics_distinct by (simp add: distinct_append)
  have "es_snap (apply_all (msgs @ [m]) (new_store ?t)) = fst (apply_snap ?t topic p ts (es_snap ?s))"
    using t by (simp add: apply_all_def m apply_message_store)
  also have "\<dots> = latest_snapshot ?t (msgs @ [m])"
    by (simp add: apply_snap_overwrites[OF d] snoc latest_snapshot_def latest_snoc m)
  finally show ?case .
qed

lemma if_all: "P x \<Longrightarrow> P y \<Longrightarrow> P (if c then x else y)"
  by simp

lemma apply_snap_rejected: "snd (apply_snap t topic p ts s) \<or> fst (apply_snap t topic p ts s) = s"
  unfolding apply_snap_def
  by (intro if_all [where P = "\<lambda>x. snd x \<or> fst x = s"])
    (simp_all add: set_float_def set_bool_def Let_def split: option.split)

definition float_topics :: "topics \<Rightarrow> string set" where
  "float_topics t = {tp_grid_power t, tp_pv_power t, tp_home_power t, tp_battery_power t, tp_battery_soc t,
     tp_charge_power t, tp_vehicle_soc t, tp_limit_soc t}"

definition bool_topics :: "topics \<Rightarrow> string set" where
  "bool_topics t = {tp_charging t, tp_connected t, tp_enabled t}"

lemma merge_if: "(if a then x else if b then x else r) = (if a \<or> b then x else r)"
  by simp

lemma if_True_False: "(if a then True else b) = (a \<or> b)"
  by simp

text \<open>A message is accepted exactly when its topic is one of the subscribed ones and its payload
  decodes for that topic (a number, \<open>true\<close> or \<open>false\<close>, any text for mode and status); a rejected
  message leaves the store as it was.\<close>

theorem apply_accepts:
  "snd (apply_message topic p ts st) =
     (if topic \<in> float_topics (es_topics st) then decode_float p \<noteq> None
      else if topic \<in> bool_topics (es_topics st) then decode_bool p \<noteq> None
      else topic \<in> {tp_mode (es_topics st), tp_status (es_topics st)}) \<and>
   set (read_subscriptions (es_topics st)) =
     float_topics (es_topics st) \<union> bool_topics (es_topics st) \<union> {tp_mode (es_topics st), tp_status (es_topics st)} \<and>
   (snd (apply_message topic p ts st) \<or> fst (apply_message topic p ts st) = st)"
proof (intro conjI)
  let ?t = "es_topics st"
  have "snd (apply_message topic p ts st) = snd (apply_snap ?t topic p ts (es_snap st))"
    by (simp add: apply_message_def case_prod_beta)
  also have "\<dots> =
     (if topic \<in> float_topics ?t then decode_float p \<noteq> None
      else if topic \<in> bool_topics ?t then decode_bool p \<noteq> None
      else topic \<in> {tp_mode ?t, tp_status ?t})"
    by (simp only: apply_snap_def if_distrib[of snd] case_prod_beta snd_conv setter_simps merge_if
        float_topics_def bool_topics_def insert_iff empty_iff disj_assoc if_True_False simp_thms)
  finally show "snd (apply_message topic p ts st) = \<dots>" .
  show "set (read_subscriptions ?t) = float_topics ?t \<union> bool_topics ?t \<union> {tp_mode ?t, tp_status ?t}"
    by (simp add: read_subscriptions_def float_topics_def bool_topics_def insert_commute)
  show "snd (apply_message topic p ts st) \<or> fst (apply_message topic p ts st) = st"
    using apply_snap_rejected[of ?t topic p ts "es_snap st"] by (auto simp: apply_message_def case_prod_beta)
qed

section \<open>Callbacks out of order\<close>

text \<open>The client lets the callbacks of two messages run in either order: if that of the earlier message
  runs last, its value stays, with the later instant.\<close>

lemma late_callback_wins:
  assumes "parse_float (trim_space earlier) = Some x"
  shows "sn_grid (es_snap (fst (apply_message (tp_grid_power (es_topics st)) earlier t2
      (fst (apply_message (tp_grid_power (es_topics st)) later t1 st))))) = \<lparr>m_value = x, m_at = t2, m_seen = True\<rparr>"
  using assms by (simp add: apply_message_def apply_snap_def set_float_def split_beta)

end
