(* ===== verification/Inputs.thy ===== *)
theory Inputs
  imports Policy Evcc
begin

text \<open>
  \<open>internal/controller/inputs.go\<close> and the \<open>ControlState\<close> of \<open>state.go\<close>: how an evcc snapshot,
  the configuration and the operator's settings become the inputs of the decision engine.
\<close>

record control_state =
  cs_override :: override
  cs_override_until :: time
  cs_cap_bypass :: bool
  cs_cap_bypass_soc :: int
  cs_charge_power :: string
  cs_auto_profile :: string
  cs_start_threshold :: "string \<rightharpoonup> f64"
  cs_target_soc :: "string \<rightharpoonup> int"

text \<open>Reading a missing key of a Go map gives the zero value.\<close>

definition map_get :: "'a \<Rightarrow> (string \<rightharpoonup> 'a) \<Rightarrow> string \<Rightarrow> 'a" where
  "map_get zero m k = (case m k of None \<Rightarrow> zero | Some v \<Rightarrow> v)"

definition latch_overrides :: "control_state \<Rightarrow> control \<Rightarrow> f64 \<times> int" where
  "latch_overrides cs cfg =
    (let profile = (if cs_auto_profile cs = '''' then cfg_auto_profile cfg else cs_auto_profile cs)
     in (map_get 0 (cs_start_threshold cs) profile, map_get 0 (cs_target_soc cs) profile))"

definition fresh :: "time \<Rightarrow> control \<Rightarrow> float_metric \<Rightarrow> bool" where
  "fresh now cfg m \<longleftrightarrow> m_seen m \<and> time_sub now (m_at m) \<le> cfg_stale_timeout cfg"

text \<open>
  \<open>oor\<close> is what converting a float outside the range of \<open>int\<close> gives, which Go leaves to the
  platform.
\<close>

definition inputs_from_snapshot ::
    "(f64 \<Rightarrow> int) \<Rightarrow> time \<Rightarrow> snapshot \<Rightarrow> control \<Rightarrow> control_state \<Rightarrow> inputs" where
  "inputs_from_snapshot oor now s cfg ctrl =
    (let ready = m_seen (sn_grid s) \<and> m_seen (sn_pv s) \<and> m_seen (sn_vehicle_soc s) \<and> m_seen (sn_connected s);
         stale = \<not> sn_broker_connected s \<or> (m_seen (sn_online s) \<and> \<not> m_value (sn_online s)) \<or>
                 \<not> fresh now cfg (sn_grid s) \<or> \<not> fresh now cfg (sn_pv s);
         (threshold, target) = latch_overrides ctrl cfg
     in \<lparr>in_grid = m_value (sn_grid s),
         in_pv = m_value (sn_pv s),
         in_home = m_value (sn_home s),
         in_battery = m_value (sn_battery_power s),
         in_charge = m_value (sn_charge_power s),
         in_battery_soc = f64_to_int oor (f64_round (m_value (sn_battery_soc s))),
         in_vehicle_soc = f64_to_int oor (f64_round (m_value (sn_vehicle_soc s))),
         in_vehicle_soc_known = m_seen (sn_vehicle_soc s),
         in_charging = m_value (sn_charging s),
         in_connected = m_value (sn_connected s),
         in_ready = ready,
         in_stale = stale,
         in_override = cs_override ctrl,
         in_override_until = cs_override_until ctrl,
         in_cap_bypass = cs_cap_bypass ctrl,
         in_cap_bypass_soc = cs_cap_bypass_soc ctrl,
         in_charge_power = cs_charge_power ctrl,
         in_auto_profile = cs_auto_profile ctrl,
         in_start_threshold = threshold,
         in_target_soc = target\<rparr>)"

lemma inputs_fields [simp]:
  "in_grid (inputs_from_snapshot oor now s cfg cs) = m_value (sn_grid s)"
  "in_pv (inputs_from_snapshot oor now s cfg cs) = m_value (sn_pv s)"
  "in_home (inputs_from_snapshot oor now s cfg cs) = m_value (sn_home s)"
  "in_battery (inputs_from_snapshot oor now s cfg cs) = m_value (sn_battery_power s)"
  "in_charge (inputs_from_snapshot oor now s cfg cs) = m_value (sn_charge_power s)"
  "in_vehicle_soc (inputs_from_snapshot oor now s cfg cs) = f64_to_int oor (f64_round (m_value (sn_vehicle_soc s)))"
  "in_vehicle_soc_known (inputs_from_snapshot oor now s cfg cs) = m_seen (sn_vehicle_soc s)"
  "in_charging (inputs_from_snapshot oor now s cfg cs) = m_value (sn_charging s)"
  "in_connected (inputs_from_snapshot oor now s cfg cs) = m_value (sn_connected s)"
  "in_override (inputs_from_snapshot oor now s cfg cs) = cs_override cs"
  "in_override_until (inputs_from_snapshot oor now s cfg cs) = cs_override_until cs"
  "in_cap_bypass (inputs_from_snapshot oor now s cfg cs) = cs_cap_bypass cs"
  "in_cap_bypass_soc (inputs_from_snapshot oor now s cfg cs) = cs_cap_bypass_soc cs"
  "in_charge_power (inputs_from_snapshot oor now s cfg cs) = cs_charge_power cs"
  "in_auto_profile (inputs_from_snapshot oor now s cfg cs) = cs_auto_profile cs"
  "in_start_threshold (inputs_from_snapshot oor now s cfg cs) = fst (latch_overrides cs cfg)"
  "in_target_soc (inputs_from_snapshot oor now s cfg cs) = snd (latch_overrides cs cfg)"
  by (simp_all add: inputs_from_snapshot_def Let_def case_prod_beta)

lemma inputs_stale:
  "in_stale (inputs_from_snapshot oor now s cfg cs) \<longleftrightarrow> \<not> sn_broker_connected s \<or>
     (m_seen (sn_online s) \<and> \<not> m_value (sn_online s)) \<or> \<not> fresh now cfg (sn_grid s) \<or> \<not> fresh now cfg (sn_pv s)"
  by (simp add: inputs_from_snapshot_def Let_def case_prod_beta)

lemma inputs_ready:
  "in_ready (inputs_from_snapshot oor now s cfg cs) \<longleftrightarrow>
     m_seen (sn_grid s) \<and> m_seen (sn_pv s) \<and> m_seen (sn_vehicle_soc s) \<and> m_seen (sn_connected s)"
  by (simp add: inputs_from_snapshot_def Let_def case_prod_beta)

lemma not_fresh_old:
  "cfg_stale_timeout cfg < now - m_at m \<Longrightarrow> cfg_stale_timeout cfg < int64_max \<Longrightarrow> \<not> fresh now cfg m"
  using clamp64_geI[of "cfg_stale_timeout cfg + 1" "now - m_at m"] by (auto simp: fresh_def time_sub_def)

text \<open>C4. Loss of data stops charging: whatever the override, the settings and the previous state,
  a tick on a snapshot whose broker connection is down, whose evcc is reported offline, or
  whose grid or PV reading is missing or older than the stale timeout decides \<open>failsafe\<close> and
  commands \<open>off\<close>.\<close>

theorem lost_data_stops:
  assumes "cfg_stale_timeout cfg < int64_max"
    and "\<not> sn_broker_connected s \<or> (m_seen (sn_online s) \<and> \<not> m_value (sn_online s)) \<or>
      (\<exists>m \<in> {sn_grid s, sn_pv s}. \<not> m_seen m \<or> cfg_stale_timeout cfg < now - m_at m)"
  shows "dec_state (decide now (inputs_from_snapshot oor now s cfg cs) st tm cfg) = StateFailSafe \<and>
    dec_mode (decide now (inputs_from_snapshot oor now s cfg cs) st tm cfg) = ModeOff \<and>
    dec_timers (decide now (inputs_from_snapshot oor now s cfg cs) st tm cfg) = reset_timers"
proof -
  have "in_stale (inputs_from_snapshot oor now s cfg cs)"
    using assms not_fresh_old[OF _ assms(1)] by (auto simp: inputs_stale fresh_def)
  then show ?thesis by (simp add: decide_stale)
qed

section \<open>Rounding the state of charge\<close>

lemma f64_round_to_int:
  assumes "0 \<le> q" "q \<le> 2 ^ 62"
  shows "f64_to_int oor (f64_round (Fin q)) = \<lfloor>q + 1 / 2\<rfloor>"
proof -
  have 0: "0 \<le> \<lfloor>q + 1 / 2\<rfloor>" using assms(1) by (simp add: le_floor_iff)
  have "q + 1 / 2 < of_int (2 ^ 62 + 1)" using assms(2) by simp
  then have 1: "\<lfloor>q + 1 / 2\<rfloor> \<le> 2 ^ 62" by (simp only: floor_less_iff flip: zle_add1_eq_le)
  have "in64 \<lfloor>q + 1 / 2\<rfloor>" using 0 1 by (intro in64_small) simp
  then show ?thesis
    using assms(1) 0 by (auto simp: f64_to_int_def f64_zero_def Let_def in64_def)
qed

text \<open>The state of charge the engine sees is the reading rounded half up, whatever the platform
  does out of range: an integer target is reached exactly from half a percent below it.\<close>

theorem vehicle_soc_rounded:
  assumes "m_value (sn_vehicle_soc s) = Fin q" and "0 \<le> q" "q \<le> 100"
  shows "in_vehicle_soc (inputs_from_snapshot oor now s cfg cs) = \<lfloor>q + 1 / 2\<rfloor> \<and>
    (target \<le> in_vehicle_soc (inputs_from_snapshot oor now s cfg cs)) = (of_int target - 1 / 2 \<le> q)"
proof -
  have "in_vehicle_soc (inputs_from_snapshot oor now s cfg cs) = \<lfloor>q + 1 / 2\<rfloor>"
    using assms by (simp add: f64_round_to_int del: f64_round.simps)
  then show ?thesis by (simp add: le_floor_iff algebra_simps)
qed

section \<open>Witnesses\<close>

definition demo_snapshot :: snapshot where
  "demo_snapshot = zero_snapshot\<lparr>sn_broker_connected := True,
     sn_grid := \<lparr>m_value = whole 0, m_at = 10, m_seen = True\<rparr>,
     sn_pv := \<lparr>m_value = whole 5000, m_at = 10, m_seen = True\<rparr>,
     sn_vehicle_soc := \<lparr>m_value = Fin (159 / 2), m_at = 10, m_seen = True\<rparr>,
     sn_connected := \<lparr>m_value = True, m_at = 10, m_seen = True\<rparr>\<rparr>"

definition demo_settings :: control_state where
  "demo_settings = \<lparr>cs_override = OverrideForceOn, cs_override_until = 0, cs_cap_bypass = False, cs_cap_bypass_soc = 0,
     cs_charge_power = EnableModeNow, cs_auto_profile = '''', cs_start_threshold = Map.empty, cs_target_soc = Map.empty\<rparr>"

theorem lost_data_stops_witness:
  "dec_mode (decide 61000000011 (inputs_from_snapshot (\<lambda>_. 0) 61000000011 demo_snapshot (c_control default_config)
     demo_settings) StateCharging reset_timers (c_control default_config)) = ModeOff"
  using lost_data_stops[of "c_control default_config" demo_snapshot 61000000011 "\<lambda>_. 0" demo_settings
      StateCharging reset_timers]
  by (simp add: default_config_def demo_snapshot_def duration_defs int64_max_def)

theorem vehicle_soc_rounded_witness:
  "in_vehicle_soc (inputs_from_snapshot (\<lambda>_. 0) 11 demo_snapshot (c_control default_config) demo_settings) = 80"
  using vehicle_soc_rounded[of demo_snapshot "159 / 2" "\<lambda>_. 0" 11 "c_control default_config" demo_settings 80]
  by (simp add: demo_snapshot_def)

end
