(* ===== verification/Interfaces.thy ===== *)
theory Interfaces
  imports Inputs Store
begin

text \<open>
  The interfaces of \<open>internal/controller/controller.go\<close> that change state, \<open>Commander\<close> and
  \<open>Recorder\<close>, as records of functions on an abstract state, and the contracts the controller
  relies on as locales.
\<close>

section \<open>Interfaces\<close>

record 'c commander =
  com_set_mode :: "string \<Rightarrow> 'c \<Rightarrow> 'c \<times> status"
  com_set_limit_soc :: "int \<Rightarrow> 'c \<Rightarrow> 'c \<times> status"

record 'r recorder =
  rec_insert_event :: "time event \<Rightarrow> 'r \<Rightarrow> 'r \<times> status"
  rec_insert_sample :: "(time, bool) sample \<Rightarrow> 'r \<Rightarrow> 'r \<times> status"
  rec_start_session :: "time \<Rightarrow> string \<Rightarrow> int option \<Rightarrow> 'r \<Rightarrow> 'r \<times> (error + int)"
  rec_update_session_metrics :: "int \<Rightarrow> f64 \<Rightarrow> f64 \<Rightarrow> f64 \<Rightarrow> 'r \<Rightarrow> 'r \<times> status"
  rec_end_session :: "int \<Rightarrow> time \<Rightarrow> string \<Rightarrow> int option \<Rightarrow> f64 \<Rightarrow> f64 \<Rightarrow> f64 \<Rightarrow> 'r \<Rightarrow> 'r \<times> status"
  rec_open_session :: "'r \<Rightarrow> 'r \<times> (error + (time, string) session option)"
  rec_prune_samples :: "time \<Rightarrow> 'r \<Rightarrow> 'r \<times> (error + int)"
  rec_prune_events :: "time \<Rightarrow> 'r \<Rightarrow> 'r \<times> (error + int)"
  rec_get_setting :: "string \<Rightarrow> 'r \<Rightarrow> 'r \<times> (error + string option)"
  rec_set_setting :: "string \<Rightarrow> string \<Rightarrow> 'r \<Rightarrow> 'r \<times> status"

section \<open>Contracts\<close>

text \<open>What the commander has had acknowledged, in order, as payloads.\<close>

datatype command = ModeCmd string | LimitCmd string

locale commander_contract =
  fixes ci :: "'c commander"
    and ready :: "'c \<Rightarrow> bool"
    and acked :: "'c \<Rightarrow> command list"
  assumes mode_acked: "ready s \<Longrightarrow> com_set_mode ci m s = (s', None) \<Longrightarrow> acked s' = acked s @ [ModeCmd m]"
    and mode_failed: "ready s \<Longrightarrow> com_set_mode ci m s = (s', Some e) \<Longrightarrow> acked s' = acked s"
    and limit_acked: "ready s \<Longrightarrow> com_set_limit_soc ci n s = (s', None) \<Longrightarrow> acked s' = acked s @ [LimitCmd (itoa n)]"
    and limit_failed: "ready s \<Longrightarrow> com_set_limit_soc ci n s = (s', Some e) \<Longrightarrow> acked s' = acked s"
    and ready_frame [simp]:
      "ready s \<Longrightarrow> ready (fst (com_set_mode ci m s))" "ready s \<Longrightarrow> ready (fst (com_set_limit_soc ci n s))"

text \<open>The settings: only a successful \<open>SetSetting\<close> changes them, and it changes one key.\<close>

locale settings_contract =
  fixes ri :: "'r recorder"
    and settings :: "'r \<Rightarrow> string \<rightharpoonup> string"
  assumes set_ok: "rec_set_setting ri k v r = (r', None) \<Longrightarrow> settings r' = (settings r)(k \<mapsto> v)"
    and set_failed: "rec_set_setting ri k v r = (r', Some e) \<Longrightarrow> settings r' = settings r"
    and get_ok: "rec_get_setting ri k r = (r', Inr x) \<Longrightarrow> x = settings r k"
    and settings_frame [simp]:
      "settings (fst (rec_get_setting ri k r)) = settings r"
      "settings (fst (rec_insert_event ri ev r)) = settings r"
      "settings (fst (rec_insert_sample ri sm r)) = settings r"
      "settings (fst (rec_start_session ri t reason soc r)) = settings r"
      "settings (fst (rec_update_session_metrics ri i en av pk r)) = settings r"
      "settings (fst (rec_end_session ri i t reason soc en av pk r)) = settings r"
      "settings (fst (rec_open_session ri r)) = settings r"
      "settings (fst (rec_prune_samples ri t r)) = settings r"
      "settings (fst (rec_prune_events ri t r)) = settings r"

text \<open>
  The charge sessions, seen as the set of ids of open rows, for states that satisfy the
  recorder's invariant \<open>valid\<close>. A failed start may have opened a row whose id was not reported.
\<close>

locale sessions_contract =
  fixes ri :: "'r recorder"
    and valid :: "'r \<Rightarrow> bool"
    and open_ids :: "'r \<Rightarrow> int set"
  assumes start_ok: "valid r \<Longrightarrow> rec_start_session ri t reason soc r = (r', Inr i) \<Longrightarrow>
      i \<noteq> 0 \<and> i \<notin> open_ids r \<and> open_ids r' = insert i (open_ids r)"
    and start_failed: "valid r \<Longrightarrow> rec_start_session ri t reason soc r = (r', Inl e) \<Longrightarrow> open_ids r \<subseteq> open_ids r'"
    and end_ok: "valid r \<Longrightarrow> rec_end_session ri i t reason soc en av pk r = (r', None) \<Longrightarrow>
      open_ids r' = open_ids r - {i}"
    and end_failed: "valid r \<Longrightarrow> rec_end_session ri i t reason soc en av pk r = (r', Some e) \<Longrightarrow>
      open_ids r - {i} \<subseteq> open_ids r' \<and> open_ids r' \<subseteq> open_ids r"
    and open_ok: "valid r \<Longrightarrow> rec_open_session ri r = (r', Inr x) \<Longrightarrow>
      (case x of None \<Rightarrow> open_ids r = {} | Some s \<Rightarrow> se_id s \<in> open_ids r)"
    and open_frame [simp]:
      "open_ids (fst (rec_get_setting ri k r)) = open_ids r"
      "open_ids (fst (rec_set_setting ri k v r)) = open_ids r"
      "open_ids (fst (rec_insert_event ri ev r)) = open_ids r"
      "open_ids (fst (rec_insert_sample ri sm r)) = open_ids r"
      "open_ids (fst (rec_update_session_metrics ri i en av pk r)) = open_ids r"
      "open_ids (fst (rec_open_session ri r)) = open_ids r"
      "open_ids (fst (rec_prune_samples ri t r)) = open_ids r"
      "open_ids (fst (rec_prune_events ri t r)) = open_ids r"
    and valid_frame [simp]:
      "valid r \<Longrightarrow> valid (fst (rec_get_setting ri k r))"
      "valid r \<Longrightarrow> valid (fst (rec_set_setting ri k v r))"
      "valid r \<Longrightarrow> valid (fst (rec_insert_event ri ev r))"
      "valid r \<Longrightarrow> valid (fst (rec_insert_sample ri sm r))"
      "valid r \<Longrightarrow> valid (fst (rec_start_session ri t reason soc r))"
      "valid r \<Longrightarrow> valid (fst (rec_update_session_metrics ri i en av pk r))"
      "valid r \<Longrightarrow> valid (fst (rec_end_session ri i t reason soc en av pk r))"
      "valid r \<Longrightarrow> valid (fst (rec_open_session ri r))"
      "valid r \<Longrightarrow> valid (fst (rec_prune_samples ri t r))"
      "valid r \<Longrightarrow> valid (fst (rec_prune_events ri t r))"

text \<open>The whole recorder.\<close>

locale recorder_contract = settings_contract ri settings + sessions_contract ri valid open_ids
  for ri :: "'r recorder"
    and settings :: "'r \<Rightarrow> string \<rightharpoonup> string"
    and valid :: "'r \<Rightarrow> bool"
    and open_ids :: "'r \<Rightarrow> int set"

text \<open>A recorder whose session calls succeed.\<close>

locale reliable_sessions = sessions_contract ri valid open_ids
  for ri :: "'r recorder"
    and valid :: "'r \<Rightarrow> bool"
    and open_ids :: "'r \<Rightarrow> int set" +
  assumes start_succeeds: "valid r \<Longrightarrow> \<exists>r' i. rec_start_session ri t reason soc r = (r', Inr i)"
    and end_succeeds: "valid r \<Longrightarrow> i \<in> open_ids r \<Longrightarrow> \<exists>r'. rec_end_session ri i t reason soc en av pk r = (r', None)"

end
