(* ===== verification/Controller.thy ===== *)
theory Controller
  imports Interfaces
begin

text \<open>
  \<open>internal/controller/controller.go\<close>: the decision loop with its side effects, and the
  operations of the web layer. The controller keeps the states of the \<open>Commander\<close> and of the
  \<open>Recorder\<close> it calls. A tick is split at its lock boundaries (\<open>tick_read\<close>, \<open>tick_commit\<close>,
  \<open>tick_effects\<close>), so that web operations can be placed between them. Logging is not modelled.
\<close>

section \<open>State\<close>

text \<open>Go's zero \<open>Inputs\<close>.\<close>

definition zero_inputs :: inputs where
  "zero_inputs = \<lparr>in_grid = 0, in_pv = 0, in_home = 0, in_battery = 0, in_charge = 0, in_battery_soc = 0,
     in_vehicle_soc = 0, in_vehicle_soc_known = False, in_charging = False, in_connected = False, in_ready = False,
     in_stale = False, in_override = OverrideOther '''', in_override_until = 0, in_cap_bypass = False,
     in_cap_bypass_soc = 0, in_charge_power = '''', in_auto_profile = '''', in_start_threshold = 0, in_target_soc = 0\<rparr>"

text \<open>The decision is \<open>None\<close> before the first tick (Go's zero \<open>Decision\<close>).\<close>

record ('c, 'r) controller =
  c_cfg :: control
  c_cmd :: 'c
  c_rec :: 'r
  c_state :: state
  c_timers :: timers
  c_ctrl :: control_state
  c_last_inputs :: inputs
  c_last_decision :: "decision option"
  c_last_surplus :: f64
  c_last_snapshot :: snapshot
  c_last_tick_at :: time
  c_last_mode :: string
  c_last_publish_at :: time
  c_limit_soc_set :: bool
  c_last_limit_soc :: int
  c_last_limit_publish_at :: time
  c_prev_broker_connected :: bool
  c_prev_online :: bool
  c_prev_charging :: bool
  c_session_id :: int
  c_session_peak :: f64
  c_session_energy :: f64
  c_session_sum :: f64
  c_session_ticks :: int

definition new_controller :: "control \<Rightarrow> 'c \<Rightarrow> 'r \<Rightarrow> ('c, 'r) controller" where
  "new_controller cfg cmd rc = \<lparr>c_cfg = cfg, c_cmd = cmd, c_rec = rc, c_state = StateIdle, c_timers = reset_timers,
     c_ctrl = \<lparr>cs_override = OverrideAuto, cs_override_until = 0, cs_cap_bypass = False, cs_cap_bypass_soc = 0,
       cs_charge_power = cfg_enable_mode cfg, cs_auto_profile = cfg_auto_profile cfg,
       cs_start_threshold = Map.empty, cs_target_soc = Map.empty\<rparr>,
     c_last_inputs = zero_inputs, c_last_decision = None, c_last_surplus = 0, c_last_snapshot = zero_snapshot,
     c_last_tick_at = 0, c_last_mode = '''', c_last_publish_at = 0, c_limit_soc_set = False, c_last_limit_soc = 0,
     c_last_limit_publish_at = 0, c_prev_broker_connected = False, c_prev_online = False, c_prev_charging = False,
     c_session_id = 0, c_session_peak = 0, c_session_energy = 0, c_session_sum = 0, c_session_ticks = 0\<rparr>"

section \<open>Recording\<close>

definition soc_ptr :: "int \<Rightarrow> bool \<Rightarrow> int option" where
  "soc_ptr v known = (if known then Some v else None)"

definition blank_event :: "time \<Rightarrow> string \<Rightarrow> time event" where
  "blank_event ts kind = \<lparr>ev_id = 0, ev_ts = ts, ev_type = kind, ev_from = '''', ev_to = '''', ev_action = '''',
     ev_surplus = 0, ev_grid = 0, ev_pv = 0, ev_battery_soc = 0, ev_battery = 0, ev_vehicle_soc = 0,
     ev_charge = 0, ev_detail = ''''\<rparr>"

definition record_event ::
    "'r recorder \<Rightarrow> time event \<Rightarrow> inputs \<Rightarrow> f64 \<Rightarrow> ('c, 'r) controller \<Rightarrow> ('c, 'r) controller" where
  "record_event ri e inp surplus c = c\<lparr>c_rec := fst (rec_insert_event ri
     (e\<lparr>ev_surplus := surplus, ev_grid := in_grid inp, ev_pv := in_pv inp, ev_battery_soc := in_battery_soc inp,
        ev_battery := in_battery inp, ev_vehicle_soc := in_vehicle_soc inp, ev_charge := in_charge inp\<rparr>) (c_rec c))\<rparr>"

definition record_sample ::
    "'r recorder \<Rightarrow> time \<Rightarrow> inputs \<Rightarrow> f64 \<Rightarrow> decision \<Rightarrow> ('c, 'r) controller \<Rightarrow> ('c, 'r) controller" where
  "record_sample ri now inp surplus dec c = c\<lparr>c_rec := fst (rec_insert_sample ri
     \<lparr>sm_id = 0, sm_ts = now, sm_grid = in_grid inp, sm_pv = in_pv inp, sm_home = in_home inp,
      sm_battery_soc = in_battery_soc inp, sm_battery = in_battery inp, sm_charge = in_charge inp,
      sm_vehicle_soc = in_vehicle_soc inp, sm_charging = in_charging inp, sm_mode = dec_mode dec,
      sm_surplus = surplus, sm_state = state_str (dec_state dec)\<rparr> (c_rec c))\<rparr>"

section \<open>Publishing\<close>

definition publish_mode ::
    "'c commander \<Rightarrow> 'r recorder \<Rightarrow> time \<Rightarrow> decision \<Rightarrow> inputs \<Rightarrow> f64 \<Rightarrow> bool \<Rightarrow> ('c, 'r) controller \<Rightarrow> ('c, 'r) controller" where
  "publish_mode ci ri now dec inp surplus force c =
    (if dec_mode dec = c_last_mode c \<and> \<not> force \<and> time_sub now (c_last_publish_at c) < cfg_republish (c_cfg c) then c
     else
       let changed = dec_mode dec \<noteq> c_last_mode c
       in case com_set_mode ci (dec_mode dec) (c_cmd c) of
         (cmd, Some err) \<Rightarrow> c\<lparr>c_cmd := cmd\<rparr>
       | (cmd, None) \<Rightarrow>
           let c = c\<lparr>c_cmd := cmd\<rparr>;
               c = (if changed then record_event ri ((blank_event now ''command'')\<lparr>
                      ev_action := ''set_mode:'' @ dec_mode dec, ev_detail := dec_reason dec\<rparr>) inp surplus c else c)
           in c\<lparr>c_last_mode := dec_mode dec, c_last_publish_at := now\<rparr>)"

definition publish_limit_soc ::
    "'c commander \<Rightarrow> 'r recorder \<Rightarrow> time \<Rightarrow> int \<Rightarrow> inputs \<Rightarrow> f64 \<Rightarrow> bool \<Rightarrow> bool \<Rightarrow> ('c, 'r) controller \<Rightarrow> ('c, 'r) controller" where
  "publish_limit_soc ci ri now target inp surplus broker_connected force c =
    (if \<not> broker_connected then c
     else
       let changed = target \<noteq> c_last_limit_soc c in
       if c_limit_soc_set c \<and> \<not> changed \<and> \<not> force \<and>
          time_sub now (c_last_limit_publish_at c) < cfg_republish (c_cfg c) then c
       else case com_set_limit_soc ci target (c_cmd c) of
         (cmd, Some err) \<Rightarrow> c\<lparr>c_cmd := cmd\<rparr>
       | (cmd, None) \<Rightarrow>
           let c = c\<lparr>c_cmd := cmd\<rparr>;
               c = (if changed \<and> c_limit_soc_set c then record_event ri ((blank_event now ''command'')\<lparr>
                      ev_action := ''set_limit_soc:'' @ itoa target\<rparr>) inp surplus c else c)
           in c\<lparr>c_limit_soc_set := True, c_last_limit_soc := target, c_last_limit_publish_at := now\<rparr>)"

section \<open>Charge sessions\<close>

definition start_reason_for :: "time \<Rightarrow> inputs \<Rightarrow> string" where
  "start_reason_for now inp = (if override_active now inp then ''override'' else ''surplus'')"

fun stop_reason_for :: "time \<Rightarrow> state \<Rightarrow> inputs \<Rightarrow> string" where
  "stop_reason_for now StateSocReached inp = ''soc_cap''"
| "stop_reason_for now StateFailSafe inp = ''stale''"
| "stop_reason_for now _ inp = (if override_active now inp then ''override'' else ''surplus_low'')"

text \<open>\<open>time.Duration.Hours\<close>: whole hours plus the rest, with truncating division.\<close>

definition duration_hours :: "duration \<Rightarrow> f64" where
  "duration_hours d = f64_of_int (sgn d * (\<bar>d\<bar> div hour)) + f64_div (f64_of_int (sgn d * (\<bar>d\<bar> mod hour))) (f64_of_int hour)"

definition close_session ::
    "'r recorder \<Rightarrow> time \<Rightarrow> inputs \<Rightarrow> string \<Rightarrow> ('c, 'r) controller \<Rightarrow> ('c, 'r) controller" where
  "close_session ri now inp reason c =
    (if c_session_id c = 0 then c
     else
       let avg = (if 0 < c_session_ticks c then f64_div (c_session_sum c) (f64_of_int (c_session_ticks c)) else 0)
       in c\<lparr>c_rec := fst (rec_end_session ri (c_session_id c) now reason
              (soc_ptr (in_vehicle_soc inp) (in_vehicle_soc_known inp)) (c_session_energy c) avg (c_session_peak c) (c_rec c)),
            c_session_id := 0\<rparr>)"

definition open_new_session :: "'r recorder \<Rightarrow> time \<Rightarrow> inputs \<Rightarrow> ('c, 'r) controller \<Rightarrow> ('c, 'r) controller" where
  "open_new_session ri now inp c =
    (let c = c\<lparr>c_session_peak := 0, c_session_energy := 0, c_session_sum := 0, c_session_ticks := 0\<rparr>
     in case rec_start_session ri now (start_reason_for now inp)
          (soc_ptr (in_vehicle_soc inp) (in_vehicle_soc_known inp)) (c_rec c) of
        (r, Inl err) \<Rightarrow> c\<lparr>c_rec := r\<rparr>
      | (r, Inr i) \<Rightarrow> c\<lparr>c_rec := r, c_session_id := i\<rparr>)"

definition accumulate :: "'r recorder \<Rightarrow> inputs \<Rightarrow> ('c, 'r) controller \<Rightarrow> ('c, 'r) controller" where
  "accumulate ri inp c =
    (let dt = duration_hours (cfg_decision_interval (c_cfg c));
         c = c\<lparr>c_session_energy := c_session_energy c + in_charge inp * dt,
               c_session_sum := c_session_sum c + in_charge inp,
               c_session_ticks := add64 (c_session_ticks c) 1,
               c_session_peak := (if c_session_peak c < in_charge inp then in_charge inp else c_session_peak c)\<rparr>
     in if c_session_id c \<noteq> 0 then
          let avg = f64_div (c_session_sum c) (f64_of_int (c_session_ticks c))
          in c\<lparr>c_rec := fst (rec_update_session_metrics ri (c_session_id c) (c_session_energy c) avg (c_session_peak c) (c_rec c))\<rparr>
        else c)"

definition track_session ::
    "'r recorder \<Rightarrow> time \<Rightarrow> inputs \<Rightarrow> state \<Rightarrow> ('c, 'r) controller \<Rightarrow> ('c, 'r) controller" where
  "track_session ri now inp st c =
    (let c = (if in_charging inp \<and> \<not> c_prev_charging c then open_new_session ri now inp c
              else if \<not> in_charging inp \<and> c_prev_charging c then close_session ri now inp (stop_reason_for now st inp) c
              else c);
         c = (if in_charging inp \<and> \<not> in_stale inp then accumulate ri inp c else c)
     in c\<lparr>c_prev_charging := in_charging inp\<rparr>)"

text \<open>Closing the session a previous run left open.\<close>

definition recover_dangling_session :: "'r recorder \<Rightarrow> time \<Rightarrow> ('c, 'r) controller \<Rightarrow> ('c, 'r) controller" where
  "recover_dangling_session ri now c =
    (case rec_open_session ri (c_rec c) of
       (r, Inl err) \<Rightarrow> c\<lparr>c_rec := r\<rparr>
     | (r, Inr None) \<Rightarrow> c\<lparr>c_rec := r\<rparr>
     | (r, Inr (Some s)) \<Rightarrow>
         c\<lparr>c_rec := fst (rec_end_session ri (se_id s) now ''restart'' None (se_energy s) (se_avg s) (se_peak s) r)\<rparr>)"

definition prune :: "'r recorder \<Rightarrow> time \<Rightarrow> ('c, 'r) controller \<Rightarrow> ('c, 'r) controller" where
  "prune ri now c =
    (let before = time_add now (- cfg_retention_window (c_cfg c));
         r = fst (rec_prune_samples ri before (c_rec c))
     in c\<lparr>c_rec := fst (rec_prune_events ri before r)\<rparr>)"

section \<open>The tick\<close>

text \<open>What the first critical section copies: the operator's settings (with cloned maps) and the
  engine's state.\<close>

record tick_view =
  tv_ctrl :: control_state
  tv_state :: state
  tv_timers :: timers

definition tick_read :: "('c, 'r) controller \<Rightarrow> tick_view" where
  "tick_read c = \<lparr>tv_ctrl = c_ctrl c, tv_state = c_state c, tv_timers = c_timers c\<rparr>"

text \<open>The pure computation between the two critical sections.\<close>

record tick_plan =
  pl_inputs :: inputs
  pl_decision :: decision
  pl_surplus :: f64
  pl_limit_target :: int
  pl_expire :: bool

definition tick_decide :: "(f64 \<Rightarrow> int) \<Rightarrow> time \<Rightarrow> snapshot \<Rightarrow> control \<Rightarrow> tick_view \<Rightarrow> tick_plan" where
  "tick_decide oor now snap cfg v =
    (let inp = inputs_from_snapshot oor now snap cfg (tv_ctrl v)
     in \<lparr>pl_inputs = inp,
         pl_decision = decide now inp (tv_state v) (tv_timers v) cfg,
         pl_surplus = surplus_of inp,
         pl_limit_target = limit_soc_target now inp cfg,
         pl_expire = (cs_override (tv_ctrl v) \<noteq> OverrideAuto \<and> \<not> override_active now inp)\<rparr>)"

text \<open>The second critical section.\<close>

definition tick_commit ::
    "time \<Rightarrow> snapshot \<Rightarrow> tick_view \<Rightarrow> tick_plan \<Rightarrow> ('c, 'r) controller \<Rightarrow> ('c, 'r) controller" where
  "tick_commit now snap v p c = c\<lparr>
     c_state := dec_state (pl_decision p),
     c_timers := dec_timers (pl_decision p),
     c_ctrl := (if pl_expire p \<and> cs_override (c_ctrl c) = cs_override (tv_ctrl v) \<and>
                   cs_override_until (c_ctrl c) = cs_override_until (tv_ctrl v) \<and>
                   cs_cap_bypass (c_ctrl c) = cs_cap_bypass (tv_ctrl v)
                then (c_ctrl c)\<lparr>cs_override := OverrideAuto, cs_override_until := 0, cs_cap_bypass := False,
                       cs_cap_bypass_soc := 0\<rparr>
                else c_ctrl c),
     c_last_inputs := pl_inputs p,
     c_last_decision := Some (pl_decision p),
     c_last_surplus := pl_surplus p,
     c_last_snapshot := snap,
     c_last_tick_at := now\<rparr>"

text \<open>The loop-owned part: edges, audit log, publishing, sessions, sample.\<close>

definition tick_effects ::
    "'c commander \<Rightarrow> 'r recorder \<Rightarrow> time \<Rightarrow> snapshot \<Rightarrow> tick_view \<Rightarrow> tick_plan \<Rightarrow> ('c, 'r) controller \<Rightarrow> ('c, 'r) controller" where
  "tick_effects ci ri now snap v p c =
    (let inp = pl_inputs p; dec = pl_decision p; surplus = pl_surplus p;
         reconnected = sn_broker_connected snap \<and> \<not> c_prev_broker_connected c;
         online_edge = m_value (sn_online snap) \<and> \<not> c_prev_online c;
         c = c\<lparr>c_prev_broker_connected := sn_broker_connected snap, c_prev_online := m_value (sn_online snap)\<rparr>;
         force = reconnected \<or> online_edge;
         c = (if dec_state dec \<noteq> tv_state v then record_event ri ((blank_event now ''state_change'')\<lparr>
                ev_from := state_str (tv_state v), ev_to := state_str (dec_state dec), ev_detail := dec_reason dec\<rparr>) inp surplus c
              else c);
         c = publish_mode ci ri now dec inp surplus force c;
         c = publish_limit_soc ci ri now (pl_limit_target p) inp surplus (sn_broker_connected snap) force c;
         c = track_session ri now inp (dec_state dec) c
     in record_sample ri now inp surplus dec c)"

definition tick ::
    "(f64 \<Rightarrow> int) \<Rightarrow> 'c commander \<Rightarrow> 'r recorder \<Rightarrow> time \<Rightarrow> snapshot \<Rightarrow> ('c, 'r) controller \<Rightarrow> ('c, 'r) controller" where
  "tick oor ci ri now snap c =
    (let v = tick_read c; p = tick_decide oor now snap (c_cfg c) v
     in tick_effects ci ri now snap v p (tick_commit now snap v p c))"

section \<open>Operations of the web layer\<close>

definition audit :: "'r recorder \<Rightarrow> time \<Rightarrow> string \<Rightarrow> string \<Rightarrow> ('c, 'r) controller \<Rightarrow> ('c, 'r) controller" where
  "audit ri now kind action c =
     c\<lparr>c_rec := fst (rec_insert_event ri ((blank_event now kind)\<lparr>ev_action := action\<rparr>) (c_rec c))\<rparr>"

definition set_override ::
    "'r recorder \<Rightarrow> time \<Rightarrow> override \<Rightarrow> time \<Rightarrow> bool \<Rightarrow> int \<Rightarrow> ('c, 'r) controller \<Rightarrow> ('c, 'r) controller" where
  "set_override ri now mode until cap_bypass cap_bypass_soc c =
    (let cap_bypass = (if mode \<noteq> OverrideForceOn then False else cap_bypass);
         cap_bypass_soc = (if \<not> cap_bypass then 0 else cap_bypass_soc);
         c = c\<lparr>c_ctrl := (c_ctrl c)\<lparr>cs_override := mode, cs_override_until := until, cs_cap_bypass := cap_bypass,
               cs_cap_bypass_soc := cap_bypass_soc\<rparr>\<rparr>;
         action = ''override:'' @ override_str mode @ (if cap_bypass then '':past_cap'' else '''')
     in audit ri now ''override'' action c)"

definition charge_power_setting :: string where "charge_power_setting = ''charge_power''"
definition auto_profile_setting :: string where "auto_profile_setting = ''auto_profile''"
definition start_threshold_key_prefix :: string where "start_threshold_key_prefix = ''start_threshold_w:''"
definition target_soc_key_prefix :: string where "target_soc_key_prefix = ''target_soc:''"

definition setting_key :: "string \<Rightarrow> string \<Rightarrow> string" where
  "setting_key prefix profile = prefix @ profile"

definition latch_profiles :: "string list" where
  "latch_profiles = [AutoProfilePowerLatch, AutoProfileSurplusLatch]"

definition valid_charge_power :: "string \<Rightarrow> bool" where
  "valid_charge_power mode \<longleftrightarrow> mode = EnableModePV \<or> mode = EnableModeNow"

definition valid_auto_profile :: "string \<Rightarrow> bool" where
  "valid_auto_profile p \<longleftrightarrow> p = AutoProfileSurplus \<or> p = AutoProfilePowerLatch \<or> p = AutoProfileSurplusLatch"

definition set_charge_power ::
    "'r recorder \<Rightarrow> time \<Rightarrow> string \<Rightarrow> ('c, 'r) controller \<Rightarrow> ('c, 'r) controller \<times> status" where
  "set_charge_power ri now mode c =
    (if \<not> valid_charge_power mode then (c, Some (Wrapped mode ErrInvalidChargePower))
     else case rec_set_setting ri charge_power_setting mode (c_rec c) of
       (r, Some err) \<Rightarrow> (c\<lparr>c_rec := r\<rparr>, Some (Wrapped ''persist charge power'' err))
     | (r, None) \<Rightarrow>
         (audit ri now ''command'' (''charge_power:'' @ mode)
            (c\<lparr>c_rec := r, c_ctrl := (c_ctrl c)\<lparr>cs_charge_power := mode\<rparr>\<rparr>), None))"

definition load_charge_power :: "'r recorder \<Rightarrow> ('c, 'r) controller \<Rightarrow> ('c, 'r) controller" where
  "load_charge_power ri c =
    (case rec_get_setting ri charge_power_setting (c_rec c) of
       (r, Inl err) \<Rightarrow> c\<lparr>c_rec := r\<rparr>
     | (r, Inr None) \<Rightarrow> c\<lparr>c_rec := r\<rparr>
     | (r, Inr (Some mode)) \<Rightarrow>
         if \<not> valid_charge_power mode then c\<lparr>c_rec := r\<rparr>
         else c\<lparr>c_rec := r, c_ctrl := (c_ctrl c)\<lparr>cs_charge_power := mode\<rparr>\<rparr>)"

definition set_auto_profile ::
    "'r recorder \<Rightarrow> time \<Rightarrow> string \<Rightarrow> ('c, 'r) controller \<Rightarrow> ('c, 'r) controller \<times> status" where
  "set_auto_profile ri now profile c =
    (if \<not> valid_auto_profile profile then (c, Some (Wrapped profile ErrInvalidAutoProfile))
     else case rec_set_setting ri auto_profile_setting profile (c_rec c) of
       (r, Some err) \<Rightarrow> (c\<lparr>c_rec := r\<rparr>, Some (Wrapped ''persist auto profile'' err))
     | (r, None) \<Rightarrow>
         (audit ri now ''command'' (''auto_profile:'' @ profile)
            (c\<lparr>c_rec := r, c_ctrl := (c_ctrl c)\<lparr>cs_auto_profile := profile\<rparr>\<rparr>), None))"

definition load_auto_profile :: "'r recorder \<Rightarrow> ('c, 'r) controller \<Rightarrow> ('c, 'r) controller" where
  "load_auto_profile ri c =
    (case rec_get_setting ri auto_profile_setting (c_rec c) of
       (r, Inl err) \<Rightarrow> c\<lparr>c_rec := r\<rparr>
     | (r, Inr None) \<Rightarrow> c\<lparr>c_rec := r\<rparr>
     | (r, Inr (Some profile)) \<Rightarrow>
         if \<not> valid_auto_profile profile then c\<lparr>c_rec := r\<rparr>
         else c\<lparr>c_rec := r, c_ctrl := (c_ctrl c)\<lparr>cs_auto_profile := profile\<rparr>\<rparr>)"

text \<open>The active profile, falling back to the configuration.\<close>

definition active_profile :: "('c, 'r) controller \<Rightarrow> string" where
  "active_profile c = (if cs_auto_profile (c_ctrl c) = '''' then cfg_auto_profile (c_cfg c) else cs_auto_profile (c_ctrl c))"

definition is_latch_profile :: "string \<Rightarrow> bool" where
  "is_latch_profile p \<longleftrightarrow> p = AutoProfilePowerLatch \<or> p = AutoProfileSurplusLatch"

text \<open>A positive multiple of 100 W.\<close>

definition threshold_step_ok :: "f64 \<Rightarrow> bool" where
  "threshold_step_ok w \<longleftrightarrow> \<not> (w \<le> 0 \<or> \<not> f64_eq (f64_mod w (Fin 100)) 0)"

definition set_start_threshold ::
    "'r recorder \<Rightarrow> time \<Rightarrow> f64 \<Rightarrow> ('c, 'r) controller \<Rightarrow> ('c, 'r) controller \<times> status" where
  "set_start_threshold ri now w c =
    (if \<not> threshold_step_ok w then (c, Some (Wrapped ''step'' ErrInvalidStartThreshold))
     else if w \<le> cfg_stop_threshold (c_cfg c) then (c, Some (Wrapped ''stop threshold'' ErrInvalidStartThreshold))
     else let profile = active_profile c in
       if \<not> is_latch_profile profile then (c, Some (Wrapped profile ErrInvalidStartThreshold))
       else case rec_set_setting ri (setting_key start_threshold_key_prefix profile) (format_float w) (c_rec c) of
         (r, Some err) \<Rightarrow> (c\<lparr>c_rec := r\<rparr>, Some (Wrapped ''persist start threshold'' err))
       | (r, None) \<Rightarrow>
           (audit ri now ''command'' (''start_threshold:'' @ profile @ '':'' @ format_float w)
              (c\<lparr>c_rec := r, c_ctrl := (c_ctrl c)\<lparr>cs_start_threshold := (cs_start_threshold (c_ctrl c))(profile \<mapsto> w)\<rparr>\<rparr>), None))"

definition load_start_threshold_of ::
    "'r recorder \<Rightarrow> string \<Rightarrow> ('c, 'r) controller \<Rightarrow> ('c, 'r) controller" where
  "load_start_threshold_of ri profile c =
    (case rec_get_setting ri (setting_key start_threshold_key_prefix profile) (c_rec c) of
       (r, Inl err) \<Rightarrow> c\<lparr>c_rec := r\<rparr>
     | (r, Inr None) \<Rightarrow> c\<lparr>c_rec := r\<rparr>
     | (r, Inr (Some raw)) \<Rightarrow>
        (case parse_float raw of
           None \<Rightarrow> c\<lparr>c_rec := r\<rparr>
         | Some w \<Rightarrow>
            if \<not> threshold_step_ok w \<or> w \<le> cfg_stop_threshold (c_cfg c) then c\<lparr>c_rec := r\<rparr>
            else c\<lparr>c_rec := r, c_ctrl := (c_ctrl c)\<lparr>cs_start_threshold := (cs_start_threshold (c_ctrl c))(profile \<mapsto> w)\<rparr>\<rparr>))"

definition load_start_threshold :: "'r recorder \<Rightarrow> ('c, 'r) controller \<Rightarrow> ('c, 'r) controller" where
  "load_start_threshold ri c = fold (load_start_threshold_of ri) latch_profiles c"

text \<open>Go's \<open>%\<close> truncates, but on the tested range of positive numbers it is \<open>mod\<close>.\<close>

definition target_soc_ok :: "int \<Rightarrow> bool" where
  "target_soc_ok pct \<longleftrightarrow> \<not> (pct < 50 \<or> 100 < pct \<or> pct mod 10 \<noteq> 0)"

definition set_target_soc ::
    "'r recorder \<Rightarrow> time \<Rightarrow> int \<Rightarrow> ('c, 'r) controller \<Rightarrow> ('c, 'r) controller \<times> status" where
  "set_target_soc ri now pct c =
    (if \<not> target_soc_ok pct then (c, Some (Wrapped ''step'' ErrInvalidTargetSoC))
     else let profile = active_profile c in
       if \<not> is_latch_profile profile then (c, Some (Wrapped profile ErrInvalidTargetSoC))
       else case rec_set_setting ri (setting_key target_soc_key_prefix profile) (itoa pct) (c_rec c) of
         (r, Some err) \<Rightarrow> (c\<lparr>c_rec := r\<rparr>, Some (Wrapped ''persist target SoC'' err))
       | (r, None) \<Rightarrow>
           (audit ri now ''command'' (''target_soc:'' @ profile @ '':'' @ itoa pct)
              (c\<lparr>c_rec := r, c_ctrl := (c_ctrl c)\<lparr>cs_target_soc := (cs_target_soc (c_ctrl c))(profile \<mapsto> pct)\<rparr>\<rparr>), None))"

definition load_target_soc_of ::
    "'r recorder \<Rightarrow> string \<Rightarrow> ('c, 'r) controller \<Rightarrow> ('c, 'r) controller" where
  "load_target_soc_of ri profile c =
    (case rec_get_setting ri (setting_key target_soc_key_prefix profile) (c_rec c) of
       (r, Inl err) \<Rightarrow> c\<lparr>c_rec := r\<rparr>
     | (r, Inr None) \<Rightarrow> c\<lparr>c_rec := r\<rparr>
     | (r, Inr (Some raw)) \<Rightarrow>
        (case atoi raw of (pct, ok) \<Rightarrow>
           if \<not> ok \<or> \<not> target_soc_ok pct then c\<lparr>c_rec := r\<rparr>
           else c\<lparr>c_rec := r, c_ctrl := (c_ctrl c)\<lparr>cs_target_soc := (cs_target_soc (c_ctrl c))(profile \<mapsto> pct)\<rparr>\<rparr>))"

definition load_target_soc :: "'r recorder \<Rightarrow> ('c, 'r) controller \<Rightarrow> ('c, 'r) controller" where
  "load_target_soc ri c = fold (load_target_soc_of ri) latch_profiles c"

section \<open>Startup\<close>

text \<open>What \<open>Run\<close> does before its loop, then its first tick.\<close>

definition startup :: "'r recorder \<Rightarrow> time \<Rightarrow> ('c, 'r) controller \<Rightarrow> ('c, 'r) controller" where
  "startup ri now c =
    (let c = recover_dangling_session ri now c;
         c = load_charge_power ri c;
         c = load_auto_profile ri c;
         c = load_start_threshold ri c
     in load_target_soc ri c)"

definition run_ticks_loop ::
    "(f64 \<Rightarrow> int) \<Rightarrow> 'c commander \<Rightarrow> 'r recorder \<Rightarrow> (time \<times> snapshot) list \<Rightarrow> ('c, 'r) controller \<Rightarrow> ('c, 'r) controller" where
  "run_ticks_loop oor ci ri ticks c = fold (\<lambda>(now, snap). tick oor ci ri now snap) ticks c"

section \<open>Status\<close>

record status_view =
  sv_state :: state
  sv_desired_mode :: string
  sv_reason :: string
  sv_reason_code :: "reason_code option"
  sv_override :: override
  sv_override_until :: time
  sv_cap_bypass :: bool
  sv_cap_bypass_soc :: int
  sv_charge_power :: string
  sv_auto_profile :: string
  sv_start_threshold :: f64
  sv_target_soc :: int
  sv_soc_cap :: int
  sv_soc_max :: int
  sv_surplus :: f64
  sv_inputs :: inputs
  sv_snapshot :: snapshot
  sv_updated_at :: time

definition status_of :: "('c, 'r) controller \<Rightarrow> status_view" where
  "status_of c =
    (let (threshold, target) = latch_overrides (c_ctrl c) (c_cfg c);
         eff = zero_inputs\<lparr>in_auto_profile := cs_auto_profile (c_ctrl c), in_start_threshold := threshold,
                 in_target_soc := target\<rparr>
     in \<lparr>sv_state = c_state c,
         sv_desired_mode = (case c_last_decision c of None \<Rightarrow> '''' | Some d \<Rightarrow> dec_mode d),
         sv_reason = (case c_last_decision c of None \<Rightarrow> '''' | Some d \<Rightarrow> dec_reason d),
         sv_reason_code = map_option dec_reason_code (c_last_decision c),
         sv_override = cs_override (c_ctrl c),
         sv_override_until = cs_override_until (c_ctrl c),
         sv_cap_bypass = cs_cap_bypass (c_ctrl c),
         sv_cap_bypass_soc = cs_cap_bypass_soc (c_ctrl c),
         sv_charge_power = cs_charge_power (c_ctrl c),
         sv_auto_profile = effective_profile eff (c_cfg c),
         sv_start_threshold = effective_start_threshold eff (c_cfg c),
         sv_target_soc = effective_target_soc eff (c_cfg c),
         sv_soc_cap = cfg_soc_cap (c_cfg c),
         sv_soc_max = cfg_soc_max (c_cfg c),
         sv_surplus = c_last_surplus c,
         sv_inputs = c_last_inputs c,
         sv_snapshot = c_last_snapshot c,
         sv_updated_at = c_last_tick_at c\<rparr>)"

end
