(* ===== verification/Updater.thy ===== *)
theory Updater
  imports Strconv Config
begin

text \<open>
  \<open>internal/updater/updater.go\<close>: finding the newest released version on the registry and asking
  the sidecar for an update through a request file. The registry's HTTP replies, the outcomes
  of file operations, the sidecar's status file and the clock are parameters; \<open>sort.Slice\<close> is
  a sorting function that is only known to sort.
\<close>

section \<open>Versions\<close>

text \<open>\<open>^[0-9]+\.[0-9]+\.[0-9]+$\<close>.\<close>

definition digits_only :: "string \<Rightarrow> bool" where
  "digits_only s \<longleftrightarrow> s \<noteq> [] \<and> list_all is_digit s"

definition semver_ok :: "string \<Rightarrow> bool" where
  "semver_ok v \<longleftrightarrow> (case split_on CHR ''.'' v of [a, b, c] \<Rightarrow> digits_only a \<and> digits_only b \<and> digits_only c | _ \<Rightarrow> False)"

text \<open>The loop over the three components; \<open>None\<close> is the panic of an index out of range.\<close>

fun compare_parts :: "nat \<Rightarrow> string list \<Rightarrow> string list \<Rightarrow> int option" where
  "compare_parts 0 pa pb = Some 0"
| "compare_parts (Suc n) (a # pa) (b # pb) =
    (let na = fst (atoi a); nb = fst (atoi b)
     in if na \<noteq> nb then Some (if nb < na then 1 else - 1) else compare_parts n pa pb)"
| "compare_parts (Suc n) pa pb = None"

definition compare_semver :: "string \<Rightarrow> string \<Rightarrow> int option" where
  "compare_semver a b = compare_parts 3 (split_on CHR ''.'' a) (split_on CHR ''.'' b)"

definition newer :: "string \<Rightarrow> string \<Rightarrow> bool" where
  "newer current latest =
    (if \<not> semver_ok current \<or> \<not> semver_ok latest then False
     else case compare_semver latest current of Some c \<Rightarrow> 0 < c | None \<Rightarrow> False)"

text \<open>\<open>sort.Slice\<close> with a less function.\<close>

type_synonym slice_sort = "(string \<Rightarrow> string \<Rightarrow> bool) \<Rightarrow> string list \<Rightarrow> string list"

definition descending :: "string \<Rightarrow> string \<Rightarrow> bool" where
  "descending a b \<longleftrightarrow> (case compare_semver a b of Some c \<Rightarrow> 0 < c | None \<Rightarrow> False)"

definition max_semver :: "slice_sort \<Rightarrow> string list \<Rightarrow> string" where
  "max_semver slice tags =
    (let semver = filter semver_ok tags in if semver = [] then '''' else hd (slice descending semver))"

section \<open>The registry\<close>

datatype fetch_error = BuildRequest | SendRequest | BadStatus string | DecodeBody | EmptyToken

text \<open>
  What comes of one GET request: it could not be built, got no response, or a response with its
  status code and line, the JSON body as far as it decodes, and the \<open>Link\<close> header.
\<close>

datatype 'b http_reply = NoRequest | NoResponse | Response int string "'b option" string

text \<open>The replies to the token request and to the n-th page request, by URL and token.\<close>

record registry =
  rg_token :: "string \<Rightarrow> string http_reply"
  rg_page :: "nat \<Rightarrow> string \<Rightarrow> string \<Rightarrow> string list http_reply"

fun decode_reply :: "'b http_reply \<Rightarrow> fetch_error + 'b \<times> string" where
  "decode_reply NoRequest = Inl BuildRequest"
| "decode_reply NoResponse = Inl SendRequest"
| "decode_reply (Response code status body link) =
    (if code \<noteq> 200 then Inl (BadStatus status)
     else case body of None \<Rightarrow> Inl DecodeBody | Some b \<Rightarrow> Inr (b, link))"

definition fetch_pull_token :: "registry \<Rightarrow> string \<Rightarrow> string \<Rightarrow> fetch_error + string" where
  "fetch_pull_token rg base repo =
    (case decode_reply (rg_token rg (base @ ''/token?scope=repository:'' @ repo @ '':pull&service=ghcr.io'')) of
       Inl e \<Rightarrow> Inl e
     | Inr (t, _) \<Rightarrow> if t = '''' then Inl EmptyToken else Inr t)"

definition fetch_tags_page :: "registry \<Rightarrow> nat \<Rightarrow> string \<Rightarrow> string \<Rightarrow> fetch_error + string list \<times> string" where
  "fetch_tags_page rg page url token = decode_reply (rg_page rg page url token)"

definition rel_next :: "string list \<Rightarrow> bool" where
  "rel_next params \<longleftrightarrow> list_ex (\<lambda>p. filter (\<lambda>c. c \<noteq> CHR 0x22) (trim_space p) = ''rel=next'') params"

definition link_target :: "string \<Rightarrow> string \<Rightarrow> string option" where
  "link_target base part =
    (let segs = split_on CHR '';'' part in
     if length segs < 2 then None
     else let url_part = trim_space (hd segs) in
       if \<not> has_prefix url_part ''<'' \<or> \<not> has_suffix url_part ''>'' then None
       else if \<not> rel_next (tl segs) then None
       else let u = butlast (tl url_part) in
         Some (if has_prefix u ''http://'' \<or> has_prefix u ''https://'' then u
               else trim_right_byte CHR ''/'' base @ ''/'' @ trim_left_byte CHR ''/'' u))"

definition next_link :: "string \<Rightarrow> string \<Rightarrow> string" where
  "next_link header base =
    (case List.map_filter (link_target base) (split_on CHR '','' header) of [] \<Rightarrow> '''' | u # _ \<Rightarrow> u)"

definition max_tag_pages :: nat where "max_tag_pages = 100"

text \<open>The loop with the pages left; the URLs requested are kept beside the result.\<close>

fun fetch_pages :: "nat \<Rightarrow> registry \<Rightarrow> string \<Rightarrow> string \<Rightarrow> nat \<Rightarrow> string \<Rightarrow> string list \<Rightarrow> string list \<times> (fetch_error + string list)" where
  "fetch_pages 0 rg base token page url acc = ([], Inr acc)"
| "fetch_pages (Suc n) rg base token page url acc =
    (if url = '''' then ([], Inr acc)
     else case fetch_tags_page rg page url token of
       Inl e \<Rightarrow> ([url], Inl e)
     | Inr (tags, link) \<Rightarrow>
         (case fetch_pages n rg base token (Suc page) (next_link link base) (acc @ tags) of
            (urls, r) \<Rightarrow> (url # urls, r)))"

definition fetch_tags :: "registry \<Rightarrow> string \<Rightarrow> string \<Rightarrow> string \<Rightarrow> string list \<times> (fetch_error + string list)" where
  "fetch_tags rg base repo token = fetch_pages max_tag_pages rg base token 0 (base @ ''/v2/'' @ repo @ ''/tags/list'') []"

definition latest_semver :: "slice_sort \<Rightarrow> registry \<Rightarrow> string \<Rightarrow> string \<Rightarrow> fetch_error + string" where
  "latest_semver slice rg base repo =
    (case fetch_pull_token rg base repo of
       Inl e \<Rightarrow> Inl e
     | Inr token \<Rightarrow> (case snd (fetch_tags rg base repo token) of
         Inl e \<Rightarrow> Inl e
       | Inr tags \<Rightarrow> Inr (max_semver slice tags)))"

section \<open>The updater\<close>

record sidecar_status =
  sd_state :: string
  sd_target :: string
  sd_message :: string
  sd_updated_at :: time

record update_request =
  rq_target :: string
  rq_requested_at :: time

record info =
  nf_enabled :: bool
  nf_current :: string
  nf_latest :: string
  nf_update_available :: bool
  nf_checked_at :: time
  nf_state :: string
  nf_message :: string
  nf_target :: string

record updater =
  ud_cfg :: update_config
  ud_current :: string
  ud_base_url :: string
  ud_latest :: string
  ud_checked :: time

definition default_base_url :: string where "default_base_url = ''https://ghcr.io''"

definition new_updater :: "update_config \<Rightarrow> string \<Rightarrow> updater" where
  "new_updater cfg current =
    \<lparr>ud_cfg = cfg, ud_current = current, ud_base_url = default_base_url, ud_latest = '''', ud_checked = 0\<rparr>"

text \<open>\<open>file\<close> is the status file as far as it can be read and decoded.\<close>

definition read_status :: "updater \<Rightarrow> sidecar_status option \<Rightarrow> sidecar_status option" where
  "read_status u file = (if up_request_dir (ud_cfg u) = '''' then None else file)"

definition info_of :: "sidecar_status option \<Rightarrow> updater \<Rightarrow> info" where
  "info_of file u =
    (let base = \<lparr>nf_enabled = up_enabled (ud_cfg u), nf_current = ud_current u, nf_latest = ud_latest u,
           nf_update_available = newer (ud_current u) (ud_latest u), nf_checked_at = ud_checked u,
           nf_state = '''', nf_message = '''', nf_target = ''''\<rparr>
     in case read_status u file of None \<Rightarrow> base
        | Some st \<Rightarrow> base\<lparr>nf_state := sd_state st, nf_message := sd_message st, nf_target := sd_target st\<rparr>)"

text \<open>\<open>t1\<close> and \<open>t2\<close> are what the clock gives at the two calls.\<close>

definition check_fresh :: "time \<Rightarrow> updater \<Rightarrow> bool" where
  "check_fresh t u \<longleftrightarrow> \<not> time_is_zero (ud_checked u) \<and> 0 < up_check_ttl (ud_cfg u) \<and>
     time_sub t (ud_checked u) < up_check_ttl (ud_cfg u)"

definition check ::
    "slice_sort \<Rightarrow> registry \<Rightarrow> time \<Rightarrow> time \<Rightarrow> sidecar_status option \<Rightarrow> updater \<Rightarrow> updater \<times> info \<times> fetch_error option" where
  "check slice rg t1 t2 file u =
    (if check_fresh t1 u then (u, info_of file u, None)
     else case latest_semver slice rg (ud_base_url u) (up_repository (ud_cfg u)) of
       Inl e \<Rightarrow> (u, info_of file u, Some e)
     | Inr latest \<Rightarrow> let u = u\<lparr>ud_latest := latest, ud_checked := t2\<rparr> in (u, info_of file u, None))"

section \<open>Requesting an update\<close>

text \<open>The request directory: what a reader sees under each name. A file being written is torn.\<close>

datatype request_file = Torn | Complete update_request

type_synonym request_dir = "string \<rightharpoonup> request_file"

text \<open>The outcomes of the file operations, and the random part of the temporary name.\<close>

record disk =
  dk_mkdir :: bool
  dk_temp :: "string option"
  dk_write :: bool
  dk_close :: bool
  dk_rename :: bool
  dk_remove :: bool

datatype update_error = UpdatesDisabled | InvalidTarget string | AlreadyRunning string
  | CreateRequestDir | CreateTemp | WriteTemp | CloseTemp | RenameTemp

definition request_name :: string where "request_name = ''request.json''"

text \<open>The successive states of the directory, and the error.\<close>

definition write_file_atomic ::
    "disk \<Rightarrow> string \<Rightarrow> request_file \<Rightarrow> request_dir \<Rightarrow> request_dir list \<times> update_error option" where
  "write_file_atomic dk path data fs =
    (case dk_temp dk of
       None \<Rightarrow> ([fs], Some CreateTemp)
     | Some rnd \<Rightarrow>
        let tmp = ''.tmp-'' @ rnd;
            created = fs(tmp \<mapsto> Torn);
            remove = (\<lambda>s. if dk_remove dk then s(tmp := None) else s)
        in if \<not> dk_write dk then ([created, remove created], Some WriteTemp)
           else let written = created(tmp \<mapsto> data) in
             if \<not> dk_close dk then ([created, written, remove written], Some CloseTemp)
             else if \<not> dk_rename dk then ([created, written, remove written], Some RenameTemp)
             else ([created, written, (written(tmp := None))(path \<mapsto> data)], None))"

definition trigger :: "disk \<Rightarrow> time \<Rightarrow> string \<Rightarrow> updater \<Rightarrow> request_dir \<Rightarrow> request_dir list \<times> update_error option" where
  "trigger dk now version u fs =
    (if \<not> up_enabled (ud_cfg u) then ([fs], Some UpdatesDisabled)
     else if \<not> semver_ok version then ([fs], Some (InvalidTarget version))
     else if version = ud_current u then ([fs], Some (AlreadyRunning version))
     else if \<not> dk_mkdir dk then ([fs], Some CreateRequestDir)
     else write_file_atomic dk request_name (Complete \<lparr>rq_target = version, rq_requested_at = now\<rparr>) fs)"

section \<open>Comparing versions\<close>

text \<open>The numbers compared: each component, at most the largest \<open>int\<close>.\<close>

definition version_key :: "string \<Rightarrow> int list" where
  "version_key v = map (\<lambda>p. fst (atoi p)) (split_on CHR ''.'' v)"

lemma semver_parts:
  assumes "semver_ok v"
  obtains a b c where "split_on CHR ''.'' v = [a, b, c]" "digits_only a" "digits_only b" "digits_only c"
  using assms by (auto simp: semver_ok_def split: list.splits)

lemma compare_parts_key:
  "length pa = n \<Longrightarrow> length pb = n \<Longrightarrow>
    compare_parts n pa pb = Some (let ka = map (\<lambda>p. fst (atoi p)) pa; kb = map (\<lambda>p. fst (atoi p)) pb in
      if kb < ka then 1 else if ka < kb then - 1 else 0)"
proof (induction n pa pb rule: compare_parts.induct)
  case (2 n a pa b pb)
  then show ?case by (auto simp: Let_def)
qed auto

lemma compare_semver_key:
  assumes "semver_ok a" "semver_ok b"
  shows "compare_semver a b = Some (if version_key b < version_key a then 1 else if version_key a < version_key b then - 1 else 0)"
proof -
  have "length (split_on CHR ''.'' a) = 3" "length (split_on CHR ''.'' b) = 3"
    using assms by (auto elim: semver_parts)
  from compare_parts_key[OF this] show ?thesis by (simp add: compare_semver_def version_key_def Let_def)
qed

lemma descending_key: "semver_ok a \<Longrightarrow> semver_ok b \<Longrightarrow> descending a b \<longleftrightarrow> version_key b < version_key a"
  by (auto simp: descending_def compare_semver_key)

lemma newer_key: "newer current latest \<longleftrightarrow> semver_ok current \<and> semver_ok latest \<and> version_key current < version_key latest"
  by (auto simp: newer_def compare_semver_key)

section \<open>The newest release\<close>

text \<open>What \<open>sort.Slice\<close> documents: a permutation, ordered when the less function is a strict weak
  order on the elements; equal elements may end in any order.\<close>

definition weak_order_on :: "'a set \<Rightarrow> ('a \<Rightarrow> 'a \<Rightarrow> bool) \<Rightarrow> bool" where
  "weak_order_on A lt \<longleftrightarrow> (\<forall>a \<in> A. \<not> lt a a) \<and>
     (\<forall>a \<in> A. \<forall>b \<in> A. \<forall>c \<in> A. lt a b \<longrightarrow> lt b c \<longrightarrow> lt a c) \<and>
     (\<forall>a \<in> A. \<forall>b \<in> A. \<forall>c \<in> A. \<not> lt a b \<longrightarrow> \<not> lt b c \<longrightarrow> \<not> lt a c)"

definition sorts :: "slice_sort \<Rightarrow> bool" where
  "sorts slice \<longleftrightarrow> (\<forall>lt xs. set (slice lt xs) = set xs \<and> length (slice lt xs) = length xs \<and>
     (weak_order_on (set xs) lt \<longrightarrow> sorted_wrt (\<lambda>a b. \<not> lt b a) (slice lt xs)))"

lemma descending_weak: "(\<And>v. v \<in> A \<Longrightarrow> semver_ok v) \<Longrightarrow> weak_order_on A descending"
  by (auto simp: weak_order_on_def descending_key)

text \<open>C33. The release chosen from the registry's tags is empty exactly when no tag is a version;
  otherwise it is one of the tags, a version, and no version among the tags is newer, however
  the sorting function orders equal versions.\<close>

theorem newest_release:
  assumes "sorts slice"
  shows "if \<exists>t \<in> set tags. semver_ok t
    then max_semver slice tags \<in> set tags \<and> semver_ok (max_semver slice tags) \<and>
      (\<forall>t \<in> set tags. \<not> newer (max_semver slice tags) t)
    else max_semver slice tags = ''''"
proof (cases "filter semver_ok tags")
  case Nil
  then show ?thesis by (auto simp: max_semver_def filter_empty_conv)
next
  case (Cons v vs)
  let ?out = "slice descending (filter semver_ok tags)"
  have out: "set ?out = set (filter semver_ok tags)" "length ?out = length (filter semver_ok tags)"
    using assms by (simp_all add: sorts_def)
  have w: "weak_order_on (set (filter semver_ok tags)) descending" by (rule descending_weak) simp
  then have s: "sorted_wrt (\<lambda>a b. \<not> descending b a) ?out" using assms by (simp add: sorts_def)
  from out(2) Cons obtain m ms where m: "?out = m # ms" by (cases ?out) auto
  have mx: "max_semver slice tags = m" using Cons m by (simp add: max_semver_def)
  from out(1) m have mem: "m \<in> set tags" "semver_ok m" by auto
  have "\<not> newer m t" if "t \<in> set tags" for t
  proof
    assume n: "newer m t"
    then have t: "semver_ok t" by (simp add: newer_key)
    with that out(1) m have "t \<in> set (m # ms)" by auto
    then show False
    proof (cases "t = m")
      case False
      with \<open>t \<in> set (m # ms)\<close> s m have "\<not> descending t m" by auto
      with n t mem(2) show False by (simp add: newer_key descending_key)
    qed (use n in \<open>simp add: newer_key\<close>)
  qed
  moreover have "\<exists>t \<in> set tags. semver_ok t" using mem by blast
  ultimately show ?thesis using mem mx by simp
qed

section \<open>Versions as numbers\<close>

definition version_numbers :: "string \<Rightarrow> int list" where
  "version_numbers v = map digits_val (split_on CHR ''.'' v)"

lemma atoi_digits:
  assumes "digits_only s"
  shows "fst (atoi s) = min (digits_val s) int64_max"
proof -
  obtain c cs where s: "s = c # cs" using assms by (cases s) (auto simp: digits_only_def)
  have d: "is_digit c" "list_all is_digit s" using assms by (auto simp: digits_only_def s)
  have "c \<noteq> CHR ''-''" "c \<noteq> CHR ''+''" using d(1) by (auto simp: is_digit_def byte_def)
  then have "fst (atoi s) = (if in64 (digits_val s) then digits_val s else clamp64 (digits_val s))"
    using d(2) by (simp add: atoi_def s Let_def)
  with digits_val_nonneg[OF d(2)] show ?thesis
    by (auto simp: in64_def clamp64_def int64_min_def int64_max_def min_def max_def)
qed

text \<open>C39. Comparing versions agrees with comparing their three numbers in order, as long as the
  numbers fit in 64 bits.\<close>

theorem newer_is_numeric:
  assumes "\<forall>n \<in> set (version_numbers current) \<union> set (version_numbers latest). n \<le> int64_max"
  shows "newer current latest \<longleftrightarrow>
    semver_ok current \<and> semver_ok latest \<and> version_numbers current < version_numbers latest"
proof -
  have k: "version_key v = version_numbers v"
    if sv: "semver_ok v" "\<forall>n \<in> set (version_numbers v). n \<le> int64_max" for v
  proof -
    obtain a b c where v: "split_on CHR ''.'' v = [a, b, c]" "digits_only a" "digits_only b" "digits_only c"
      using semver_parts[OF sv(1)] .
    with sv(2) show ?thesis by (simp add: version_key_def version_numbers_def atoi_digits min_def)
  qed
  show ?thesis
  proof (cases "semver_ok current \<and> semver_ok latest")
    case True
    with assms have "version_key current = version_numbers current" "version_key latest = version_numbers latest"
      by (auto intro: k)
    with True show ?thesis by (simp add: newer_key)
  qed (auto simp: newer_key)
qed

text \<open>Beyond 64 bits the components saturate, and a newer version is not seen as newer.\<close>

lemma newer_saturates: "\<not> newer ''1.0.9223372036854775807'' ''1.0.9223372036854775808''"
  by (simp add: newer_key version_key_def atoi_def digits_val_def digit_val_def is_digit_def byte_def in64_numeral
      clamp64_def int64_max_def int64_min_def)

section \<open>Listing the tags\<close>

text \<open>The pages of a registry from a URL on, as URL and tags.\<close>

fun page_chain :: "registry \<Rightarrow> string \<Rightarrow> string \<Rightarrow> nat \<Rightarrow> string \<Rightarrow> (string \<times> string list) list \<Rightarrow> bool" where
  "page_chain rg base token n url [] \<longleftrightarrow> url = ''''"
| "page_chain rg base token n url ((u, tags) # ps) \<longleftrightarrow> url = u \<and> u \<noteq> '''' \<and>
    (case fetch_tags_page rg n u token of Inl e \<Rightarrow> False
     | Inr (ts, link) \<Rightarrow> ts = tags \<and> page_chain rg base token (Suc n) (next_link link base) ps)"

lemma page_chain_Cons:
  assumes "page_chain rg base token n url (p # ps)"
  shows "\<exists>link. fetch_tags_page rg n url token = Inr (snd p, link) \<and> fst p = url \<and> url \<noteq> '''' \<and>
    page_chain rg base token (Suc n) (next_link link base) ps"
proof -
  obtain u tags where p: "p = (u, tags)" by (cases p)
  show ?thesis
    using assms unfolding p page_chain.simps by (cases "fetch_tags_page rg n url token") auto
qed

lemma fetch_pages_chain:
  "page_chain rg base token n url ps \<Longrightarrow> length ps \<le> k \<Longrightarrow>
    fetch_pages k rg base token n url acc = (map fst ps, Inr (acc @ concat (map snd ps)))"
proof (induction k arbitrary: n url ps acc)
  case (Suc k)
  show ?case
  proof (cases ps)
    case (Cons p qs)
    from page_chain_Cons[OF Suc.prems(1)[unfolded Cons]] obtain link where
      q: "fetch_tags_page rg n url token = Inr (snd p, link)" "fst p = url" "url \<noteq> ''''"
        "page_chain rg base token (Suc n) (next_link link base) qs" by (elim exE conjE)
    have "fetch_pages k rg base token (Suc n) (next_link link base) (acc @ snd p) = (map fst qs, Inr ((acc @ snd p) @ concat (map snd qs)))"
      by (rule Suc.IH[OF q(4)]) (use Suc.prems(2) Cons in simp)
    with q(1,2,3) Cons show ?thesis
      by (simp only: fetch_pages.simps sum.case prod.case if_False list.map concat.simps append_assoc)
  qed (use Suc.prems in simp)
qed simp

lemma fetch_pages_bound: "length (fst (fetch_pages k rg base token n url acc)) \<le> k"
proof (induction k arbitrary: n url acc)
  case (Suc k)
  then show ?case by (auto split: sum.split prod.split) (metis fst_conv)
qed simp

text \<open>C32. Listing the tags makes at most 100 requests, whatever the registry answers; and when the
  registry's pages end within 100 it requests exactly them, following the next links, and
  returns all their tags in order.\<close>

theorem fetch_tags_complete:
  "length (fst (fetch_tags rg base repo token)) \<le> 100 \<and>
   (page_chain rg base token 0 (base @ ''/v2/'' @ repo @ ''/tags/list'') ps \<and> length ps \<le> 100 \<longrightarrow>
     fetch_tags rg base repo token = (map fst ps, Inr (concat (map snd ps))))"
  using fetch_pages_bound[of max_tag_pages] fetch_pages_chain[of rg base token 0 _ ps max_tag_pages "[]"]
  by (simp add: fetch_tags_def max_tag_pages_def del: fetch_pages.simps page_chain.simps)

section \<open>Checking and triggering\<close>

text \<open>A check that fails leaves what is known unchanged; after one that succeeded, checks within
  the time to live answer from memory, whatever the registry would say.\<close>

theorem check_throttled:
  assumes "check slice rg t1 t2 file u = (u', i, err)" and "\<not> check_fresh t1 u"
  shows "if err \<noteq> None then u' = u
    else 0 < up_check_ttl (ud_cfg u) \<and> t2 \<noteq> 0 \<and> time_sub t3 t2 < up_check_ttl (ud_cfg u) \<longrightarrow>
      check slice rg' t3 t4 file' u' = (u', info_of file' u', None)"
  using assms by (auto simp: check_def check_fresh_def time_defs Let_def split: sum.splits)

text \<open>C29. A request file is only written for a well-formed version other than the running one, with
  updates enabled; whatever fails, a reader sees at every moment either what was there before
  or the complete new request, and it sees the new request in the end exactly when the call
  succeeds.\<close>

theorem trigger_atomic:
  "(\<forall>s \<in> set (fst (trigger dk now version u fs)).
      s request_name = fs request_name \<or>
      s request_name = Some (Complete \<lparr>rq_target = version, rq_requested_at = now\<rparr>) \<and>
      up_enabled (ud_cfg u) \<and> semver_ok version \<and> version \<noteq> ud_current u \<and> snd (trigger dk now version u fs) = None) \<and>
   (snd (trigger dk now version u fs) = None \<longrightarrow>
      last (fst (trigger dk now version u fs)) request_name = Some (Complete \<lparr>rq_target = version, rq_requested_at = now\<rparr>))"
  by (simp add: trigger_def write_file_atomic_def request_name_def Let_def split: option.split)

lemma map_filter_Some: "x \<in> set (List.map_filter f xs) \<Longrightarrow> \<exists>p. f p = Some x"
  by (auto simp: List.map_filter_def)

text \<open>The next page is read from the first link with relation \<open>next\<close>: absolute URLs as they are,
  others under the registry's base URL; no other URL is ever followed.\<close>

theorem next_link_under_base:
  "next_link header base = '''' \<or> has_prefix (next_link header base) ''http://'' \<or>
   has_prefix (next_link header base) ''https://'' \<or>
   has_prefix (next_link header base) (trim_right_byte CHR ''/'' base @ ''/'')"
proof -
  have "has_prefix u ''http://'' \<or> has_prefix u ''https://'' \<or> has_prefix u (trim_right_byte CHR ''/'' base @ ''/'')"
    if "link_target base p = Some u" for p u
    using that by (auto simp: link_target_def Let_def has_prefix_def split: if_splits)
  moreover have "\<exists>p. link_target base p = Some (next_link header base)" if "next_link header base \<noteq> ''''"
    using that map_filter_Some[of _ "link_target base" "split_on CHR '','' header"]
    by (auto simp: next_link_def split: list.splits)
  ultimately show ?thesis by blast
qed

section \<open>Witnesses\<close>

text \<open>Insertion sort sorts.\<close>

fun insert_by :: "('a \<Rightarrow> 'a \<Rightarrow> bool) \<Rightarrow> 'a \<Rightarrow> 'a list \<Rightarrow> 'a list" where
  "insert_by lt x [] = [x]"
| "insert_by lt x (y # ys) = (if lt y x then y # insert_by lt x ys else x # y # ys)"

definition insertion_slice :: slice_sort where
  "insertion_slice lt xs = foldr (insert_by lt) xs []"

lemma insert_by_set: "set (insert_by lt x ys) = insert x (set ys)" "length (insert_by lt x ys) = Suc (length ys)"
  by (induction ys) auto

lemma weak_order_asym: "weak_order_on A lt \<Longrightarrow> x \<in> A \<Longrightarrow> y \<in> A \<Longrightarrow> lt y x \<Longrightarrow> \<not> lt x y"
  unfolding weak_order_on_def by (metis (no_types))

lemma weak_order_neg_trans:
  assumes "weak_order_on A lt" "x \<in> A" "y \<in> A" "z \<in> A" "\<not> lt x y" "\<not> lt y z"
  shows "\<not> lt x z"
proof -
  have "\<forall>a \<in> A. \<forall>b \<in> A. \<forall>c \<in> A. \<not> lt a b \<longrightarrow> \<not> lt b c \<longrightarrow> \<not> lt a c"
    using assms(1) unfolding weak_order_on_def by (elim conjE)
  from this[rule_format, OF assms(2-6)] show ?thesis .
qed

lemma insert_by_sorted:
  assumes "weak_order_on A lt"
  shows "sorted_wrt (\<lambda>a b. \<not> lt b a) ys \<Longrightarrow> insert x (set ys) \<subseteq> A \<Longrightarrow> sorted_wrt (\<lambda>a b. \<not> lt b a) (insert_by lt x ys)"
proof (induction ys)
  case (Cons y ys)
  show ?case
  proof (cases "lt y x")
    case True
    with Cons.prems(2) have "\<not> lt x y" by (intro weak_order_asym[OF assms]) auto
    with True Cons show ?thesis by (simp add: insert_by_set)
  next
    case False
    have "\<not> lt z x" if "z \<in> set ys" for z
    proof -
      from that Cons.prems(1) have "\<not> lt z y" by simp
      with that False Cons.prems(2) show ?thesis by (intro weak_order_neg_trans[OF assms, of z y x]) auto
    qed
    with False Cons.prems(1) show ?thesis by simp
  qed
qed simp

lemma insertion_sorts: "sorts insertion_slice"
proof -
  have s: "set (insertion_slice lt xs) = set xs \<and> length (insertion_slice lt xs) = length xs" for lt xs
    by (induction xs) (simp_all add: insertion_slice_def insert_by_set)
  have "sorted_wrt (\<lambda>a b. \<not> lt b a) (insertion_slice lt xs)" if "weak_order_on A lt" "set xs \<subseteq> A" for A lt xs
    using that(2)
  proof (induction xs)
    case (Cons x xs)
    have "sorted_wrt (\<lambda>a b. \<not> lt b a) (insert_by lt x (insertion_slice lt xs))"
      by (rule insert_by_sorted[OF that(1)]) (use Cons s[of lt xs] in auto)
    then show ?case by (simp add: insertion_slice_def)
  qed (simp add: insertion_slice_def)
  with s show ?thesis unfolding sorts_def by blast
qed

lemma demo_versions:
  "semver_ok ''1.9.0''" "semver_ok ''1.10.0''" "version_numbers ''1.9.0'' = [1, 9, 0]" "version_numbers ''1.10.0'' = [1, 10, 0]"
  by (simp_all add: semver_ok_def digits_only_def is_digit_def byte_def version_numbers_def digits_val_def digit_val_def)

theorem newest_release_witness:
  "\<not> newer (max_semver insertion_slice [''latest'', ''1.9.0'', ''1.10.0'']) ''1.10.0''"
  using newest_release[OF insertion_sorts, of "[''latest'', ''1.9.0'', ''1.10.0'']"] demo_versions(2)
  by (simp split: if_splits)

theorem newer_is_numeric_witness: "newer ''1.9.0'' ''1.10.0''"
  using newer_is_numeric[of "''1.9.0''" "''1.10.0''"] by (simp add: demo_versions int64_max_def)

definition demo_registry :: registry where
  "demo_registry = \<lparr>rg_token = (\<lambda>_. Response 200 ''200 OK'' (Some ''t'') ''''),
     rg_page = (\<lambda>_ _ _. Response 200 ''200 OK'' (Some [''1.9.0'', ''1.10.0'']) '''')\<rparr>"

lemma next_link_empty: "next_link '''' base = ''''"
  by (simp add: next_link_def link_target_def List.map_filter_simps)

theorem fetch_tags_complete_witness:
  "fetch_tags demo_registry default_base_url ''x'' ''t'' = ([default_base_url @ ''/v2/x/tags/list''], Inr [''1.9.0'', ''1.10.0''])"
proof -
  have "page_chain demo_registry default_base_url ''t'' 0 (default_base_url @ ''/v2/'' @ ''x'' @ ''/tags/list'')
      [(default_base_url @ ''/v2/x/tags/list'', [''1.9.0'', ''1.10.0''])]"
    by (simp add: demo_registry_def fetch_tags_page_def next_link_empty default_base_url_def)
  with fetch_tags_complete[of demo_registry default_base_url "''x''" "''t''" "[(default_base_url @ ''/v2/x/tags/list'', [''1.9.0'', ''1.10.0''])]"]
  show ?thesis by simp
qed

definition demo_updater :: updater where
  "demo_updater = new_updater \<lparr>up_enabled = True, up_repository = ''x'', up_request_dir = ''/run/update'', up_check_ttl = hour\<rparr> ''1.9.0''"

definition demo_check :: "updater \<times> info \<times> fetch_error option" where
  "demo_check = check insertion_slice demo_registry 10 20 None demo_updater"

theorem check_throttled_witness:
  "if snd (snd demo_check) \<noteq> None then fst demo_check = demo_updater
   else check insertion_slice rg 30 40 None (fst demo_check) = (fst demo_check, info_of None (fst demo_check), None)"
proof -
  have e: "check insertion_slice demo_registry 10 20 None demo_updater = (fst demo_check, fst (snd demo_check), snd (snd demo_check))"
    by (simp add: demo_check_def)
  have n: "\<not> check_fresh 10 demo_updater"
    by (simp add: check_fresh_def demo_updater_def new_updater_def time_defs)
  have c: "0 < up_check_ttl (ud_cfg demo_updater)" "time_sub 30 20 < up_check_ttl (ud_cfg demo_updater)"
    by (simp_all add: demo_updater_def new_updater_def time_defs duration_defs clamp64_id in64_numeral)
  from check_throttled[OF e n, of 30 rg 40 None] c show ?thesis by (auto split: if_splits)
qed

theorem trigger_atomic_witness:
  "last (fst (trigger \<lparr>dk_mkdir = True, dk_temp = Some ''7'', dk_write = True, dk_close = True, dk_rename = True, dk_remove = True\<rparr>
     50 ''1.10.0'' demo_updater Map.empty)) request_name = Some (Complete \<lparr>rq_target = ''1.10.0'', rq_requested_at = 50\<rparr>)"
  using trigger_atomic[of "\<lparr>dk_mkdir = True, dk_temp = Some ''7'', dk_write = True, dk_close = True, dk_rename = True, dk_remove = True\<rparr>"
      50 "''1.10.0''" demo_updater Map.empty] demo_versions(2)
  by (simp add: trigger_def write_file_atomic_def demo_updater_def new_updater_def Let_def)

end
