(* ===== verification/WebDto.thy ===== *)
theory WebDto
  imports Controller Updater
begin

text \<open>
  \<open>internal/web/dto.go\<close>: the view models the JSON API and the templates show, computed from the
  controller's status, the store's sessions and the updater's info. \<open>oor\<close> is what the platform
  makes of a float conversion that is out of range.
\<close>

section \<open>Formatting\<close>

definition watts :: "(f64 \<Rightarrow> int) \<Rightarrow> f64 \<Rightarrow> int" where
  "watts oor v = f64_to_int oor (f64_round v)"

text \<open>\<open>fmt.Sprintf("%.Nf", v)\<close>: the exact value rounded to N decimals, ties to even.\<close>

definition format_fixed :: "nat \<Rightarrow> f64 \<Rightarrow> string" where
  "format_fixed dp v = (case v of NaN \<Rightarrow> ''NaN'' | PosInf \<Rightarrow> ''+Inf'' | NegInf \<Rightarrow> ''-Inf''
    | _ \<Rightarrow> let n = rne (\<bar>f64_val v\<bar> * 10 ^ dp)
           in (if f64_signbit v then ''-'' else '''') @ nat_str (n div 10 ^ dp) @ ''.'' @ pad dp (n mod 10 ^ dp))"

definition kw :: "f64 \<Rightarrow> string" where
  "kw v = format_fixed 1 (f64_div v (whole 1000))"

text \<open>\<open>t.UTC().Format(time.RFC3339)\<close>.\<close>

definition format_rfc3339 :: "time \<Rightarrow> string" where
  "format_rfc3339 t = take 19 (format_time t) @ ''Z''"

definition duration_seconds :: "duration \<Rightarrow> f64" where
  "duration_seconds d = f64_of_int (d div second) + f64_div (f64_of_int (d mod second)) (f64_of_int second)"

definition duration_minutes :: "duration \<Rightarrow> f64" where
  "duration_minutes d = f64_of_int (d div minute) + f64_div (f64_of_int (d mod minute)) (f64_of_int minute)"

definition humanize_ago :: "(f64 \<Rightarrow> int) \<Rightarrow> duration \<Rightarrow> string" where
  "humanize_ago oor d =
    (let d = (if d < 0 then 0 else d)
     in if d < minute then itoa (f64_to_int oor (duration_seconds d)) @ ''s''
        else if d < hour then itoa (f64_to_int oor (duration_minutes d)) @ ''m''
        else itoa (f64_to_int oor (duration_hours d)) @ ''h'')"

section \<open>The status\<close>

record power_vm =
  vm_w :: int
  vm_kw :: string

text \<open>Each power is shown in whole watts and in kilowatts.\<close>

definition power_of :: "(f64 \<Rightarrow> int) \<Rightarrow> f64 \<Rightarrow> power_vm" where
  "power_of oor v = \<lparr>vm_w = watts oor v, vm_kw = kw v\<rparr>"

record status_vm =
  vm_state :: string
  vm_reason :: string
  vm_reason_code :: string
  vm_desired_mode :: string
  vm_override :: string
  vm_override_until :: string
  vm_override_active :: bool
  vm_cap_bypass :: bool
  vm_cap_bypass_soc :: int
  vm_cap_bypass_target :: int
  vm_charge_power :: string
  vm_charge_power_now :: bool
  vm_auto_profile :: string
  vm_power_latch :: bool
  vm_surplus_latch :: bool
  vm_is_latch :: bool
  vm_start_threshold_w :: int
  vm_target_soc :: int
  vm_soc_cap :: int
  vm_soc_max :: int
  vm_soc_cap_plus_one :: int
  vm_surplus :: power_vm
  vm_grid :: power_vm
  vm_pv :: power_vm
  vm_home :: power_vm
  vm_battery :: power_vm
  vm_charge :: power_vm
  vm_battery_soc :: int
  vm_vehicle_soc :: int
  vm_charging :: bool
  vm_connected :: bool
  vm_ready :: bool
  vm_stale :: bool
  vm_online :: bool
  vm_broker_connected :: bool
  vm_updated_at :: string
  vm_updated_ago :: string
  vm_has_updated :: bool

definition cap_bypass_target :: "status_view \<Rightarrow> int" where
  "cap_bypass_target v = (if 0 < sv_cap_bypass_soc v then sv_cap_bypass_soc v else sv_soc_max v)"

definition new_status_vm :: "(f64 \<Rightarrow> int) \<Rightarrow> time \<Rightarrow> status_view \<Rightarrow> status_vm" where
  "new_status_vm oor now v =
    (let inp = sv_inputs v; snap = sv_snapshot v; updated = \<not> time_is_zero (sv_updated_at v) in
     \<lparr>vm_state = state_str (sv_state v),
      vm_reason = sv_reason v,
      vm_reason_code = (case sv_reason_code v of None \<Rightarrow> '''' | Some c \<Rightarrow> reason_code_str c),
      vm_desired_mode = sv_desired_mode v,
      vm_override = override_str (sv_override v),
      vm_override_until = (if time_is_zero (sv_override_until v) then '''' else format_rfc3339 (sv_override_until v)),
      vm_override_active = (sv_override v \<noteq> OverrideAuto),
      vm_cap_bypass = sv_cap_bypass v,
      vm_cap_bypass_soc = sv_cap_bypass_soc v,
      vm_cap_bypass_target = cap_bypass_target v,
      vm_charge_power = sv_charge_power v,
      vm_charge_power_now = (sv_charge_power v = EnableModeNow),
      vm_auto_profile = sv_auto_profile v,
      vm_power_latch = (sv_auto_profile v = AutoProfilePowerLatch),
      vm_surplus_latch = (sv_auto_profile v = AutoProfileSurplusLatch),
      vm_is_latch = (sv_auto_profile v \<noteq> AutoProfileSurplus),
      vm_start_threshold_w = watts oor (sv_start_threshold v),
      vm_target_soc = sv_target_soc v,
      vm_soc_cap = sv_soc_cap v,
      vm_soc_max = sv_soc_max v,
      vm_soc_cap_plus_one = add64 (sv_soc_cap v) 1,
      vm_surplus = power_of oor (sv_surplus v),
      vm_grid = power_of oor (in_grid inp),
      vm_pv = power_of oor (in_pv inp),
      vm_home = power_of oor (in_home inp),
      vm_battery = power_of oor (in_battery inp),
      vm_charge = power_of oor (in_charge inp),
      vm_battery_soc = in_battery_soc inp,
      vm_vehicle_soc = in_vehicle_soc inp,
      vm_charging = in_charging inp,
      vm_connected = in_connected inp,
      vm_ready = in_ready inp,
      vm_stale = in_stale inp,
      vm_online = m_value (sn_online snap),
      vm_broker_connected = sn_broker_connected snap,
      vm_updated_at = (if updated then format_rfc3339 (sv_updated_at v) else ''''),
      vm_updated_ago = (if updated then humanize_ago oor (time_sub now (sv_updated_at v)) else ''''),
      vm_has_updated = updated\<rparr>)"

section \<open>Updates and sessions\<close>

record update_vm =
  um_info :: info
  um_checked :: bool
  um_checked_ago :: string
  um_applying :: bool
  um_done :: bool
  um_failed :: bool

text \<open>The fields copied from the info are kept as the info.\<close>

definition new_update_vm :: "(f64 \<Rightarrow> int) \<Rightarrow> time \<Rightarrow> info \<Rightarrow> update_vm" where
  "new_update_vm oor now i =
    (let checked = \<not> time_is_zero (nf_checked_at i) in
     \<lparr>um_info = i, um_checked = checked,
      um_checked_ago = (if checked then humanize_ago oor (time_sub now (nf_checked_at i)) else ''''),
      um_applying = (nf_state i = ''applying''), um_done = (nf_state i = ''done''), um_failed = (nf_state i = ''failed'')\<rparr>)"

record session_vm =
  xm_id :: int
  xm_started_at :: string
  xm_ended_at :: string
  xm_open :: bool
  xm_start_reason :: string
  xm_stop_reason :: string
  xm_start_soc :: "int option"
  xm_end_soc :: "int option"
  xm_energy_wh :: int
  xm_energy_kwh :: string
  xm_avg_w :: int
  xm_peak_w :: int

definition new_session_vm :: "(f64 \<Rightarrow> int) \<Rightarrow> (time, string) session \<Rightarrow> session_vm" where
  "new_session_vm oor s =
    \<lparr>xm_id = se_id s, xm_started_at = format_rfc3339 (se_started_at s),
     xm_ended_at = (case se_ended_at s of None \<Rightarrow> '''' | Some t \<Rightarrow> format_rfc3339 t),
     xm_open = (se_ended_at s = None), xm_start_reason = se_start_reason s, xm_stop_reason = se_stop_reason s,
     xm_start_soc = se_start_soc s, xm_end_soc = se_end_soc s,
     xm_energy_wh = f64_to_int oor (f64_round (se_energy s)),
     xm_energy_kwh = format_fixed 2 (f64_div (se_energy s) (whole 1000)),
     xm_avg_w = watts oor (se_avg s), xm_peak_w = watts oor (se_peak s)\<rparr>"

definition new_session_vms :: "(f64 \<Rightarrow> int) \<Rightarrow> (time, string) session list \<Rightarrow> session_vm list" where
  "new_session_vms oor ss = map (new_session_vm oor) ss"

end
