(* ===== verification/I18n.thy ===== *)
theory I18n
  imports Strconv
begin

text \<open>
  \<open>internal/web/i18n/bundle.go\<close>: message lookup with fallback, and the choice of the request's
  language from the cookie and the \<open>Accept-Language\<close> header. The catalogs are embedded data and
  a parameter, as is \<open>fmt.Sprintf\<close>.
\<close>

type_synonym catalogs = "string \<Rightarrow> string \<rightharpoonup> string"

definition default_lang :: string where "default_lang = ''de''"
definition supported :: "string list" where "supported = [''de'', ''en'']"

section \<open>Lookup\<close>

definition lookup :: "catalogs \<Rightarrow> string \<Rightarrow> string \<Rightarrow> string option" where
  "lookup b lang key =
    (case b lang key of Some msg \<Rightarrow> Some msg
     | None \<Rightarrow> if lang \<noteq> default_lang then b default_lang key else None)"

definition tr :: "catalogs \<Rightarrow> string \<Rightarrow> string \<Rightarrow> string" where
  "tr b lang key = (case lookup b lang key of None \<Rightarrow> key | Some msg \<Rightarrow> msg)"

definition tr_or :: "catalogs \<Rightarrow> string \<Rightarrow> string \<Rightarrow> string \<Rightarrow> string" where
  "tr_or b lang key fallback = (case lookup b lang key of None \<Rightarrow> fallback | Some msg \<Rightarrow> msg)"

text \<open>With arguments the message is a format string for \<open>fmt.Sprintf\<close>; the fallback of \<open>TOr\<close> is not.\<close>

type_synonym 'a sprintf = "string \<Rightarrow> 'a list \<Rightarrow> string"

definition format_message :: "'a sprintf \<Rightarrow> string \<Rightarrow> 'a list \<Rightarrow> string" where
  "format_message sprintf msg args = (if length args = 0 then msg else sprintf msg args)"

definition tr_args :: "'a sprintf \<Rightarrow> catalogs \<Rightarrow> string \<Rightarrow> string \<Rightarrow> 'a list \<Rightarrow> string" where
  "tr_args sprintf b lang key args = format_message sprintf (tr b lang key) args"

definition tr_or_args :: "'a sprintf \<Rightarrow> catalogs \<Rightarrow> string \<Rightarrow> string \<Rightarrow> string \<Rightarrow> 'a list \<Rightarrow> string" where
  "tr_or_args sprintf b lang key fallback args =
    (case lookup b lang key of None \<Rightarrow> fallback | Some msg \<Rightarrow> format_message sprintf msg args)"

lemma tr_no_args: "tr_args sprintf b lang key [] = tr b lang key" "tr_or_args sprintf b lang key fallback [] = tr_or b lang key fallback"
  by (simp_all add: tr_args_def tr_or_args_def tr_or_def format_message_def split: option.split)

section \<open>Loading the catalogs\<close>

text \<open>
  The embedded files and the JSON decoder are parameters; \<open>None\<close> is the panic. A language
  without a catalog has the empty one, as a lookup in a nil map finds nothing.
\<close>

definition load_catalog :: "(string \<Rightarrow> string option) \<Rightarrow> (string \<Rightarrow> (string \<rightharpoonup> string) option) \<Rightarrow> string \<Rightarrow> (string \<rightharpoonup> string) option" where
  "load_catalog read_file unmarshal lang =
    (case read_file (''locales/'' @ lang @ ''.json'') of None \<Rightarrow> None | Some raw \<Rightarrow> unmarshal raw)"

fun load_catalogs :: "(string \<Rightarrow> (string \<rightharpoonup> string) option) \<Rightarrow> string list \<Rightarrow> catalogs \<Rightarrow> catalogs option" where
  "load_catalogs load [] b = Some b"
| "load_catalogs load (lang # langs) b =
    (case load lang of None \<Rightarrow> None | Some catalog \<Rightarrow> load_catalogs load langs (b(lang := catalog)))"

definition new_bundle :: "(string \<Rightarrow> string option) \<Rightarrow> (string \<Rightarrow> (string \<rightharpoonup> string) option) \<Rightarrow> catalogs option" where
  "new_bundle read_file unmarshal = load_catalogs (load_catalog read_file unmarshal) supported (\<lambda>_. Map.empty)"

lemma load_catalogs_loaded:
  "load_catalogs load langs b = Some b' \<Longrightarrow> distinct langs \<Longrightarrow>
    (if l \<in> set langs then load l = Some (b' l) else b' l = b l)"
proof (induction langs arbitrary: b)
  case (Cons lang langs)
  then obtain catalog where c: "load lang = Some catalog" "load_catalogs load langs (b(lang := catalog)) = Some b'"
    by (auto split: option.splits)
  with Cons.IH[OF c(2)] Cons.prems(2) show ?case by (auto split: if_splits)
qed simp

text \<open>A loaded bundle has exactly the catalogs of the supported languages; a message is looked up in
  the language, then in German.\<close>

lemma new_bundle_lookup:
  assumes "new_bundle read_file unmarshal = Some b"
  shows "lang \<in> set supported \<Longrightarrow> load_catalog read_file unmarshal lang = Some (b lang)"
    "lang \<notin> set supported \<Longrightarrow> lookup b lang key = b default_lang key"
  using load_catalogs_loaded[OF assms[unfolded new_bundle_def], of lang]
  by (auto simp: lookup_def supported_def default_lang_def split: option.split)

section \<open>Accept-Language\<close>

text \<open>\<open>strings.ToLower\<close> on the letters that can make a supported tag; no other letter has one of
  them as its lower case.\<close>

definition to_lower :: "string \<Rightarrow> string" where
  "to_lower = map (\<lambda>c. if 65 \<le> byte c \<and> byte c \<le> 90 then char_of (byte c + 32) else c)"

text \<open>What precedes and what follows the first occurrence of a byte.\<close>

definition before_byte :: "char \<Rightarrow> string \<Rightarrow> string" where
  "before_byte c s = takeWhile (\<lambda>x. x \<noteq> c) s"

definition after_byte :: "char \<Rightarrow> string \<Rightarrow> string" where
  "after_byte c s = tl (dropWhile (\<lambda>x. x \<noteq> c) s)"

fun parse_q_params :: "string list \<Rightarrow> f64" where
  "parse_q_params [] = whole 1"
| "parse_q_params (p # ps) =
    (let t = trim_space p in
     if has_prefix t ''q='' then
       (case parse_float (trim_space (drop 2 t)) of Some q \<Rightarrow> q | None \<Rightarrow> parse_q_params ps)
     else parse_q_params ps)"

definition parse_q :: "string \<Rightarrow> f64" where
  "parse_q params = parse_q_params (split_on CHR '';'' params)"

text \<open>One entry of the header: the primary subtag and the weight.\<close>

definition accept_entry :: "string \<Rightarrow> (string \<times> f64) option" where
  "accept_entry part =
    (let tag = trim_space part in
     if tag = '''' then None
     else let (tag, q) = (if CHR '';'' \<in> set tag then (before_byte CHR '';'' tag, parse_q (after_byte CHR '';'' tag))
                          else (tag, whole 1));
              tag = before_byte CHR ''-'' tag
          in Some (to_lower (trim_space tag), q))"

definition consider_lang :: "string \<times> f64 \<Rightarrow> string \<times> f64 \<Rightarrow> string \<times> f64" where
  "consider_lang entry best =
    foldl (\<lambda>best sup. if fst entry = sup \<and> snd best < snd entry then (sup, snd entry) else best) best supported"

definition match_step :: "string \<times> f64 \<Rightarrow> string \<Rightarrow> string \<times> f64" where
  "match_step best part = (case accept_entry part of None \<Rightarrow> best | Some entry \<Rightarrow> consider_lang entry best)"

definition match_lang :: "string \<Rightarrow> string" where
  "match_lang header =
    (let best = fst (foldl match_step ('''', 0) (split_on CHR '','' header))
     in if best = '''' then default_lang else best)"

definition resolve :: "string \<Rightarrow> string \<Rightarrow> string" where
  "resolve cookie header = (if cookie \<in> set supported then cookie else match_lang header)"

section \<open>The best acceptable language is chosen\<close>

text \<open>The entries that can be chosen: supported languages with a positive weight.\<close>

definition acceptable :: "string \<Rightarrow> (string \<times> f64) list" where
  "acceptable header = filter (\<lambda>(l, q). l \<in> set supported \<and> 0 < q) (List.map_filter accept_entry (split_on CHR '','' header))"

lemma consider_lang_eq:
  "consider_lang (l, q) best = (if l \<in> set supported \<and> snd best < q then (l, q) else best)"
  by (auto simp: consider_lang_def supported_def)

text \<open>\<open>best\<close> is the first of the heaviest entries.\<close>

definition first_best :: "(string \<times> f64) list \<Rightarrow> string \<times> f64 \<Rightarrow> bool" where
  "first_best es best \<longleftrightarrow> (\<exists>i < length es. es ! i = best \<and>
     (\<forall>j < length es. \<not> snd best < snd (es ! j)) \<and> (\<forall>j < i. snd (es ! j) < snd best))"

definition pick :: "string \<times> f64 \<Rightarrow> string \<times> f64 \<Rightarrow> string \<times> f64" where
  "pick best entry = (if snd best < snd entry then entry else best)"

lemma pick_weight: "0 \<le> snd best \<Longrightarrow> 0 \<le> snd (pick best e) \<and> snd best \<le> snd (pick best e)"
  using f64_le_trans[of 0 "snd best" "snd e"] f64_less_imp_le[of "snd best" "snd e"] f64_le_not_nan[of 0 "snd best"]
  by (auto simp: pick_def)

lemma consider_pick:
  assumes "0 \<le> snd best"
  shows "consider_lang e best = (if fst e \<in> set supported \<and> 0 < snd e then pick best e else best)"
  using f64_le_less_trans[OF assms, of "snd e"] by (cases e) (auto simp: consider_lang_eq pick_def)

lemma foldl_acceptable:
  assumes "0 \<le> snd best"
  shows "foldl match_step best parts =
    foldl pick best (filter (\<lambda>(l, q). l \<in> set supported \<and> 0 < q) (List.map_filter accept_entry parts))"
  using assms
proof (induction parts arbitrary: best)
  case (Cons p ps)
  show ?case
  proof (cases "accept_entry p")
    case None
    with Cons show ?thesis by (simp add: match_step_def List.map_filter_simps)
  next
    case (Some e)
    obtain l q where e: "e = (l, q)" by (cases e)
    show ?thesis
    proof (cases "l \<in> set supported \<and> 0 < q")
      case True
      with Some e Cons pick_weight[OF Cons.prems, of e] show ?thesis
        by (simp add: match_step_def List.map_filter_simps consider_pick)
    next
      case False
      with Some e Cons show ?thesis by (auto simp: match_step_def List.map_filter_simps consider_pick)
    qed
  qed
qed (simp add: List.map_filter_simps)

lemma foldl_pick_first_best:
  assumes "\<forall>e \<in> set es. 0 < snd e" "es \<noteq> []"
  shows "first_best es (foldl pick ('''', 0) es)"
  using assms
proof (induction es rule: rev_induct)
  case (snoc e es)
  have pos: "\<not> is_nan (snd e)" using snoc.prems f64_less_not_nan by auto
  show ?case
  proof (cases "es = []")
    case True
    with snoc.prems show ?thesis by (auto simp: first_best_def pick_def)
  next
    case False
    define b where "b = foldl pick ('''', 0) es"
    from False snoc have b: "first_best es b" by (simp add: b_def)
    then obtain i where i: "i < length es" "es ! i = b" "\<forall>j < length es. \<not> snd b < snd (es ! j)" "\<forall>j < i. snd (es ! j) < snd b"
      by (auto simp: first_best_def)
    show ?thesis
    proof (cases "snd b < snd e")
      case True
      have "snd (es ! j) < snd e" if "j < length es" for j
      proof -
        have "es ! j \<in> set es" using that by simp
        with snoc.prems have "\<not> is_nan (snd (es ! j))" using f64_less_not_nan by auto
        with i(3) that True f64_not_le[of "snd b" "snd (es ! j)"] f64_less_not_nan[OF True]
        have "snd (es ! j) \<le> snd b" by (auto simp: less_eq_f64_def less_f64_def)
        with True show ?thesis by (rule f64_le_less_trans[rotated])
      qed
      with True show ?thesis
        unfolding first_best_def foldl_append foldl.simps b_def[symmetric]
        by (intro exI[of _ "length es"]) (auto simp: pick_def nth_append less_Suc_eq dest: f64_less_imp_not_le f64_less_imp_le)
    next
      case F: False
      then have "foldl pick ('''', 0) (es @ [e]) = b" by (simp add: b_def pick_def)
      moreover have "first_best (es @ [e]) b"
        unfolding first_best_def using i F by (intro exI[of _ i]) (auto simp: nth_append less_Suc_eq)
      ultimately show ?thesis by simp
    qed
  qed
qed simp

text \<open>C40. The language chosen from the header is the supported language of the first of the entries
  with the largest weight among those naming a supported language with a positive weight, by
  primary subtag and ignoring case; without such an entry it is the default. With a cookie
  naming a supported language that language is taken, so the result is always supported.\<close>

theorem match_best_language:
  "(if acceptable header = [] then match_lang header = default_lang
    else \<exists>best. first_best (acceptable header) best \<and> match_lang header = fst best) \<and>
   resolve cookie header \<in> set supported \<and>
   resolve cookie header = (if cookie \<in> set supported then cookie else match_lang header)"
proof -
  have f: "foldl match_step ('''', 0) (split_on CHR '','' header) = foldl pick ('''', 0) (acceptable header)"
    unfolding acceptable_def by (rule foldl_acceptable) (simp add: zero_f64_def)
  have pos: "\<forall>e \<in> set (acceptable header). 0 < snd e \<and> fst e \<in> set supported" by (auto simp: acceptable_def)
  have 1: "if acceptable header = [] then match_lang header = default_lang
    else \<exists>best. first_best (acceptable header) best \<and> match_lang header = fst best \<and> fst best \<in> set supported"
  proof (cases "acceptable header = []")
    case True
    with f show ?thesis by (simp add: match_lang_def)
  next
    case False
    define best where "best = foldl pick ('''', 0) (acceptable header)"
    have b: "first_best (acceptable header) best"
      unfolding best_def by (rule foldl_pick_first_best) (use pos False in auto)
    then have "best \<in> set (acceptable header)" by (auto simp: first_best_def)
    with pos have s: "fst best \<in> set supported" by blast
    then have "fst best \<noteq> ''''" by (auto simp: supported_def)
    then have "match_lang header = fst best" by (simp add: match_lang_def f best_def Let_def)
    with b s show ?thesis unfolding if_not_P[OF False] by blast
  qed
  moreover have "default_lang \<in> set supported" by (simp add: default_lang_def supported_def)
  ultimately have "match_lang header \<in> set supported" by (auto split: if_splits)
  with 1 show ?thesis by (auto simp: resolve_def split: if_splits)
qed

text \<open>A message missing from the catalog of the requested language is taken from the default
  language, and is the key itself only if both catalogs lack it.\<close>

theorem tr_falls_back:
  "tr b lang key = (case b lang key of Some msg \<Rightarrow> msg
     | None \<Rightarrow> (case b default_lang key of Some msg \<Rightarrow> msg | None \<Rightarrow> key))"
  by (simp add: tr_def lookup_def split: option.split)

section \<open>Witness\<close>

text \<open>A typical header: English preferred, German refused.\<close>

lemma demo_header: "acceptable ''en-US,de;q=0'' = [(''en'', whole 1)]"
  by code_simp

lemma first_best_single: "first_best [a] best \<Longrightarrow> best = a"
  unfolding first_best_def by auto

theorem match_best_language_witness: "match_lang ''en-US,de;q=0'' = ''en''"
proof -
  from match_best_language[of "''en-US,de;q=0''" "''''", THEN conjunct1]
  obtain best where b: "first_best [(''en'', whole 1)] best"
    and m: "match_lang ''en-US,de;q=0'' = fst best"
    unfolding demo_header by (simp only: list.distinct(2) if_False) blast
  have "best = (''en'', whole 1)" by (rule first_best_single[OF b])
  with m show ?thesis by simp
qed

end
