(* ===== verification/Setup.thy ===== *)
theory Setup
  imports Strconv
begin

text \<open>
  \<open>internal/web/setup.go\<close>: the Apple configuration profile that carries the proxy's root
  certificate, with the base64 encoding of Go's standard library. Bytes are characters. The
  HTTP handlers of the same file are in \<open>WebHandlers\<close>.
\<close>

section \<open>Base64\<close>

definition b64_alphabet :: string where
  "b64_alphabet = ''ABCDEFGHIJKLMNOPQRSTUVWXYZabcdefghijklmnopqrstuvwxyz0123456789+/''"

definition b64_char :: "int \<Rightarrow> char" where
  "b64_char n = b64_alphabet ! nat n"

text \<open>\<open>base64.StdEncoding.EncodeToString\<close>.\<close>

fun base64_encode :: "string \<Rightarrow> string" where
  "base64_encode (x # y # z # s) =
    (let a = byte x; b = byte y; c = byte z
     in b64_char (a div 4) # b64_char (a mod 4 * 16 + b div 16) # b64_char (b mod 16 * 4 + c div 64) # b64_char (c mod 64)
        # base64_encode s)"
| "base64_encode [x, y] =
    (let a = byte x; b = byte y
     in [b64_char (a div 4), b64_char (a mod 4 * 16 + b div 16), b64_char (b mod 16 * 4), CHR ''=''])"
| "base64_encode [x] = (let a = byte x in [b64_char (a div 4), b64_char (a mod 4 * 16), CHR ''='', CHR ''=''])"
| "base64_encode [] = []"

section \<open>The configuration profile\<close>

definition line :: "nat \<Rightarrow> string \<Rightarrow> string" where
  "line tabs s = replicate tabs (CHR 0x09) @ s @ [CHR 0x0A]"

definition quoted :: "string \<Rightarrow> string" where
  "quoted s = CHR 0x22 # s @ [CHR 0x22]"

text \<open>The template up to and from its \<open>%s\<close>.\<close>

definition mobileconfig_head :: string where
  "mobileconfig_head = concat [
    line 0 (''<?xml version='' @ quoted ''1.0'' @ '' encoding='' @ quoted ''UTF-8'' @ ''?>''),
    line 0 (''<!DOCTYPE plist PUBLIC '' @ quoted ''-//Apple//DTD PLIST 1.0//EN'' @ '' '' @ quoted ''http://www.apple.com/DTDs/PropertyList-1.0.dtd'' @ ''>''),
    line 0 (''<plist version='' @ quoted ''1.0'' @ ''>''),
    line 0 ''<dict>'',
    line 1 ''<key>PayloadContent</key>'',
    line 1 ''<array>'',
    line 2 ''<dict>'',
    line 3 ''<key>PayloadCertificateFileName</key>'',
    line 3 ''<string>root.crt</string>'',
    line 3 ''<key>PayloadContent</key>''] @ replicate 3 (CHR 0x09) @ ''<data>''"

definition mobileconfig_tail :: string where
  "mobileconfig_tail = concat [
    line 0 ''</data>'',
    line 3 ''<key>PayloadDescription</key>'',
    line 3 ''<string>Adds the wha reverse proxy's internal CA root so this device trusts its HTTPS certificate.</string>'',
    line 3 ''<key>PayloadDisplayName</key>'',
    line 3 ''<string>wha secure access root CA</string>'',
    line 3 ''<key>PayloadIdentifier</key>'',
    line 3 ''<string>io.wha.setup.rootca</string>'',
    line 3 ''<key>PayloadType</key>'',
    line 3 ''<string>com.apple.security.root</string>'',
    line 3 ''<key>PayloadUUID</key>'',
    line 3 ''<string>b7e2a6b0-2c1a-4b8b-9a3e-6a1f6e0e6b7a</string>'',
    line 3 ''<key>PayloadVersion</key>'',
    line 3 ''<integer>1</integer>'',
    line 2 ''</dict>'',
    line 1 ''</array>'',
    line 1 ''<key>PayloadDescription</key>'',
    line 1 ''<string>Trusts the internal CA used to serve wha over HTTPS on your home network.</string>'',
    line 1 ''<key>PayloadDisplayName</key>'',
    line 1 (''<string>wha '' @ [CHR 0xE2, CHR 0x80, CHR 0x94] @ '' Secure Access</string>''),
    line 1 ''<key>PayloadIdentifier</key>'',
    line 1 ''<string>io.wha.setup</string>'',
    line 1 ''<key>PayloadRemovalDisallowed</key>'',
    line 1 ''<false/>'',
    line 1 ''<key>PayloadType</key>'',
    line 1 ''<string>Configuration</string>'',
    line 1 ''<key>PayloadUUID</key>'',
    line 1 ''<string>4f1b6c3e-9d5a-4e88-8f2e-2e5b6c1a9f3d</string>'',
    line 1 ''<key>PayloadVersion</key>'',
    line 1 ''<integer>1</integer>'',
    line 0 ''</dict>'',
    line 0 ''</plist>'']"

definition build_mobileconfig :: "string \<Rightarrow> string" where
  "build_mobileconfig der = mobileconfig_head @ base64_encode der @ mobileconfig_tail"

section \<open>The certificate can be recovered from the profile\<close>

text \<open>RFC 4648 decoding, as the reader of the profile does it.\<close>

definition b64_val :: "char \<Rightarrow> int option" where
  "b64_val c = (if c \<in> set b64_alphabet then Some (int (length (takeWhile (\<lambda>d. d \<noteq> c) b64_alphabet))) else None)"

fun base64_decode :: "string \<Rightarrow> string option" where
  "base64_decode (p # q # r # t # s) =
    (case (b64_val p, b64_val q, b64_val r, b64_val t) of
       (Some a, Some b, Some c, Some d) \<Rightarrow>
         map_option (\<lambda>rest. char_of (a * 4 + b div 16) # char_of (b mod 16 * 16 + c div 4) # char_of (c mod 4 * 64 + d) # rest)
           (base64_decode s)
     | (Some a, Some b, Some c, None) \<Rightarrow>
         if t = CHR ''='' \<and> s = [] then Some [char_of (a * 4 + b div 16), char_of (b mod 16 * 16 + c div 4)] else None
     | (Some a, Some b, None, None) \<Rightarrow>
         if r = CHR ''='' \<and> t = CHR ''='' \<and> s = [] then Some [char_of (a * 4 + b div 16)] else None
     | _ \<Rightarrow> None)"
| "base64_decode [] = Some []"
| "base64_decode _ = None"

lemma length_alphabet: "length b64_alphabet = 64"
  by (simp add: b64_alphabet_def)

lemma distinct_alphabet: "distinct b64_alphabet"
  by (simp add: b64_alphabet_def)

lemma alphabet_plain: "c \<in> set b64_alphabet \<Longrightarrow> c \<noteq> CHR ''='' \<and> c \<noteq> CHR ''<''"
  by (auto simp: b64_alphabet_def)

lemma b64_char_in: "0 \<le> n \<Longrightarrow> n < 64 \<Longrightarrow> b64_char n \<in> set b64_alphabet"
  by (simp add: b64_char_def length_alphabet)

lemma takeWhile_nth_distinct: "distinct xs \<Longrightarrow> i < length xs \<Longrightarrow> length (takeWhile (\<lambda>d. d \<noteq> xs ! i) xs) = i"
proof (induction xs arbitrary: i)
  case (Cons x xs)
  then show ?case by (cases i) auto
qed simp

lemma b64_val_char [simp]: "0 \<le> n \<Longrightarrow> n < 64 \<Longrightarrow> b64_val (b64_char n) = Some n"
  using takeWhile_nth_distinct[OF distinct_alphabet, of "nat n"]
  by (simp add: b64_val_def b64_char_in) (simp add: b64_char_def length_alphabet)

lemma b64_val_pad [simp]: "b64_val CHR ''='' = None"
  using alphabet_plain[of "CHR ''=''"] by (auto simp: b64_val_def)

lemma byte_bounds: "0 \<le> byte c \<and> byte c < 256"
  unfolding byte_def by (simp add: of_char_def horner_sum_eq_sum)

lemma char_of_byte: "n = byte c \<Longrightarrow> char_of n = c"
  by (simp add: byte_def)

lemma byte_six_bits:
  "byte x div 4 \<ge> 0" "byte x div 4 < 64" "0 \<le> byte x mod 64" "byte x mod 64 < 64"
  "0 \<le> byte x mod 4 * 16" "byte x mod 4 * 16 < 64" "0 \<le> byte y mod 16 * 4" "byte y mod 16 * 4 < 64"
  "0 \<le> byte x mod 4 * 16 + byte y div 16" "byte x mod 4 * 16 + byte y div 16 < 64"
  "0 \<le> byte y mod 16 * 4 + byte x div 64" "byte y mod 16 * 4 + byte x div 64 < 64"
  using byte_bounds[of x] byte_bounds[of y] by linarith+

lemma shift_div_mod:
  fixes u v k :: int
  assumes "0 \<le> v" "v < k"
  shows "(u * k + v) div k = u" "(u * k + v) mod k = v"
  using assms by (simp_all add: div_add1_eq)

lemma regroup:
  "byte x div 4 * 4 + (byte x mod 4 * 16 + byte y div 16) div 16 = byte x"
  "byte x div 4 * 4 + (byte x mod 4 * 16) div 16 = byte x"
  "(byte x mod 4 * 16 + byte y div 16) mod 16 * 16 + (byte y mod 16 * 4 + byte z div 64) div 4 = byte y"
  "(byte x mod 4 * 16 + byte y div 16) mod 16 * 16 + (byte y mod 16 * 4) div 4 = byte y"
  "(byte y mod 16 * 4 + byte z div 64) mod 4 * 64 + byte z mod 64 = byte z"
proof -
  have y: "0 \<le> byte y div 16" "byte y div 16 < 16" and z: "0 \<le> byte z div 64" "byte z div 64 < 4"
    using byte_bounds[of y] byte_bounds[of z] by linarith+
  show "byte x div 4 * 4 + (byte x mod 4 * 16 + byte y div 16) div 16 = byte x"
    "byte x div 4 * 4 + (byte x mod 4 * 16) div 16 = byte x"
    "(byte x mod 4 * 16 + byte y div 16) mod 16 * 16 + (byte y mod 16 * 4 + byte z div 64) div 4 = byte y"
    "(byte x mod 4 * 16 + byte y div 16) mod 16 * 16 + (byte y mod 16 * 4) div 4 = byte y"
    "(byte y mod 16 * 4 + byte z div 64) mod 4 * 64 + byte z mod 64 = byte z"
    by (simp_all only: shift_div_mod[OF y] shift_div_mod[OF z] nonzero_mult_div_cancel_right div_mult_mod_eq
        zero_neq_numeral[symmetric] not_False_eq_True)
qed

lemma base64_roundtrip: "base64_decode (base64_encode s) = Some s"
proof (induction s rule: base64_encode.induct)
  case (1 x y z s)
  have v: "b64_val (b64_char (byte x div 4)) = Some (byte x div 4)"
    "b64_val (b64_char (byte x mod 4 * 16 + byte y div 16)) = Some (byte x mod 4 * 16 + byte y div 16)"
    "b64_val (b64_char (byte y mod 16 * 4 + byte z div 64)) = Some (byte y mod 16 * 4 + byte z div 64)"
    "b64_val (b64_char (byte z mod 64)) = Some (byte z mod 64)"
    by (simp_all only: b64_val_char byte_six_bits)
  show ?case
    by (simp only: base64_encode.simps base64_decode.simps Let_def v option.case prod.case) (simp only: regroup char_of_byte[OF refl] 1 option.map simp_thms if_True)
next
  case (2 x y)
  have v: "b64_val (b64_char (byte x div 4)) = Some (byte x div 4)"
    "b64_val (b64_char (byte x mod 4 * 16 + byte y div 16)) = Some (byte x mod 4 * 16 + byte y div 16)"
    "b64_val (b64_char (byte y mod 16 * 4)) = Some (byte y mod 16 * 4)"
    by (simp_all only: b64_val_char byte_six_bits)
  show ?case
    by (simp only: base64_encode.simps base64_decode.simps Let_def v b64_val_pad option.case prod.case) (simp only: regroup char_of_byte[OF refl] simp_thms if_True)
next
  case (3 x)
  have v: "b64_val (b64_char (byte x div 4)) = Some (byte x div 4)"
    "b64_val (b64_char (byte x mod 4 * 16)) = Some (byte x mod 4 * 16)"
    by (simp_all only: b64_val_char byte_six_bits)
  show ?case
    by (simp only: base64_encode.simps base64_decode.simps Let_def v b64_val_pad option.case prod.case) (simp only: regroup char_of_byte[OF refl] simp_thms if_True)
qed simp

lemma base64_alphabet: "set (base64_encode s) \<subseteq> insert CHR ''='' (set b64_alphabet)"
proof (induction s rule: base64_encode.induct)
  case (1 x y z s)
  from 1 show ?case by (simp add: Let_def b64_char_in byte_six_bits)
next
  case (2 x y)
  show ?case by (simp add: Let_def b64_char_in byte_six_bits)
next
  case (3 x)
  show ?case by (simp add: Let_def b64_char_in byte_six_bits)
qed simp

text \<open>A device that reads the profile's data element, up to the next tag, and decodes it as base64
  gets exactly the certificate's bytes back.\<close>

theorem mobileconfig_roundtrip:
  "base64_decode (takeWhile (\<lambda>c. c \<noteq> CHR ''<'') (drop (length mobileconfig_head) (build_mobileconfig der))) = Some der"
proof -
  have "takeWhile (\<lambda>c. c \<noteq> CHR ''<'') (base64_encode der @ mobileconfig_tail) = base64_encode der @
      takeWhile (\<lambda>c. c \<noteq> CHR ''<'') mobileconfig_tail"
    using base64_alphabet[of der] alphabet_plain by (intro takeWhile_append2) auto
  moreover have "takeWhile (\<lambda>c. c \<noteq> CHR ''<'') mobileconfig_tail = []"
    by (simp add: mobileconfig_tail_def line_def)
  ultimately show ?thesis by (simp add: build_mobileconfig_def base64_roundtrip)
qed

end
