(* ===== verification/EvccCommander.thy ===== *)
theory EvccCommander
  imports Interfaces
begin

text \<open>
  The evcc client as the controller's \<open>Commander\<close>: whatever the broker does, the client meets
  the commander contract, read off its wire: an acknowledged call is one more acknowledged
  publish of that payload on that command topic.
\<close>

definition evcc_commander :: "paho \<Rightarrow> client commander" where
  "evcc_commander paho = \<lparr>com_set_mode = set_mode paho, com_set_limit_soc = set_limit_soc paho\<rparr>"

lemma evcc_commander_simps [simp]:
  "com_set_mode (evcc_commander paho) = set_mode paho"
  "com_set_limit_soc (evcc_commander paho) = set_limit_soc paho"
  by (simp_all add: evcc_commander_def)

text \<open>The acknowledged commands on the wire; a publish elsewhere than on the two command topics
  is not a command.\<close>

fun wire_command :: "topics \<Rightarrow> wire \<Rightarrow> command option" where
  "wire_command t w = (if w_outcome w \<noteq> PubAcked then None
     else if w_topic w = tp_mode_set t then Some (ModeCmd (w_payload w))
     else if w_topic w = tp_limit_soc_set t then Some (LimitCmd (w_payload w)) else None)"

definition acked_commands :: "client \<Rightarrow> command list" where
  "acked_commands c = List.map_filter (wire_command (cl_topics c)) (cl_wire c)"

text \<open>The two command topics are told apart.\<close>

definition client_ready :: "client \<Rightarrow> bool" where
  "client_ready c \<longleftrightarrow> tp_mode_set (cl_topics c) \<noteq> tp_limit_soc_set (cl_topics c)"

lemma new_client_ready [simp]: "client_ready (new_client cfg lp)"
  by (simp add: client_ready_def new_client_def new_topics_def Let_def)

lemma acked_new_client [simp]: "acked_commands (new_client cfg lp) = []"
  by (simp add: acked_commands_def new_client_def Let_def List.map_filter_simps)

lemma publish_topics [frame]: "cl_topics (fst (publish paho topic payload c)) = cl_topics c"
  by (simp add: publish_def Let_def)

lemma map_filter_snoc: "List.map_filter f (xs @ [x]) = List.map_filter f xs @ (case f x of None \<Rightarrow> [] | Some y \<Rightarrow> [y])"
  by (simp add: List.map_filter_def split: option.split)

lemma publish_acked:
  assumes "publish paho topic payload c = (c', s)"
  shows "acked_commands c' = acked_commands c @ (if s \<noteq> None then []
     else if topic = tp_mode_set (cl_topics c) then [ModeCmd payload]
     else if topic = tp_limit_soc_set (cl_topics c) then [LimitCmd payload] else [])"
  using assms
  by (auto simp: publish_def acked_commands_def map_filter_snoc Let_def split: pub_outcome.splits)

interpretation evcc: commander_contract "evcc_commander paho" client_ready acked_commands
proof
  fix s s' :: client and m :: string and n :: int and e :: error
  show "client_ready s \<Longrightarrow> com_set_mode (evcc_commander paho) m s = (s', None) \<Longrightarrow>
      acked_commands s' = acked_commands s @ [ModeCmd m]"
    by (simp add: set_mode_def publish_acked)
  show "client_ready s \<Longrightarrow> com_set_mode (evcc_commander paho) m s = (s', Some e) \<Longrightarrow> acked_commands s' = acked_commands s"
    by (simp add: set_mode_def publish_acked)
  show "client_ready s \<Longrightarrow> com_set_limit_soc (evcc_commander paho) n s = (s', None) \<Longrightarrow>
      acked_commands s' = acked_commands s @ [LimitCmd (itoa n)]"
    by (auto simp: set_limit_soc_def client_ready_def dest: publish_acked)
  show "client_ready s \<Longrightarrow> com_set_limit_soc (evcc_commander paho) n s = (s', Some e) \<Longrightarrow>
      acked_commands s' = acked_commands s"
    by (simp add: set_limit_soc_def publish_acked)
qed (simp_all add: set_mode_def set_limit_soc_def client_ready_def frame)

end
