(* ===== verification/StoreRecorder.thy ===== *)
theory StoreRecorder
  imports Interfaces
begin

text \<open>
  The SQLite store as the controller's \<open>Recorder\<close>: the store's operations meet the recorder
  contracts, whatever the driver does to single statements; with a driver whose statements
  all succeed the session calls are reliable.
\<close>

definition store_recorder :: "driver \<Rightarrow> db recorder" where
  "store_recorder drv = \<lparr>rec_insert_event = insert_event drv, rec_insert_sample = insert_sample drv,
     rec_start_session = start_session drv, rec_update_session_metrics = update_session_metrics drv,
     rec_end_session = end_session drv, rec_open_session = open_session drv,
     rec_prune_samples = prune_samples drv, rec_prune_events = prune_events drv,
     rec_get_setting = get_setting drv, rec_set_setting = set_setting drv\<rparr>"

lemma store_recorder_simps [simp]:
  "rec_insert_event (store_recorder drv) = insert_event drv"
  "rec_insert_sample (store_recorder drv) = insert_sample drv"
  "rec_start_session (store_recorder drv) = start_session drv"
  "rec_update_session_metrics (store_recorder drv) = update_session_metrics drv"
  "rec_end_session (store_recorder drv) = end_session drv"
  "rec_open_session (store_recorder drv) = open_session drv"
  "rec_prune_samples (store_recorder drv) = prune_samples drv"
  "rec_prune_events (store_recorder drv) = prune_events drv"
  "rec_get_setting (store_recorder drv) = get_setting drv"
  "rec_set_setting (store_recorder drv) = set_setting drv"
  by (simp_all add: store_recorder_def)

section \<open>Settings\<close>

definition db_setting :: "db \<Rightarrow> string \<rightharpoonup> string" where
  "db_setting d k = map_option fst (db_settings d k)"

lemma called_simps [simp]:
  "db_events (called d) = db_events d" "db_next_event (called d) = db_next_event d"
  "db_samples (called d) = db_samples d" "db_next_sample (called d) = db_next_sample d"
  "db_sessions (called d) = db_sessions d" "db_next_session (called d) = db_next_session d"
  "db_settings (called d) = db_settings d"
  by (simp_all add: called_def)

lemma db_setting_frame [frame]:
  "db_setting (called d) = db_setting d"
  "db_setting (d\<lparr>db_events := es\<rparr>) = db_setting d" "db_setting (d\<lparr>db_next_event := n\<rparr>) = db_setting d"
  "db_setting (d\<lparr>db_samples := ss\<rparr>) = db_setting d" "db_setting (d\<lparr>db_next_sample := n\<rparr>) = db_setting d"
  "db_setting (d\<lparr>db_sessions := se\<rparr>) = db_setting d" "db_setting (d\<lparr>db_next_session := n\<rparr>) = db_setting d"
  by (auto simp: db_setting_def)

interpretation store_settings: settings_contract "store_recorder drv" db_setting
proof
  fix k v :: string and r r' :: db and e :: error and x :: "string option"
  show "rec_set_setting (store_recorder drv) k v r = (r', None) \<Longrightarrow> db_setting r' = (db_setting r)(k \<mapsto> v)"
    by (auto simp: set_setting_def db_setting_def split: if_splits)
  show "rec_set_setting (store_recorder drv) k v r = (r', Some e) \<Longrightarrow> db_setting r' = db_setting r"
    by (auto simp: set_setting_def frame split: if_splits)
  show "rec_get_setting (store_recorder drv) k r = (r', Inr x) \<Longrightarrow> x = db_setting r k"
    by (auto simp: get_setting_def db_setting_def split: if_splits)
qed (auto simp: get_setting_def insert_event_def insert_sample_def start_session_def update_session_metrics_def
  end_session_def open_session_def prune_samples_def prune_events_def frame Let_def split: prod.split)

section \<open>Sessions\<close>

text \<open>The invariant of the session table: ids are positive, distinct and below the next one.\<close>

definition sessions_ok :: "db \<Rightarrow> bool" where
  "sessions_ok d \<longleftrightarrow> 0 < db_next_session d \<and> distinct (map se_id (db_sessions d)) \<and>
     (\<forall>r \<in> set (db_sessions d). 0 < se_id r \<and> se_id r < db_next_session d)"

definition open_ids_of :: "session_row list \<Rightarrow> int set" where
  "open_ids_of rows = set (map se_id (filter (\<lambda>r. se_ended_at r = None) rows))"

definition open_session_ids :: "db \<Rightarrow> int set" where
  "open_session_ids d = open_ids_of (db_sessions d)"

lemma open_ids_of_simps [simp]:
  "open_ids_of [] = {}"
  "open_ids_of (r # rows) = (if se_ended_at r = None then insert (se_id r) (open_ids_of rows) else open_ids_of rows)"
  "open_ids_of (rows @ rows') = open_ids_of rows \<union> open_ids_of rows'"
  by (auto simp: open_ids_of_def)

lemma open_ids_of_iff: "i \<in> open_ids_of rows \<longleftrightarrow> (\<exists>r \<in> set rows. se_ended_at r = None \<and> se_id r = i)"
  by (auto simp: open_ids_of_def)

lemma open_ids_of_keep:
  "(\<And>r. se_id (f r) = se_id r \<and> se_ended_at (f r) = se_ended_at r) \<Longrightarrow>
    open_ids_of (map (\<lambda>r. if p r then f r else r) rows) = open_ids_of rows"
  by (induction rows) auto

lemma open_ids_of_close:
  "(\<And>r. se_ended_at (f r) = Some e) \<Longrightarrow>
    open_ids_of (map (\<lambda>r. if se_id r = i then f r else r) rows) = open_ids_of rows - {i}"
  by (induction rows) auto

lemma sessions_ok_empty [simp]: "sessions_ok empty_db"
  by (simp add: sessions_ok_def empty_db_def)

lemma sessions_ok_cong: "db_sessions d = db_sessions d' \<Longrightarrow> db_next_session d = db_next_session d' \<Longrightarrow>
    sessions_ok d = sessions_ok d'"
  by (simp add: sessions_ok_def)

lemma open_ids_cong: "db_sessions d = db_sessions d' \<Longrightarrow> open_session_ids d = open_session_ids d'"
  by (simp add: open_session_ids_def)

lemma session_tables_frame [frame]:
  "db_sessions (fst (get_setting drv k d)) = db_sessions d" "db_next_session (fst (get_setting drv k d)) = db_next_session d"
  "db_sessions (fst (set_setting drv k v d)) = db_sessions d" "db_next_session (fst (set_setting drv k v d)) = db_next_session d"
  "db_sessions (fst (insert_event drv ev d)) = db_sessions d" "db_next_session (fst (insert_event drv ev d)) = db_next_session d"
  "db_sessions (fst (insert_sample drv sm d)) = db_sessions d" "db_next_session (fst (insert_sample drv sm d)) = db_next_session d"
  "db_sessions (fst (open_session drv d)) = db_sessions d" "db_next_session (fst (open_session drv d)) = db_next_session d"
  "db_sessions (fst (prune_samples drv t d)) = db_sessions d" "db_next_session (fst (prune_samples drv t d)) = db_next_session d"
  "db_sessions (fst (prune_events drv t d)) = db_sessions d" "db_next_session (fst (prune_events drv t d)) = db_next_session d"
  by (simp_all add: get_setting_def set_setting_def insert_event_def insert_sample_def open_session_def
      prune_samples_def prune_events_def Let_def)

text \<open>An update that keeps the ids keeps the invariant.\<close>

lemma update_rows_ids: "(\<And>r. se_id (f r) = se_id r) \<Longrightarrow> map se_id (fst (update_rows p f rows)) = map se_id rows"
  by (simp add: update_rows_def)

lemma sessions_ok_update:
  assumes "sessions_ok d" "map se_id rows = map se_id (db_sessions d)"
  shows "sessions_ok ((called d)\<lparr>db_sessions := rows\<rparr>)"
proof -
  have "se_id ` set rows = se_id ` set (db_sessions d)" by (metis assms(2) set_map)
  then have "\<forall>r \<in> set rows. 0 < se_id r \<and> se_id r < db_next_session d"
    using assms(1) by (metis (mono_tags, lifting) image_iff sessions_ok_def)
  with assms show ?thesis by (simp add: sessions_ok_def)
qed

lemma sessions_ok_called [simp]: "sessions_ok (called d) = sessions_ok d"
  by (rule sessions_ok_cong) simp_all

lemma sessions_ok_metrics: "sessions_ok d \<Longrightarrow> sessions_ok (fst (update_session_metrics drv i en av pk d))"
  by (simp add: update_session_metrics_def split_beta sessions_ok_update update_rows_ids)

lemma sessions_ok_end: "sessions_ok d \<Longrightarrow> sessions_ok (fst (end_session drv i t reason soc en av pk d))"
  by (simp add: end_session_def split_beta sessions_ok_update update_rows_ids)

lemma sessions_ok_start: "sessions_ok d \<Longrightarrow> sessions_ok (fst (start_session drv t reason soc d))"
  by (fastforce simp: start_session_def sessions_ok_def)

lemma open_ids_called [simp]: "open_session_ids (called d) = open_session_ids d"
  by (rule open_ids_cong) simp

lemma open_ids_metrics: "open_session_ids (fst (update_session_metrics drv i en av pk d)) = open_session_ids d"
  by (simp add: update_session_metrics_def open_session_ids_def split_beta update_rows_def open_ids_of_keep)

lemma open_ids_end:
  "open_session_ids (fst (end_session drv i t reason soc en av pk d)) =
    (if outcome drv d = SqlFail then open_session_ids d else open_session_ids d - {i})"
  by (simp add: end_session_def open_session_ids_def split_beta update_rows_def open_ids_of_close)

lemma open_ids_start:
  "open_session_ids (fst (start_session drv t reason soc d)) =
    (if outcome drv d = SqlFail then open_session_ids d else insert (db_next_session d) (open_session_ids d))"
  by (simp add: start_session_def open_session_ids_def)

lemma open_ids_below: "sessions_ok d \<Longrightarrow> i \<in> open_session_ids d \<Longrightarrow> 0 < i \<and> i < db_next_session d"
  by (auto simp: sessions_ok_def open_session_ids_def open_ids_of_iff)

lemma newest_first_set: "set (newest_first rows) = set rows"
  by (simp add: newest_first_def)

lemma open_session_result:
  assumes "open_session drv d = (d', Inr x)"
  shows "case x of None \<Rightarrow> open_session_ids d = {} | Some s \<Rightarrow> se_id s \<in> open_session_ids d"
proof -
  let ?rows = "filter (\<lambda>r. se_ended_at r = None) (db_sessions d)"
  show ?thesis
  proof (cases "newest_first ?rows")
    case Nil
    then have "set ?rows = {}" using newest_first_set[of ?rows] by simp
    then show ?thesis using assms Nil
      by (auto simp: open_session_def limit_rows_def open_session_ids_def open_ids_of_def filter_empty_conv split: if_splits)
  next
    case (Cons r rs)
    then have "r \<in> set ?rows" using newest_first_set[of ?rows] by (metis list.set_intros(1))
    then have "se_id r \<in> open_session_ids d" by (auto simp: open_session_ids_def open_ids_of_def)
    moreover have "scan_session drv r = Some s \<Longrightarrow> se_id s = se_id r" for s
      by (auto simp: scan_session_def Let_def split: option.splits)
    ultimately show ?thesis using assms Cons
      by (auto simp: open_session_def limit_rows_def split: if_splits option.splits)
  qed
qed

interpretation store_sessions: sessions_contract "store_recorder drv" sessions_ok open_session_ids
proof
  fix r r' :: db and t :: time and reason :: string and soc :: "int option" and i :: int and e :: error
    and en av pk :: f64 and x :: "(time, string) session option"
  show "i \<noteq> 0 \<and> i \<notin> open_session_ids r \<and> open_session_ids r' = insert i (open_session_ids r)"
    if "sessions_ok r" "rec_start_session (store_recorder drv) t reason soc r = (r', Inr i)"
  proof -
    have "r' = fst (start_session drv t reason soc r)" "i = db_next_session r" "outcome drv r \<noteq> SqlFail"
      using that(2) by (auto simp: start_session_def split: if_splits)
    with that(1) show ?thesis
      using open_ids_below[of r "db_next_session r"] by (auto simp: open_ids_start sessions_ok_def)
  qed
  show "open_session_ids r \<subseteq> open_session_ids r'"
    if "sessions_ok r" "rec_start_session (store_recorder drv) t reason soc r = (r', Inl e)"
    using that open_ids_start[of drv t reason soc r] by (auto split: if_splits)
  show "open_session_ids r' = open_session_ids r - {i}"
    if "sessions_ok r" "rec_end_session (store_recorder drv) i t reason soc en av pk r = (r', None)"
    using that open_ids_end[of drv i t reason soc en av pk r] by (auto simp: end_session_def split: if_splits)
  show "open_session_ids r - {i} \<subseteq> open_session_ids r' \<and> open_session_ids r' \<subseteq> open_session_ids r"
    if "sessions_ok r" "rec_end_session (store_recorder drv) i t reason soc en av pk r = (r', Some e)"
    using that open_ids_end[of drv i t reason soc en av pk r] by (auto split: if_splits)
  show "case x of None \<Rightarrow> open_session_ids r = {} | Some s \<Rightarrow> se_id s \<in> open_session_ids r"
    if "sessions_ok r" "rec_open_session (store_recorder drv) r = (r', Inr x)"
    using that(2) by (simp add: open_session_result)
  show "sessions_ok r \<Longrightarrow> sessions_ok (fst (rec_start_session (store_recorder drv) t reason soc r))"
    by (simp add: sessions_ok_start)
  show "sessions_ok r \<Longrightarrow> sessions_ok (fst (rec_update_session_metrics (store_recorder drv) i en av pk r))"
    by (simp add: sessions_ok_metrics)
  show "sessions_ok r \<Longrightarrow> sessions_ok (fst (rec_end_session (store_recorder drv) i t reason soc en av pk r))"
    by (simp add: sessions_ok_end)
qed (simp_all add: open_ids_metrics frame
  open_ids_cong [OF session_tables_frame(1)] open_ids_cong [OF session_tables_frame(3)]
  open_ids_cong [OF session_tables_frame(5)] open_ids_cong [OF session_tables_frame(7)]
  open_ids_cong [OF session_tables_frame(9)] open_ids_cong [OF session_tables_frame(11)]
  open_ids_cong [OF session_tables_frame(13)] sessions_ok_def)


section \<open>With a driver that never fails\<close>

definition all_ok :: "driver \<Rightarrow> bool" where
  "all_ok drv \<longleftrightarrow> (\<forall>n. drv_outcome drv n = SqlOk)"

definition good_driver :: "(string \<Rightarrow> string) \<Rightarrow> (nat \<Rightarrow> time) \<Rightarrow> driver" where
  "good_driver text wall = \<lparr>drv_outcome = (\<lambda>_. SqlOk), drv_text = text, drv_now = wall\<rparr>"

lemma outcome_good [simp]: "outcome (good_driver text wall) d = SqlOk"
  by (simp add: outcome_def good_driver_def)

lemma end_session_finds:
  assumes "i \<in> open_session_ids d" "outcome drv d = SqlOk"
  shows "snd (end_session drv i t reason soc en av pk d) = None"
proof -
  obtain r where "r \<in> set (db_sessions d)" "se_id r = i" using assms(1) by (auto simp: open_session_ids_def open_ids_of_iff)
  then have "filter (\<lambda>r. se_id r = i) (db_sessions d) \<noteq> []" by (auto simp: filter_empty_conv)
  with assms(2) show ?thesis by (simp add: end_session_def update_rows_def)
qed

interpretation good_sessions: reliable_sessions "store_recorder (good_driver text wall)" sessions_ok open_session_ids
proof
  fix r :: db and t :: time and reason :: string and soc :: "int option" and i :: int and en av pk :: f64
  show "\<exists>r' j. rec_start_session (store_recorder (good_driver text wall)) t reason soc r = (r', Inr j)"
    by (simp add: start_session_def)
  show "\<exists>r'. rec_end_session (store_recorder (good_driver text wall)) i t reason soc en av pk r = (r', None)"
    if "sessions_ok r" "i \<in> open_session_ids r"
    using end_session_finds[OF that(2), of "good_driver text wall" t reason soc en av pk]
    by (metis outcome_good prod.collapse store_recorder_simps(5))
qed

interpretation store_contract: recorder_contract "store_recorder drv" db_setting sessions_ok open_session_ids
  by unfold_locales

end
