(* ===== verification/ControllerWire.thy ===== *)
theory ControllerWire
  imports Controller PolicyProps EvccCommander StoreRecorder
begin

text \<open>
  What the controller puts on the wire: frame lemmas of the tick's parts, and, for any
  commander that meets its contract, the invariant that the controller's memory of the last
  published mode and limit is the last one acknowledged, and that only known modes and
  percentages are ever published.
\<close>

section \<open>Frames\<close>

lemma record_event_eq: "record_event ri e inp s c = c\<lparr>c_rec := c_rec (record_event ri e inp s c)\<rparr>"
  by (simp add: record_event_def)

lemma record_event_frame [frame]:
  "c_cfg (record_event ri e inp s c) = c_cfg c" "c_cmd (record_event ri e inp s c) = c_cmd c"
  "c_ctrl (record_event ri e inp s c) = c_ctrl c" "c_state (record_event ri e inp s c) = c_state c"
  "c_timers (record_event ri e inp s c) = c_timers c" "c_last_mode (record_event ri e inp s c) = c_last_mode c"
  "c_last_publish_at (record_event ri e inp s c) = c_last_publish_at c"
  "c_limit_soc_set (record_event ri e inp s c) = c_limit_soc_set c"
  "c_last_limit_soc (record_event ri e inp s c) = c_last_limit_soc c"
  "c_last_limit_publish_at (record_event ri e inp s c) = c_last_limit_publish_at c"
  "c_prev_charging (record_event ri e inp s c) = c_prev_charging c"
  "c_session_id (record_event ri e inp s c) = c_session_id c"
  "c_prev_broker_connected (record_event ri e inp s c) = c_prev_broker_connected c"
  "c_prev_online (record_event ri e inp s c) = c_prev_online c"
  by (simp_all add: record_event_def)

lemma record_sample_frame [frame]:
  "c_cfg (record_sample ri now inp s d c) = c_cfg c" "c_cmd (record_sample ri now inp s d c) = c_cmd c"
  "c_ctrl (record_sample ri now inp s d c) = c_ctrl c" "c_state (record_sample ri now inp s d c) = c_state c"
  "c_timers (record_sample ri now inp s d c) = c_timers c" "c_last_mode (record_sample ri now inp s d c) = c_last_mode c"
  "c_last_publish_at (record_sample ri now inp s d c) = c_last_publish_at c"
  "c_limit_soc_set (record_sample ri now inp s d c) = c_limit_soc_set c"
  "c_last_limit_soc (record_sample ri now inp s d c) = c_last_limit_soc c"
  "c_last_limit_publish_at (record_sample ri now inp s d c) = c_last_limit_publish_at c"
  "c_prev_charging (record_sample ri now inp s d c) = c_prev_charging c"
  "c_session_id (record_sample ri now inp s d c) = c_session_id c"
  by (simp_all add: record_sample_def)

lemma publish_mode_frame [frame]:
  "c_cfg (publish_mode ci ri now d inp s f c) = c_cfg c" "c_ctrl (publish_mode ci ri now d inp s f c) = c_ctrl c"
  "c_state (publish_mode ci ri now d inp s f c) = c_state c" "c_timers (publish_mode ci ri now d inp s f c) = c_timers c"
  "c_limit_soc_set (publish_mode ci ri now d inp s f c) = c_limit_soc_set c"
  "c_last_limit_soc (publish_mode ci ri now d inp s f c) = c_last_limit_soc c"
  "c_last_limit_publish_at (publish_mode ci ri now d inp s f c) = c_last_limit_publish_at c"
  "c_prev_charging (publish_mode ci ri now d inp s f c) = c_prev_charging c"
  "c_session_id (publish_mode ci ri now d inp s f c) = c_session_id c"
  by (simp_all add: publish_mode_def Let_def frame split: prod.split option.split)

lemma publish_limit_frame [frame]:
  "c_cfg (publish_limit_soc ci ri now t inp s b f c) = c_cfg c" "c_ctrl (publish_limit_soc ci ri now t inp s b f c) = c_ctrl c"
  "c_state (publish_limit_soc ci ri now t inp s b f c) = c_state c"
  "c_timers (publish_limit_soc ci ri now t inp s b f c) = c_timers c"
  "c_last_mode (publish_limit_soc ci ri now t inp s b f c) = c_last_mode c"
  "c_last_publish_at (publish_limit_soc ci ri now t inp s b f c) = c_last_publish_at c"
  "c_prev_charging (publish_limit_soc ci ri now t inp s b f c) = c_prev_charging c"
  "c_session_id (publish_limit_soc ci ri now t inp s b f c) = c_session_id c"
  by (simp_all add: publish_limit_soc_def Let_def frame split: prod.split option.split)

lemmas session_part_defs = open_new_session_def close_session_def accumulate_def

lemma session_parts_frame [frame]:
  "c_cfg (open_new_session ri now inp c) = c_cfg c" "c_cfg (close_session ri now inp reason c) = c_cfg c"
  "c_cfg (accumulate ri inp c) = c_cfg c"
  "c_cmd (open_new_session ri now inp c) = c_cmd c" "c_cmd (close_session ri now inp reason c) = c_cmd c"
  "c_cmd (accumulate ri inp c) = c_cmd c"
  "c_ctrl (open_new_session ri now inp c) = c_ctrl c" "c_ctrl (close_session ri now inp reason c) = c_ctrl c"
  "c_ctrl (accumulate ri inp c) = c_ctrl c"
  "c_state (open_new_session ri now inp c) = c_state c" "c_state (close_session ri now inp reason c) = c_state c"
  "c_state (accumulate ri inp c) = c_state c"
  "c_timers (open_new_session ri now inp c) = c_timers c" "c_timers (close_session ri now inp reason c) = c_timers c"
  "c_timers (accumulate ri inp c) = c_timers c"
  "c_last_mode (open_new_session ri now inp c) = c_last_mode c" "c_last_mode (close_session ri now inp reason c) = c_last_mode c"
  "c_last_mode (accumulate ri inp c) = c_last_mode c"
  "c_last_publish_at (open_new_session ri now inp c) = c_last_publish_at c"
  "c_last_publish_at (close_session ri now inp reason c) = c_last_publish_at c"
  "c_last_publish_at (accumulate ri inp c) = c_last_publish_at c"
  "c_limit_soc_set (open_new_session ri now inp c) = c_limit_soc_set c"
  "c_limit_soc_set (close_session ri now inp reason c) = c_limit_soc_set c"
  "c_limit_soc_set (accumulate ri inp c) = c_limit_soc_set c"
  "c_last_limit_soc (open_new_session ri now inp c) = c_last_limit_soc c"
  "c_last_limit_soc (close_session ri now inp reason c) = c_last_limit_soc c"
  "c_last_limit_soc (accumulate ri inp c) = c_last_limit_soc c"
  "c_last_limit_publish_at (open_new_session ri now inp c) = c_last_limit_publish_at c"
  "c_last_limit_publish_at (close_session ri now inp reason c) = c_last_limit_publish_at c"
  "c_last_limit_publish_at (accumulate ri inp c) = c_last_limit_publish_at c"
  by (simp_all add: session_part_defs Let_def split: prod.split sum.split)

lemma track_session_frame [frame]:
  "c_cfg (track_session ri now inp st c) = c_cfg c" "c_cmd (track_session ri now inp st c) = c_cmd c"
  "c_ctrl (track_session ri now inp st c) = c_ctrl c" "c_state (track_session ri now inp st c) = c_state c"
  "c_timers (track_session ri now inp st c) = c_timers c"
  "c_last_mode (track_session ri now inp st c) = c_last_mode c"
  "c_last_publish_at (track_session ri now inp st c) = c_last_publish_at c"
  "c_limit_soc_set (track_session ri now inp st c) = c_limit_soc_set c"
  "c_last_limit_soc (track_session ri now inp st c) = c_last_limit_soc c"
  "c_last_limit_publish_at (track_session ri now inp st c) = c_last_limit_publish_at c"
  "c_prev_charging (track_session ri now inp st c) = in_charging inp"
  by (simp_all add: track_session_def Let_def frame)

section \<open>What has been acknowledged\<close>

fun mode_of :: "command \<Rightarrow> string option" where
  "mode_of (ModeCmd m) = Some m" | "mode_of (LimitCmd p) = None"

fun limit_of :: "command \<Rightarrow> string option" where
  "limit_of (ModeCmd m) = None" | "limit_of (LimitCmd p) = Some p"

definition modes :: "command list \<Rightarrow> string list" where "modes cs = List.map_filter mode_of cs"
definition limits :: "command list \<Rightarrow> string list" where "limits cs = List.map_filter limit_of cs"

lemma modes_limits_simps [simp]:
  "modes [] = []" "limits [] = []"
  "modes (cs @ [ModeCmd m]) = modes cs @ [m]" "modes (cs @ [LimitCmd p]) = modes cs"
  "limits (cs @ [ModeCmd m]) = limits cs" "limits (cs @ [LimitCmd p]) = limits cs @ [p]"
  by (simp_all add: modes_def limits_def List.map_filter_def)

text \<open>The controller remembers exactly the last acknowledged mode and limit.\<close>

definition wire_synced :: "command list \<Rightarrow> ('c, 'r) controller \<Rightarrow> bool" where
  "wire_synced cs c \<longleftrightarrow>
     c_last_mode c = (if modes cs = [] then '''' else last (modes cs)) \<and>
     (if c_limit_soc_set c then limits cs \<noteq> [] \<and> last (limits cs) = itoa (c_last_limit_soc c) else limits cs = [])"

text \<open>Only the three modes evcc knows, only percentages.\<close>

definition wire_safe :: "command list \<Rightarrow> bool" where
  "wire_safe cs \<longleftrightarrow> set (modes cs) \<subseteq> {ModeOff, EnableModePV, EnableModeNow} \<and>
     set (limits cs) \<subseteq> itoa ` {1..100}"

text \<open>The loop-owned part of a tick as far as the commander is concerned: the mode, then the limit.\<close>

definition tick_force :: "snapshot \<Rightarrow> ('c, 'r) controller \<Rightarrow> bool" where
  "tick_force snap c \<longleftrightarrow> sn_broker_connected snap \<and> \<not> c_prev_broker_connected c \<or>
     m_value (sn_online snap) \<and> \<not> c_prev_online c"

definition effects_start :: "'r recorder \<Rightarrow> time \<Rightarrow> snapshot \<Rightarrow> tick_view \<Rightarrow> tick_plan \<Rightarrow> ('c, 'r) controller \<Rightarrow> ('c, 'r) controller" where
  "effects_start ri now snap v p c =
    (let c = c\<lparr>c_prev_broker_connected := sn_broker_connected snap, c_prev_online := m_value (sn_online snap)\<rparr>
     in if dec_state (pl_decision p) \<noteq> tv_state v then record_event ri ((blank_event now ''state_change'')\<lparr>
                ev_from := state_str (tv_state v), ev_to := state_str (dec_state (pl_decision p)),
                ev_detail := dec_reason (pl_decision p)\<rparr>) (pl_inputs p) (pl_surplus p) c
        else c)"

lemma tick_effects_split:
  "tick_effects ci ri now snap v p c =
    record_sample ri now (pl_inputs p) (pl_surplus p) (pl_decision p)
     (track_session ri now (pl_inputs p) (dec_state (pl_decision p))
       (publish_limit_soc ci ri now (pl_limit_target p) (pl_inputs p) (pl_surplus p) (sn_broker_connected snap) (tick_force snap c)
         (publish_mode ci ri now (pl_decision p) (pl_inputs p) (pl_surplus p) (tick_force snap c)
           (effects_start ri now snap v p c))))"
  by (simp add: tick_effects_def effects_start_def tick_force_def Let_def)

lemma effects_start_frame [frame]:
  "c_cfg (effects_start ri now snap v p c) = c_cfg c" "c_cmd (effects_start ri now snap v p c) = c_cmd c"
  "c_ctrl (effects_start ri now snap v p c) = c_ctrl c" "c_state (effects_start ri now snap v p c) = c_state c"
  "c_timers (effects_start ri now snap v p c) = c_timers c"
  "c_last_mode (effects_start ri now snap v p c) = c_last_mode c"
  "c_last_publish_at (effects_start ri now snap v p c) = c_last_publish_at c"
  "c_limit_soc_set (effects_start ri now snap v p c) = c_limit_soc_set c"
  "c_last_limit_soc (effects_start ri now snap v p c) = c_last_limit_soc c"
  "c_last_limit_publish_at (effects_start ri now snap v p c) = c_last_limit_publish_at c"
  "c_prev_charging (effects_start ri now snap v p c) = c_prev_charging c"
  "c_session_id (effects_start ri now snap v p c) = c_session_id c"
  by (simp_all add: effects_start_def Let_def frame)

lemma tick_commit_frame [frame]:
  "c_cfg (tick_commit now snap v p c) = c_cfg c" "c_cmd (tick_commit now snap v p c) = c_cmd c"
  "c_rec (tick_commit now snap v p c) = c_rec c"
  "c_last_mode (tick_commit now snap v p c) = c_last_mode c"
  "c_last_publish_at (tick_commit now snap v p c) = c_last_publish_at c"
  "c_limit_soc_set (tick_commit now snap v p c) = c_limit_soc_set c"
  "c_last_limit_soc (tick_commit now snap v p c) = c_last_limit_soc c"
  "c_last_limit_publish_at (tick_commit now snap v p c) = c_last_limit_publish_at c"
  "c_prev_charging (tick_commit now snap v p c) = c_prev_charging c"
  "c_session_id (tick_commit now snap v p c) = c_session_id c"
  "c_state (tick_commit now snap v p c) = dec_state (pl_decision p)"
  "c_timers (tick_commit now snap v p c) = dec_timers (pl_decision p)"
  by (simp_all add: tick_commit_def)

context commander_contract
begin

lemma publish_mode_cases:
  assumes "ready (c_cmd c)"
  obtains (quiet) "publish_mode ci ri now d inp s f c = c" "dec_mode d = c_last_mode c" "\<not> f"
      "time_sub now (c_last_publish_at c) < cfg_republish (c_cfg c)"
  | (failed) cmd e where "com_set_mode ci (dec_mode d) (c_cmd c) = (cmd, Some e)"
      "publish_mode ci ri now d inp s f c = c\<lparr>c_cmd := cmd\<rparr>" "ready cmd" "acked cmd = acked (c_cmd c)"
  | (sent) cmd where "com_set_mode ci (dec_mode d) (c_cmd c) = (cmd, None)"
      "c_cmd (publish_mode ci ri now d inp s f c) = cmd" "ready cmd" "acked cmd = acked (c_cmd c) @ [ModeCmd (dec_mode d)]"
      "c_last_mode (publish_mode ci ri now d inp s f c) = dec_mode d"
      "c_last_publish_at (publish_mode ci ri now d inp s f c) = now"
proof (cases "dec_mode d = c_last_mode c \<and> \<not> f \<and> time_sub now (c_last_publish_at c) < cfg_republish (c_cfg c)")
  case True
  then show thesis by (intro quiet) (simp_all add: publish_mode_def)
next
  case False
  obtain cmd st where s: "com_set_mode ci (dec_mode d) (c_cmd c) = (cmd, st)" by (cases "com_set_mode ci (dec_mode d) (c_cmd c)")
  have r: "ready cmd" using ready_frame(1)[OF assms, of "dec_mode d"] s by simp
  show thesis
  proof (cases st)
    case None
    with False s r show thesis
      by (intro sent[of cmd]) (auto simp: publish_mode_def Let_def frame mode_acked[OF assms])
  next
    case (Some e)
    with False s r show thesis
      by (intro failed[of cmd e]) (auto simp: publish_mode_def Let_def frame mode_failed[OF assms])
  qed
qed

lemma publish_limit_cases:
  assumes "ready (c_cmd c)"
  obtains (quiet) "publish_limit_soc ci ri now t inp s b f c = c"
      "\<not> b \<or> (c_limit_soc_set c \<and> t = c_last_limit_soc c \<and> \<not> f \<and>
         time_sub now (c_last_limit_publish_at c) < cfg_republish (c_cfg c))"
  | (failed) cmd e where "com_set_limit_soc ci t (c_cmd c) = (cmd, Some e)"
      "publish_limit_soc ci ri now t inp s b f c = c\<lparr>c_cmd := cmd\<rparr>" "ready cmd" "acked cmd = acked (c_cmd c)" "b"
  | (sent) cmd where "com_set_limit_soc ci t (c_cmd c) = (cmd, None)" "b"
      "c_cmd (publish_limit_soc ci ri now t inp s b f c) = cmd" "ready cmd" "acked cmd = acked (c_cmd c) @ [LimitCmd (itoa t)]"
      "c_limit_soc_set (publish_limit_soc ci ri now t inp s b f c)"
      "c_last_limit_soc (publish_limit_soc ci ri now t inp s b f c) = t"
      "c_last_limit_publish_at (publish_limit_soc ci ri now t inp s b f c) = now"
proof (cases "\<not> b \<or> (c_limit_soc_set c \<and> t = c_last_limit_soc c \<and> \<not> f \<and>
         time_sub now (c_last_limit_publish_at c) < cfg_republish (c_cfg c))")
  case True
  then show thesis by (intro quiet) (auto simp: publish_limit_soc_def)
next
  case False
  obtain cmd st where s: "com_set_limit_soc ci t (c_cmd c) = (cmd, st)" by (cases "com_set_limit_soc ci t (c_cmd c)")
  have r: "ready cmd" using ready_frame(2)[OF assms, of t] s by simp
  show thesis
  proof (cases st)
    case None
    with False s r show thesis
      by (intro sent[of cmd]) (auto simp: publish_limit_soc_def Let_def frame limit_acked[OF assms])
  next
    case (Some e)
    with False s r show thesis
      by (intro failed[of cmd e]) (auto simp: publish_limit_soc_def Let_def frame limit_failed[OF assms])
  qed
qed

end

section \<open>Well-formed settings and plans\<close>

definition settings_wf :: "control \<Rightarrow> control_state \<Rightarrow> bool" where
  "settings_wf cfg cs \<longleftrightarrow> valid_charge_power (cs_charge_power cs) \<and> valid_auto_profile (cs_auto_profile cs) \<and>
     (\<forall>p t. cs_target_soc cs p = Some t \<longrightarrow> target_soc_ok t) \<and>
     (\<forall>p w. cs_start_threshold cs p = Some w \<longrightarrow> threshold_step_ok w \<and> \<not> w \<le> cfg_stop_threshold cfg)"

definition known_mode :: "string \<Rightarrow> bool" where
  "known_mode m \<longleftrightarrow> m \<in> {ModeOff, EnableModePV, EnableModeNow}"

definition plan_ok :: "tick_plan \<Rightarrow> bool" where
  "plan_ok p \<longleftrightarrow> known_mode (dec_mode (pl_decision p)) \<and> 1 \<le> pl_limit_target p \<and> pl_limit_target p \<le> 100"

lemma new_settings_wf: "control_ok cfg \<Longrightarrow> settings_wf cfg (c_ctrl (new_controller cfg cmd rc))"
  by (auto simp: settings_wf_def new_controller_def control_ok_def valid_charge_power_def valid_auto_profile_def)

lemma settings_wf_override [simp]:
  "settings_wf cfg (cs\<lparr>cs_override := a\<rparr>) = settings_wf cfg cs"
  "settings_wf cfg (cs\<lparr>cs_override_until := u\<rparr>) = settings_wf cfg cs"
  "settings_wf cfg (cs\<lparr>cs_cap_bypass := b\<rparr>) = settings_wf cfg cs"
  "settings_wf cfg (cs\<lparr>cs_cap_bypass_soc := n\<rparr>) = settings_wf cfg cs"
  by (simp_all add: settings_wf_def)

lemma settings_wf_commit: "settings_wf cfg (c_ctrl c) \<Longrightarrow> settings_wf cfg (c_ctrl (tick_commit now snap v p c))"
  by (simp add: tick_commit_def)

lemma plan_ok_decide:
  assumes "control_ok cfg" "settings_wf cfg (tv_ctrl v)"
  shows "plan_ok (tick_decide oor now snap cfg v)"
proof -
  let ?inp = "inputs_from_snapshot oor now snap cfg (tv_ctrl v)"
  have t: "0 \<le> t \<and> t \<le> 100" if "cs_target_soc (tv_ctrl v) q = Some t" for q t
    using assms(2) that by (fastforce simp: settings_wf_def target_soc_ok_def)
  have "0 \<le> in_target_soc ?inp \<and> in_target_soc ?inp \<le> 100"
    by (auto simp: latch_overrides_def map_get_def Let_def dest: t split: option.split)
  moreover have "effective_mode ?inp cfg \<in> {EnableModePV, EnableModeNow}"
    using assms by (auto simp: effective_mode_def settings_wf_def valid_charge_power_def control_ok_def)
  ultimately show ?thesis
    using limit_target_in_range[OF assms(1), of ?inp now]
    by (auto simp: plan_ok_def tick_decide_def Let_def known_mode_def decide_mode_of_state)
qed

section \<open>The wire invariant\<close>

context commander_contract
begin

definition wire_ok :: "('c, 'r) controller \<Rightarrow> bool" where
  "wire_ok c \<longleftrightarrow> ready (c_cmd c) \<and> wire_synced (acked (c_cmd c)) c \<and> wire_safe (acked (c_cmd c))"

lemma wire_ok_same:
  "wire_ok c \<Longrightarrow> c_cmd c' = c_cmd c \<Longrightarrow> c_last_mode c' = c_last_mode c \<Longrightarrow> c_limit_soc_set c' = c_limit_soc_set c \<Longrightarrow>
    c_last_limit_soc c' = c_last_limit_soc c \<Longrightarrow> wire_ok c'"
  by (simp add: wire_ok_def wire_synced_def)

lemma wire_ok_publish_mode:
  assumes "wire_ok c" "known_mode (dec_mode d)"
  shows "wire_ok (publish_mode ci ri now d inp s f c)"
proof -
  have r: "ready (c_cmd c)" using assms(1) by (simp add: wire_ok_def)
  from r show ?thesis
  proof (cases rule: publish_mode_cases[where d = d and ri = ri and now = now and inp = inp and s = s and f = f])
    case (sent cmd)
    with assms show ?thesis by (simp add: wire_ok_def wire_synced_def wire_safe_def known_mode_def frame)
  qed (use assms in \<open>auto simp: wire_ok_def wire_synced_def\<close>)
qed

lemma wire_ok_publish_limit:
  assumes "wire_ok c" "1 \<le> t" "t \<le> 100"
  shows "wire_ok (publish_limit_soc ci ri now t inp s b f c)"
proof -
  have r: "ready (c_cmd c)" using assms(1) by (simp add: wire_ok_def)
  from r show ?thesis
  proof (cases rule: publish_limit_cases[where t = t and ri = ri and now = now and inp = inp and s = s and f = f and b = b])
    case (sent cmd)
    with assms show ?thesis by (simp add: wire_ok_def wire_synced_def wire_safe_def frame)
  qed (use assms in \<open>auto simp: wire_ok_def wire_synced_def\<close>)
qed

lemma wire_ok_effects:
  assumes "wire_ok c" "plan_ok p"
  shows "wire_ok (tick_effects ci ri now snap v p c)"
proof -
  have "wire_ok (effects_start ri now snap v p c)" using assms(1) by (rule wire_ok_same) (simp_all add: frame)
  then have "wire_ok (publish_mode ci ri now (pl_decision p) (pl_inputs p) (pl_surplus p) (tick_force snap c)
      (effects_start ri now snap v p c))"
    using assms(2) by (simp add: wire_ok_publish_mode plan_ok_def)
  then have "wire_ok (publish_limit_soc ci ri now (pl_limit_target p) (pl_inputs p) (pl_surplus p) (sn_broker_connected snap)
      (tick_force snap c) (publish_mode ci ri now (pl_decision p) (pl_inputs p) (pl_surplus p) (tick_force snap c)
      (effects_start ri now snap v p c)))"
    using assms(2) by (simp add: wire_ok_publish_limit plan_ok_def)
  then show ?thesis
    unfolding tick_effects_split by (rule wire_ok_same) (simp_all add: frame)
qed

end

end
