(* ===== verification/ControllerSessions.thy ===== *)
theory ControllerSessions
  imports ControllerWire
begin

text \<open>
  The charge sessions the controller keeps, for any recorder that meets the sessions contract:
  a session id the controller holds is always that of an open row, and with a recorder whose
  calls succeed the open rows are exactly the running session.
\<close>

section \<open>Only sessions touch sessions\<close>

text \<open>A property of the recorder state that survives inserting events survives publishing.\<close>

lemma record_event_rec:
  "(\<And>ev r. Q r \<Longrightarrow> Q (fst (rec_insert_event ri ev r))) \<Longrightarrow> Q (c_rec c) \<Longrightarrow> Q (c_rec (record_event ri e inp s c))"
  by (simp add: record_event_def)

lemma effects_start_rec:
  "(\<And>ev r. Q r \<Longrightarrow> Q (fst (rec_insert_event ri ev r))) \<Longrightarrow> Q (c_rec c) \<Longrightarrow> Q (c_rec (effects_start ri now snap v p c))"
  by (simp add: effects_start_def record_event_def Let_def)

lemma publish_mode_rec:
  "(\<And>ev r. Q r \<Longrightarrow> Q (fst (rec_insert_event ri ev r))) \<Longrightarrow> Q (c_rec c) \<Longrightarrow>
    Q (c_rec (publish_mode ci ri now d inp s f c))"
  by (simp add: publish_mode_def record_event_def Let_def split: prod.split option.split)

lemma publish_limit_rec:
  "(\<And>ev r. Q r \<Longrightarrow> Q (fst (rec_insert_event ri ev r))) \<Longrightarrow> Q (c_rec c) \<Longrightarrow>
    Q (c_rec (publish_limit_soc ci ri now t inp s b f c))"
  by (simp add: publish_limit_soc_def record_event_def Let_def split: prod.split option.split)

lemma record_sample_rec:
  "(\<And>sm r. Q r \<Longrightarrow> Q (fst (rec_insert_sample ri sm r))) \<Longrightarrow> Q (c_rec c) \<Longrightarrow>
    Q (c_rec (record_sample ri now inp s d c))"
  by (simp add: record_sample_def)

text \<open>The state of the controller when the sessions are tracked, within a tick.\<close>

definition before_tracking ::
    "'c commander \<Rightarrow> 'r recorder \<Rightarrow> time \<Rightarrow> snapshot \<Rightarrow> tick_view \<Rightarrow> tick_plan \<Rightarrow> ('c, 'r) controller \<Rightarrow> ('c, 'r) controller" where
  "before_tracking ci ri now snap v p c =
     publish_limit_soc ci ri now (pl_limit_target p) (pl_inputs p) (pl_surplus p) (sn_broker_connected snap) (tick_force snap c)
       (publish_mode ci ri now (pl_decision p) (pl_inputs p) (pl_surplus p) (tick_force snap c)
         (effects_start ri now snap v p c))"

lemma tick_effects_tracking:
  "tick_effects ci ri now snap v p c = record_sample ri now (pl_inputs p) (pl_surplus p) (pl_decision p)
     (track_session ri now (pl_inputs p) (dec_state (pl_decision p)) (before_tracking ci ri now snap v p c))"
  by (simp add: tick_effects_split before_tracking_def)

lemma before_tracking_frame [frame]:
  "c_session_id (before_tracking ci ri now snap v p c) = c_session_id c"
  "c_prev_charging (before_tracking ci ri now snap v p c) = c_prev_charging c"
  "c_ctrl (before_tracking ci ri now snap v p c) = c_ctrl c"
  "c_cfg (before_tracking ci ri now snap v p c) = c_cfg c"
  by (simp_all add: before_tracking_def frame)

lemma before_tracking_rec:
  assumes e: "\<And>ev r. Q r \<Longrightarrow> Q (fst (rec_insert_event ri ev r))" and q: "Q (c_rec c)"
  shows "Q (c_rec (before_tracking ci ri now snap v p c))"
  unfolding before_tracking_def
  by (rule publish_limit_rec [where Q = Q, OF e publish_mode_rec [where Q = Q, OF e effects_start_rec [where Q = Q, OF e q]]])

section \<open>The session id is that of an open row\<close>

context sessions_contract
begin

definition session_ok :: "('c, 'r) controller \<Rightarrow> bool" where
  "session_ok c \<longleftrightarrow> valid (c_rec c) \<and> (c_session_id c \<noteq> 0 \<longrightarrow> c_session_id c \<in> open_ids (c_rec c)) \<and>
     (\<not> c_prev_charging c \<longrightarrow> c_session_id c = 0)"

lemma accumulate_sessions:
  assumes "valid (c_rec c)"
  shows "valid (c_rec (accumulate ri inp c))" "open_ids (c_rec (accumulate ri inp c)) = open_ids (c_rec c)"
    "c_session_id (accumulate ri inp c) = c_session_id c" "c_prev_charging (accumulate ri inp c) = c_prev_charging c"
  using assms by (simp_all add: accumulate_def Let_def)

lemma open_new_session_cases:
  assumes "valid (c_rec c)" "c_session_id c = 0"
  shows "valid (c_rec (open_new_session ri now inp c)) \<and>
    (c_session_id (open_new_session ri now inp c) = 0 \<and>
       open_ids (c_rec c) \<subseteq> open_ids (c_rec (open_new_session ri now inp c)) \<or>
     c_session_id (open_new_session ri now inp c) \<noteq> 0 \<and>
       c_session_id (open_new_session ri now inp c) \<notin> open_ids (c_rec c) \<and>
       open_ids (c_rec (open_new_session ri now inp c)) =
         insert (c_session_id (open_new_session ri now inp c)) (open_ids (c_rec c)))"
proof -
  let ?args = "rec_start_session ri now (start_reason_for now inp)
     (soc_ptr (in_vehicle_soc inp) (in_vehicle_soc_known inp)) (c_rec c)"
  have v: "valid (fst ?args)" using assms(1) by simp
  obtain r' x where e: "?args = (r', x)" by (cases ?args)
  show ?thesis
  proof (cases x)
    case (Inl err)
    with assms e v start_failed[OF assms(1)] show ?thesis by (auto simp: open_new_session_def Let_def)
  next
    case (Inr i)
    with assms e v start_ok[OF assms(1)] show ?thesis by (simp add: open_new_session_def Let_def)
  qed
qed

lemma close_session_cases:
  assumes "valid (c_rec c)"
  shows "valid (c_rec (close_session ri now inp reason c)) \<and> c_session_id (close_session ri now inp reason c) = 0 \<and>
    open_ids (c_rec c) - {c_session_id c} \<subseteq> open_ids (c_rec (close_session ri now inp reason c)) \<and>
    open_ids (c_rec (close_session ri now inp reason c)) \<subseteq> open_ids (c_rec c)"
proof (cases "c_session_id c = 0")
  case True
  with assms show ?thesis by (auto simp: close_session_def)
next
  case False
  define avg where "avg = (if 0 < c_session_ticks c then f64_div (c_session_sum c) (f64_of_int (c_session_ticks c)) else 0)"
  let ?args = "rec_end_session ri (c_session_id c) now reason (soc_ptr (in_vehicle_soc inp) (in_vehicle_soc_known inp))
      (c_session_energy c) avg (c_session_peak c) (c_rec c)"
  obtain r' x where e: "?args = (r', x)" by (cases ?args)
  have "valid (fst ?args)" using assms by simp
  with e have v: "valid r'" by simp
  have c: "c_rec (close_session ri now inp reason c) = r'" "c_session_id (close_session ri now inp reason c) = 0"
    using False e by (simp_all add: close_session_def avg_def Let_def)
  show ?thesis
    using end_ok[OF assms] end_failed[OF assms] e v unfolding c by (cases x) blast+
qed

lemma session_ok_track:
  assumes "session_ok c"
  shows "session_ok (track_session ri now inp st c)"
proof -
  define c1 where "c1 = (if in_charging inp \<and> \<not> c_prev_charging c then open_new_session ri now inp c
    else if \<not> in_charging inp \<and> c_prev_charging c then close_session ri now inp (stop_reason_for now st inp) c else c)"
  have v: "valid (c_rec c)" using assms by (simp add: session_ok_def)
  have 1: "valid (c_rec c1) \<and> (c_session_id c1 \<noteq> 0 \<longrightarrow> c_session_id c1 \<in> open_ids (c_rec c1)) \<and>
      (\<not> in_charging inp \<longrightarrow> c_session_id c1 = 0)"
    using assms open_new_session_cases[OF v, of now inp] close_session_cases[OF v, of now inp "stop_reason_for now st inp"]
    by (auto simp: c1_def session_ok_def)
  have "track_session ri now inp st c =
    (if in_charging inp \<and> \<not> in_stale inp then accumulate ri inp c1 else c1)\<lparr>c_prev_charging := in_charging inp\<rparr>"
    by (simp add: track_session_def c1_def Let_def)
  with 1 accumulate_sessions[of c1 inp] show ?thesis by (simp add: session_ok_def)
qed

lemma before_tracking_sessions:
  assumes "valid (c_rec c)"
  shows "valid (c_rec (before_tracking ci ri now snap v p c)) \<and>
    open_ids (c_rec (before_tracking ci ri now snap v p c)) = open_ids (c_rec c)"
  by (rule before_tracking_rec [where Q = "\<lambda>r. valid r \<and> open_ids r = open_ids (c_rec c)"])
    (simp_all add: assms)

lemma record_sample_sessions:
  assumes "valid (c_rec c)"
  shows "valid (c_rec (record_sample ri now inp s d c)) \<and> open_ids (c_rec (record_sample ri now inp s d c)) = open_ids (c_rec c)"
  by (rule record_sample_rec [where Q = "\<lambda>r. valid r \<and> open_ids r = open_ids (c_rec c)"])
    (simp_all add: assms)

lemma session_ok_effects:
  assumes "session_ok c"
  shows "session_ok (tick_effects ci ri now snap v p c)"
proof -
  have "session_ok (before_tracking ci ri now snap v p c)"
    using assms before_tracking_sessions[of c ci now snap v p] by (simp add: session_ok_def frame)
  then have t: "session_ok (track_session ri now (pl_inputs p) (dec_state (pl_decision p)) (before_tracking ci ri now snap v p c))"
    by (rule session_ok_track)
  then show ?thesis
    using record_sample_sessions[of "track_session ri now (pl_inputs p) (dec_state (pl_decision p)) (before_tracking ci ri now snap v p c)"
        now "pl_inputs p" "pl_surplus p" "pl_decision p"]
    unfolding tick_effects_tracking by (simp add: session_ok_def record_sample_frame)
qed

end

section \<open>With reliable session calls the open row is the running session\<close>

text \<open>\<open>D\<close> are rows that were already open: those a previous run left behind.\<close>

context reliable_sessions
begin

definition sessions_exact :: "int set \<Rightarrow> ('c, 'r) controller \<Rightarrow> bool" where
  "sessions_exact D c \<longleftrightarrow> valid (c_rec c) \<and>
     (if c_prev_charging c
      then c_session_id c \<noteq> 0 \<and> c_session_id c \<notin> D \<and> open_ids (c_rec c) = insert (c_session_id c) D
      else c_session_id c = 0 \<and> open_ids (c_rec c) = D)"

lemma open_new_session_exact:
  assumes "valid (c_rec c)" "c_session_id c = 0"
  shows "c_session_id (open_new_session ri now inp c) \<noteq> 0"
proof -
  obtain r' i where "rec_start_session ri now (start_reason_for now inp)
     (soc_ptr (in_vehicle_soc inp) (in_vehicle_soc_known inp)) (c_rec c) = (r', Inr i)"
    using start_succeeds[OF assms(1)] by blast
  with start_ok[OF assms(1) this] show ?thesis by (simp add: open_new_session_def Let_def)
qed

lemma close_session_exact:
  assumes "valid (c_rec c)" "c_session_id c \<noteq> 0" "c_session_id c \<in> open_ids (c_rec c)"
  shows "open_ids (c_rec (close_session ri now inp reason c)) = open_ids (c_rec c) - {c_session_id c}"
proof -
  define avg where "avg = (if 0 < c_session_ticks c then f64_div (c_session_sum c) (f64_of_int (c_session_ticks c)) else 0)"
  obtain r' where e: "rec_end_session ri (c_session_id c) now reason
      (soc_ptr (in_vehicle_soc inp) (in_vehicle_soc_known inp)) (c_session_energy c) avg (c_session_peak c) (c_rec c) = (r', None)"
    using end_succeeds[OF assms(1,3)] by blast
  then have "c_rec (close_session ri now inp reason c) = r'"
    using assms(2) by (simp add: close_session_def avg_def Let_def)
  with end_ok[OF assms(1) e] show ?thesis by simp
qed

lemma sessions_exact_track:
  assumes "sessions_exact D c"
  shows "sessions_exact D (track_session ri now inp st c)"
proof -
  define c1 where "c1 = (if in_charging inp \<and> \<not> c_prev_charging c then open_new_session ri now inp c
    else if \<not> in_charging inp \<and> c_prev_charging c then close_session ri now inp (stop_reason_for now st inp) c else c)"
  have v: "valid (c_rec c)" using assms by (simp add: sessions_exact_def)
  consider (start) "in_charging inp" "\<not> c_prev_charging c" | (stop) "\<not> in_charging inp" "c_prev_charging c"
    | (same) "in_charging inp = c_prev_charging c" by blast
  then have 1: "valid (c_rec c1) \<and> (if in_charging inp
      then c_session_id c1 \<noteq> 0 \<and> c_session_id c1 \<notin> D \<and> open_ids (c_rec c1) = insert (c_session_id c1) D
      else c_session_id c1 = 0 \<and> open_ids (c_rec c1) = D)"
  proof cases
    case start
    with assms have "c_session_id c = 0" "open_ids (c_rec c) = D" by (auto simp: sessions_exact_def)
    with start open_new_session_cases[OF v, of now inp] open_new_session_exact[OF v, of now inp]
    show ?thesis by (simp add: c1_def)
  next
    case stop
    with assms have "c_session_id c \<noteq> 0" "c_session_id c \<notin> D" "open_ids (c_rec c) = insert (c_session_id c) D"
      by (auto simp: sessions_exact_def)
    with stop close_session_cases[OF v, of now inp "stop_reason_for now st inp"]
      close_session_exact[OF v, of now inp "stop_reason_for now st inp"]
    show ?thesis by (simp add: c1_def)
  qed (use assms in \<open>auto simp: c1_def sessions_exact_def\<close>)
  have "track_session ri now inp st c =
    (if in_charging inp \<and> \<not> in_stale inp then accumulate ri inp c1 else c1)\<lparr>c_prev_charging := in_charging inp\<rparr>"
    by (simp add: track_session_def c1_def Let_def)
  with 1 accumulate_sessions[of c1 inp] show ?thesis by (simp add: sessions_exact_def)
qed

lemma sessions_exact_effects:
  assumes "sessions_exact D c"
  shows "sessions_exact D (tick_effects ci ri now snap v p c)"
proof -
  have "sessions_exact D (before_tracking ci ri now snap v p c)"
    using assms before_tracking_sessions[of c ci now snap v p] by (simp add: sessions_exact_def frame)
  then have t: "sessions_exact D (track_session ri now (pl_inputs p) (dec_state (pl_decision p)) (before_tracking ci ri now snap v p c))"
    by (rule sessions_exact_track)
  then show ?thesis
    using record_sample_sessions[of "track_session ri now (pl_inputs p) (dec_state (pl_decision p)) (before_tracking ci ri now snap v p c)"
        now "pl_inputs p" "pl_surplus p" "pl_decision p"]
    unfolding tick_effects_tracking by (simp add: sessions_exact_def record_sample_frame)
qed

text \<open>Recovery closes one open row, and so all of them when there is at most one.\<close>

lemma recover_closes_one:
  assumes "valid (c_rec c)" "rec_open_session ri (c_rec c) = (r', Inr (Some s))"
  shows "open_ids (c_rec (recover_dangling_session ri now c)) = open_ids (c_rec c) - {se_id s}"
proof -
  have v: "valid r'" "open_ids r' = open_ids (c_rec c)"
    using assms open_frame(6)[of "c_rec c"] valid_frame(8)[OF assms(1)] by simp_all
  have "se_id s \<in> open_ids r'" using open_ok[OF assms] v by simp
  then obtain r'' where e: "rec_end_session ri (se_id s) now ''restart'' None (se_energy s) (se_avg s) (se_peak s) r' = (r'', None)"
    using end_succeeds[OF v(1)] by blast
  then have "c_rec (recover_dangling_session ri now c) = r''" using assms(2) by (simp add: recover_dangling_session_def)
  with end_ok[OF v(1) e] v show ?thesis by simp
qed

end

section \<open>Operations of the web layer and startup leave sessions and wire alone\<close>

lemma audit_frame [frame]:
  "c_cfg (audit ri now k a c) = c_cfg c" "c_cmd (audit ri now k a c) = c_cmd c" "c_ctrl (audit ri now k a c) = c_ctrl c"
  "c_last_mode (audit ri now k a c) = c_last_mode c" "c_limit_soc_set (audit ri now k a c) = c_limit_soc_set c"
  "c_last_limit_soc (audit ri now k a c) = c_last_limit_soc c" "c_session_id (audit ri now k a c) = c_session_id c"
  "c_prev_charging (audit ri now k a c) = c_prev_charging c" "c_state (audit ri now k a c) = c_state c"
  "c_timers (audit ri now k a c) = c_timers c"
  by (simp_all add: audit_def)

text \<open>What every web operation and every loader keeps: the loop-owned fields.\<close>

definition same_loop :: "('c, 'r) controller \<Rightarrow> ('c, 'r) controller \<Rightarrow> bool" where
  "same_loop c c' \<longleftrightarrow> c_cfg c' = c_cfg c \<and> c_cmd c' = c_cmd c \<and> c_last_mode c' = c_last_mode c \<and>
     c_limit_soc_set c' = c_limit_soc_set c \<and> c_last_limit_soc c' = c_last_limit_soc c \<and>
     c_session_id c' = c_session_id c \<and> c_prev_charging c' = c_prev_charging c \<and> c_state c' = c_state c \<and>
     c_timers c' = c_timers c"

lemma same_loop_refl [simp]: "same_loop c c"
  by (simp add: same_loop_def)

lemma same_loop_trans: "same_loop a b \<Longrightarrow> same_loop b c \<Longrightarrow> same_loop a c"
  by (simp add: same_loop_def)

lemma same_loop_web:
  "same_loop c (set_override ri now m u b n c)"
  "same_loop c (fst (set_charge_power ri now mode c))"
  "same_loop c (fst (set_auto_profile ri now prof c))"
  "same_loop c (fst (set_start_threshold ri now w c))"
  "same_loop c (fst (set_target_soc ri now pct c))"
  by (simp_all add: same_loop_def set_override_def set_charge_power_def set_auto_profile_def set_start_threshold_def
      set_target_soc_def Let_def frame split: prod.split option.split)

lemma same_loop_loaders:
  "same_loop c (load_charge_power ri c)" "same_loop c (load_auto_profile ri c)"
  "same_loop c (load_start_threshold_of ri q c)" "same_loop c (load_target_soc_of ri q c)"
  by (simp_all add: same_loop_def load_charge_power_def load_auto_profile_def load_start_threshold_of_def
      load_target_soc_of_def split: prod.split option.split sum.split)

lemma same_loop_startup_parts:
  "same_loop c (load_start_threshold ri c)" "same_loop c (load_target_soc ri c)"
  "same_loop c (recover_dangling_session ri now c)" "same_loop c (prune ri now c)"
  by (auto simp: load_start_threshold_def load_target_soc_def latch_profiles_def
      intro: same_loop_trans same_loop_loaders)
    (simp_all add: same_loop_def recover_dangling_session_def prune_def Let_def split: prod.split option.split sum.split)

lemma same_loop_cfg: "same_loop c c' \<Longrightarrow> c_cfg c' = c_cfg c"
  by (simp add: same_loop_def)

lemmas loaders_cfg [frame] = same_loop_loaders [THEN same_loop_cfg] same_loop_startup_parts [THEN same_loop_cfg]

section \<open>What the other operations do to the recorder\<close>

lemma web_rec:
  assumes "\<And>ev r. Q r \<Longrightarrow> Q (fst (rec_insert_event ri ev r))" "\<And>k v r. Q r \<Longrightarrow> Q (fst (rec_set_setting ri k v r))"
    "Q (c_rec c)"
  shows "Q (c_rec (set_override ri now m u b n c))" "Q (c_rec (fst (set_charge_power ri now mode c)))"
    "Q (c_rec (fst (set_auto_profile ri now prof c)))" "Q (c_rec (fst (set_start_threshold ri now w c)))"
    "Q (c_rec (fst (set_target_soc ri now pct c)))"
  using assms
  by (simp_all add: set_override_def set_charge_power_def set_auto_profile_def set_start_threshold_def set_target_soc_def
      audit_def Let_def split_beta split: option.split)

lemma loaders_rec:
  assumes "\<And>k r. Q r \<Longrightarrow> Q (fst (rec_get_setting ri k r))" "Q (c_rec c)"
  shows "Q (c_rec (load_charge_power ri c))" "Q (c_rec (load_auto_profile ri c))"
    "Q (c_rec (load_start_threshold_of ri q c))" "Q (c_rec (load_target_soc_of ri q c))"
  using assms
  by (simp_all add: load_charge_power_def load_auto_profile_def load_start_threshold_of_def load_target_soc_of_def
      split_beta split: option.split sum.split)

text \<open>Startup after the recovery of a dangling session only reads settings.\<close>

definition load_all :: "'r recorder \<Rightarrow> ('c, 'r) controller \<Rightarrow> ('c, 'r) controller" where
  "load_all ri c = load_target_soc ri (load_start_threshold ri (load_auto_profile ri (load_charge_power ri c)))"

lemma startup_recover: "startup ri now c = load_all ri (recover_dangling_session ri now c)"
  by (simp add: startup_def load_all_def Let_def)

lemma load_all_rec:
  assumes g: "\<And>k r. Q r \<Longrightarrow> Q (fst (rec_get_setting ri k r))" and q: "Q (c_rec c)"
  shows "Q (c_rec (load_all ri c))"
proof -
  have "Q (c_rec (load_auto_profile ri (load_charge_power ri c)))"
    by (rule loaders_rec(2) [where Q = Q, OF g loaders_rec(1) [where Q = Q, OF g q]])
  then show ?thesis
    by (simp add: load_all_def load_start_threshold_def load_target_soc_def latch_profiles_def
        loaders_rec(3,4) [where Q = Q, OF g])
qed

lemma same_loop_load_all: "same_loop c (load_all ri c)"
  unfolding load_all_def
  by (intro same_loop_trans[OF _ same_loop_startup_parts(2)] same_loop_trans[OF _ same_loop_startup_parts(1)]
      same_loop_trans[OF _ same_loop_loaders(2)] same_loop_loaders(1))

lemma prune_rec:
  assumes "\<And>t r. Q r \<Longrightarrow> Q (fst (rec_prune_samples ri t r))" "\<And>t r. Q r \<Longrightarrow> Q (fst (rec_prune_events ri t r))" "Q (c_rec c)"
  shows "Q (c_rec (prune ri now c))"
  using assms by (simp add: prune_def Let_def)

context sessions_contract
begin

text \<open>An operation outside the loop that keeps the open rows keeps both invariants.\<close>

lemma session_ok_same:
  "session_ok c \<Longrightarrow> same_loop c c' \<Longrightarrow> valid (c_rec c') \<and> open_ids (c_rec c') = open_ids (c_rec c) \<Longrightarrow> session_ok c'"
  by (simp add: session_ok_def same_loop_def)

lemma web_sessions:
  assumes "valid (c_rec c)"
  defines "Q \<equiv> \<lambda>r. valid r \<and> open_ids r = open_ids (c_rec c)"
  shows "Q (c_rec (set_override ri now m u b n c))" "Q (c_rec (fst (set_charge_power ri now mode c)))"
    "Q (c_rec (fst (set_auto_profile ri now prof c)))" "Q (c_rec (fst (set_start_threshold ri now w c)))"
    "Q (c_rec (fst (set_target_soc ri now pct c)))" "Q (c_rec (prune ri now c))" "Q (c_rec (load_all ri c))"
proof -
  have q: "Q (c_rec c)" using assms by simp
  have ev: "\<And>ev r. Q r \<Longrightarrow> Q (fst (rec_insert_event ri ev r))" and st: "\<And>k v r. Q r \<Longrightarrow> Q (fst (rec_set_setting ri k v r))"
    and g: "\<And>k r. Q r \<Longrightarrow> Q (fst (rec_get_setting ri k r))"
    and ps: "\<And>t r. Q r \<Longrightarrow> Q (fst (rec_prune_samples ri t r))" and pe: "\<And>t r. Q r \<Longrightarrow> Q (fst (rec_prune_events ri t r))"
    by (simp_all add: Q_def)
  show "Q (c_rec (set_override ri now m u b n c))" "Q (c_rec (fst (set_charge_power ri now mode c)))"
    "Q (c_rec (fst (set_auto_profile ri now prof c)))" "Q (c_rec (fst (set_start_threshold ri now w c)))"
    "Q (c_rec (fst (set_target_soc ri now pct c)))" "Q (c_rec (prune ri now c))" "Q (c_rec (load_all ri c))"
    using web_rec[where Q = Q, OF ev st q] prune_rec[where Q = Q, OF ps pe q] load_all_rec[where Q = Q, OF g q]
    by blast+
qed

end

context reliable_sessions
begin

lemma sessions_exact_same:
  "sessions_exact D c \<Longrightarrow> same_loop c c' \<Longrightarrow> valid (c_rec c') \<and> open_ids (c_rec c') = open_ids (c_rec c) \<Longrightarrow>
    sessions_exact D c'"
  by (simp add: sessions_exact_def same_loop_def)

end

end
