(* ===== verification/ControllerSettings.thy ===== *)
theory ControllerSettings
  imports ControllerSessions
begin

text \<open>
  The operator's persistent choices (charge power, profile, per-profile threshold and target),
  for any recorder that meets the settings contract: what the controller holds in memory is
  at all times what a restart would load.
\<close>

section \<open>What a restart would load\<close>

definition stored_charge_power :: "control \<Rightarrow> (string \<rightharpoonup> string) \<Rightarrow> string" where
  "stored_charge_power cfg S = (case S charge_power_setting of None \<Rightarrow> cfg_enable_mode cfg
     | Some m \<Rightarrow> if valid_charge_power m then m else cfg_enable_mode cfg)"

definition stored_auto_profile :: "control \<Rightarrow> (string \<rightharpoonup> string) \<Rightarrow> string" where
  "stored_auto_profile cfg S = (case S auto_profile_setting of None \<Rightarrow> cfg_auto_profile cfg
     | Some p \<Rightarrow> if valid_auto_profile p then p else cfg_auto_profile cfg)"

definition stored_threshold :: "control \<Rightarrow> (string \<rightharpoonup> string) \<Rightarrow> string \<rightharpoonup> f64" where
  "stored_threshold cfg S p = (if \<not> is_latch_profile p then None
     else case S (setting_key start_threshold_key_prefix p) of None \<Rightarrow> None
     | Some raw \<Rightarrow> (case parse_float raw of None \<Rightarrow> None
        | Some w \<Rightarrow> if \<not> threshold_step_ok w \<or> w \<le> cfg_stop_threshold cfg then None else Some w))"

definition stored_target :: "(string \<rightharpoonup> string) \<Rightarrow> string \<rightharpoonup> int" where
  "stored_target S p = (if \<not> is_latch_profile p then None
     else case S (setting_key target_soc_key_prefix p) of None \<Rightarrow> None
     | Some raw \<Rightarrow> (case atoi raw of (pct, ok) \<Rightarrow> if \<not> ok \<or> \<not> target_soc_ok pct then None else Some pct))"

definition settings_match :: "control \<Rightarrow> (string \<rightharpoonup> string) \<Rightarrow> control_state \<Rightarrow> bool" where
  "settings_match cfg S cs \<longleftrightarrow> cs_charge_power cs = stored_charge_power cfg S \<and>
     cs_auto_profile cs = stored_auto_profile cfg S \<and>
     cs_start_threshold cs = stored_threshold cfg S \<and> cs_target_soc cs = stored_target S"

lemmas key_defs = charge_power_setting_def auto_profile_setting_def setting_key_def
  start_threshold_key_prefix_def target_soc_key_prefix_def

lemma keys_distinct [simp]:
  "charge_power_setting \<noteq> auto_profile_setting" "auto_profile_setting \<noteq> charge_power_setting"
  "charge_power_setting \<noteq> setting_key start_threshold_key_prefix p"
  "charge_power_setting \<noteq> setting_key target_soc_key_prefix p"
  "auto_profile_setting \<noteq> setting_key start_threshold_key_prefix p"
  "auto_profile_setting \<noteq> setting_key target_soc_key_prefix p"
  "setting_key start_threshold_key_prefix p \<noteq> charge_power_setting"
  "setting_key target_soc_key_prefix p \<noteq> charge_power_setting"
  "setting_key start_threshold_key_prefix p \<noteq> auto_profile_setting"
  "setting_key target_soc_key_prefix p \<noteq> auto_profile_setting"
  "setting_key start_threshold_key_prefix p \<noteq> setting_key target_soc_key_prefix q"
  "setting_key target_soc_key_prefix p \<noteq> setting_key start_threshold_key_prefix q"
  "setting_key pre p = setting_key pre q \<longleftrightarrow> p = q"
  by (simp_all add: key_defs)

section \<open>A valid threshold survives printing and parsing\<close>

lemma threshold_step_whole:
  assumes "threshold_step_ok w"
  obtains n where "w = whole n" "0 < n" "n mod 100 = 0"
proof -
  have m: "f64_eq (f64_mod w (Fin 100)) 0" and pos: "\<not> w \<le> 0" using assms by (auto simp: threshold_step_ok_def)
  have "\<not> is_nan w" "is_finite w" using m by (auto simp: f64_mod_def f64_eq_def split: if_splits)
  with pos obtain q where q: "w = Fin q" "0 < q" by (cases w) (auto simp: f64_zero_Fin)
  define n where "n = \<lfloor>q / 100\<rfloor>"
  have "q - 100 * of_int n = 0"
    using m q by (auto simp: f64_mod_def f64_eq_def f64_zero_Fin is_zero_def Let_def n_def split: if_splits)
  then have e: "q = of_int (100 * n)" by simp
  moreover from e q(2) have "0 < 100 * n" by simp
  ultimately show thesis using q(1) by (intro that[of "100 * n"]) (simp_all add: whole_def)
qed

lemma parse_format_threshold:
  assumes "threshold_step_ok w" "representable w"
  shows "parse_float (format_float w) = Some w"
proof -
  obtain n where "w = whole n" "0 < n" using threshold_step_whole[OF assms(1)] by metis
  with assms(2) show ?thesis by (simp add: parse_format_whole)
qed

lemma atoi_itoa_target: "target_soc_ok pct \<Longrightarrow> atoi (itoa pct) = (pct, True)"
  by (rule atoi_itoa) (simp add: target_soc_ok_def in64_numeral)

section \<open>Memory and storage agree\<close>

lemma settings_match_override [simp]:
  "settings_match cfg S (cs\<lparr>cs_override := a\<rparr>) = settings_match cfg S cs"
  "settings_match cfg S (cs\<lparr>cs_override_until := u\<rparr>) = settings_match cfg S cs"
  "settings_match cfg S (cs\<lparr>cs_cap_bypass := b\<rparr>) = settings_match cfg S cs"
  "settings_match cfg S (cs\<lparr>cs_cap_bypass_soc := n\<rparr>) = settings_match cfg S cs"
  by (simp_all add: settings_match_def)

lemma settings_match_charge_power:
  "settings_match cfg S cs \<Longrightarrow> valid_charge_power m \<Longrightarrow>
    settings_match cfg (S(charge_power_setting \<mapsto> m)) (cs\<lparr>cs_charge_power := m\<rparr>)"
  by (simp add: settings_match_def stored_charge_power_def stored_auto_profile_def stored_threshold_def
      stored_target_def fun_eq_iff)

lemma settings_match_auto_profile:
  "settings_match cfg S cs \<Longrightarrow> valid_auto_profile m \<Longrightarrow>
    settings_match cfg (S(auto_profile_setting \<mapsto> m)) (cs\<lparr>cs_auto_profile := m\<rparr>)"
  by (simp add: settings_match_def stored_charge_power_def stored_auto_profile_def stored_threshold_def
      stored_target_def fun_eq_iff)

lemma settings_match_threshold:
  assumes "settings_match cfg S cs" "is_latch_profile p" "threshold_step_ok w" "\<not> w \<le> cfg_stop_threshold cfg"
    "representable w"
  shows "settings_match cfg (S(setting_key start_threshold_key_prefix p \<mapsto> format_float w))
     (cs\<lparr>cs_start_threshold := (cs_start_threshold cs)(p \<mapsto> w)\<rparr>)"
  using assms
  by (auto simp: settings_match_def stored_charge_power_def stored_auto_profile_def stored_threshold_def
      stored_target_def fun_eq_iff parse_format_threshold)

lemma settings_match_target:
  assumes "settings_match cfg S cs" "is_latch_profile p" "target_soc_ok t"
  shows "settings_match cfg (S(setting_key target_soc_key_prefix p \<mapsto> itoa t))
     (cs\<lparr>cs_target_soc := (cs_target_soc cs)(p \<mapsto> t)\<rparr>)"
  using assms
  by (auto simp: settings_match_def stored_charge_power_def stored_auto_profile_def stored_threshold_def
      stored_target_def fun_eq_iff atoi_itoa_target)

context settings_contract
begin

definition synced :: "('c, 'r) controller \<Rightarrow> bool" where
  "synced c \<longleftrightarrow> settings_match (c_cfg c) (settings (c_rec c)) (c_ctrl c)"

lemma synced_audit [simp]: "synced (audit ri now k a c) = synced c"
  by (simp add: synced_def audit_def)

lemma synced_set_override: "synced c \<Longrightarrow> synced (set_override ri now m u b n c)"
  by (simp add: set_override_def Let_def) (simp add: synced_def)

lemma synced_set_charge_power:
  assumes "synced c"
  shows "synced (fst (set_charge_power ri now m c))"
proof -
  obtain r' x where e: "rec_set_setting ri charge_power_setting m (c_rec c) = (r', x)" by (meson surj_pair)
  show ?thesis
    using assms e set_ok[of charge_power_setting m "c_rec c" r'] set_failed[of charge_power_setting m "c_rec c" r']
    by (cases x) (simp_all add: set_charge_power_def, simp_all add: synced_def settings_match_charge_power)
qed

lemma synced_set_auto_profile:
  assumes "synced c"
  shows "synced (fst (set_auto_profile ri now m c))"
proof -
  obtain r' x where e: "rec_set_setting ri auto_profile_setting m (c_rec c) = (r', x)" by (meson surj_pair)
  show ?thesis
    using assms e set_ok[of auto_profile_setting m "c_rec c" r'] set_failed[of auto_profile_setting m "c_rec c" r']
    by (cases x) (simp_all add: set_auto_profile_def, simp_all add: synced_def settings_match_auto_profile)
qed

lemma synced_set_start_threshold:
  assumes "synced c" "representable w"
  shows "synced (fst (set_start_threshold ri now w c))"
proof -
  let ?k = "setting_key start_threshold_key_prefix (active_profile c)"
  obtain r' x where e: "rec_set_setting ri ?k (format_float w) (c_rec c) = (r', x)" by (meson surj_pair)
  show ?thesis
    using assms e set_ok[of ?k "format_float w" "c_rec c" r'] set_failed[of ?k "format_float w" "c_rec c" r']
    by (cases x) (simp_all add: set_start_threshold_def Let_def, simp_all add: synced_def settings_match_threshold)
qed

lemma synced_set_target_soc:
  assumes "synced c"
  shows "synced (fst (set_target_soc ri now t c))"
proof -
  let ?k = "setting_key target_soc_key_prefix (active_profile c)"
  obtain r' x where e: "rec_set_setting ri ?k (itoa t) (c_rec c) = (r', x)" by (meson surj_pair)
  show ?thesis
    using assms e set_ok[of ?k "itoa t" "c_rec c" r'] set_failed[of ?k "itoa t" "c_rec c" r']
    by (cases x) (simp_all add: set_target_soc_def Let_def, simp_all add: synced_def settings_match_target)
qed

lemma synced_tick_commit: "synced c \<Longrightarrow> synced (tick_commit now snap v p c)"
  by (simp add: synced_def tick_commit_def)

lemma settings_track [simp]: "settings (c_rec (track_session ri now inp st c)) = settings (c_rec c)"
proof -
  obtain r' x where e: "rec_start_session ri now (start_reason_for now inp)
      (soc_ptr (in_vehicle_soc inp) (in_vehicle_soc_known inp)) (c_rec c) = (r', x)" by (meson surj_pair)
  then have "settings r' = settings (c_rec c)" by (metis fst_conv settings_frame(4))
  with e have "settings (c_rec (open_new_session ri now inp c)) = settings (c_rec c)"
    by (simp add: open_new_session_def Let_def split: sum.split)
  moreover have "settings (c_rec (close_session ri now inp reason c)) = settings (c_rec c)" for reason
    by (simp add: close_session_def Let_def)
  moreover have "settings (c_rec (accumulate ri inp d)) = settings (c_rec d)" for d :: "('a, 'r) controller"
    by (simp add: accumulate_def Let_def)
  ultimately show ?thesis by (simp add: track_session_def Let_def)
qed

lemma settings_tick_effects: "settings (c_rec (tick_effects ci ri now snap v p c)) = settings (c_rec c)"
proof -
  have "settings (c_rec (before_tracking ci ri now snap v p c)) = settings (c_rec c)"
    by (rule before_tracking_rec [where Q = "\<lambda>r. settings r = settings (c_rec c)"]) simp_all
  then show ?thesis
    unfolding tick_effects_tracking by (simp add: record_sample_def frame)
qed

lemma synced_tick_effects: "synced c \<Longrightarrow> synced (tick_effects ci ri now snap v p c)"
  unfolding tick_effects_tracking
  using settings_tick_effects[of ci now snap v p c, unfolded tick_effects_tracking] by (simp add: synced_def frame)

lemma synced_prune: "synced c \<Longrightarrow> synced (prune ri now c)"
  by (simp add: synced_def prune_def Let_def)

text \<open>For a restart: reading a setting never fails.\<close>

definition reads_succeed :: bool where
  "reads_succeed \<longleftrightarrow> (\<forall>k r. snd (rec_get_setting ri k r) = Inr (settings r k))"

lemma get_eq:
  assumes reads_succeed
  shows "rec_get_setting ri k r = (fst (rec_get_setting ri k r), Inr (settings r k))"
  using assms by (metis prod.collapse reads_succeed_def)

lemma loaders_settings:
  assumes reads_succeed
  shows "settings (c_rec (load_charge_power ri c)) = settings (c_rec c)"
    "settings (c_rec (load_auto_profile ri c)) = settings (c_rec c)"
    "settings (c_rec (load_start_threshold_of ri q c)) = settings (c_rec c)"
    "settings (c_rec (load_target_soc_of ri q c)) = settings (c_rec c)"
  unfolding load_charge_power_def load_auto_profile_def load_start_threshold_of_def load_target_soc_of_def
  by (subst get_eq[OF assms]; simp split: option.split prod.split)+

lemma recover_settings: "settings (c_rec (recover_dangling_session ri now c)) = settings (c_rec c)"
proof -
  obtain r' x where e: "rec_open_session ri (c_rec c) = (r', x)" by (meson surj_pair)
  with settings_frame(7)[of "c_rec c"] have "settings r' = settings (c_rec c)" by simp
  with e show ?thesis by (simp add: recover_dangling_session_def split: sum.split option.split)
qed

lemma load_charge_power_ctrl:
  assumes reads_succeed
  shows "c_ctrl (load_charge_power ri c) = (c_ctrl c)\<lparr>cs_charge_power :=
    (case settings (c_rec c) charge_power_setting of None \<Rightarrow> cs_charge_power (c_ctrl c)
     | Some m \<Rightarrow> if valid_charge_power m then m else cs_charge_power (c_ctrl c))\<rparr>"
  unfolding load_charge_power_def by (subst get_eq[OF assms]) (simp split: option.split)

lemma load_auto_profile_ctrl:
  assumes reads_succeed
  shows "c_ctrl (load_auto_profile ri c) = (c_ctrl c)\<lparr>cs_auto_profile :=
    (case settings (c_rec c) auto_profile_setting of None \<Rightarrow> cs_auto_profile (c_ctrl c)
     | Some m \<Rightarrow> if valid_auto_profile m then m else cs_auto_profile (c_ctrl c))\<rparr>"
  unfolding load_auto_profile_def by (subst get_eq[OF assms]) (simp split: option.split)

lemma load_start_threshold_of_ctrl:
  assumes reads_succeed "is_latch_profile q" "cs_start_threshold (c_ctrl c) q = None"
  shows "c_ctrl (load_start_threshold_of ri q c) = (c_ctrl c)\<lparr>cs_start_threshold :=
    (cs_start_threshold (c_ctrl c))(q := stored_threshold (c_cfg c) (settings (c_rec c)) q)\<rparr>"
  unfolding load_start_threshold_of_def using assms(2,3)
  by (subst get_eq[OF assms(1)]) (simp add: stored_threshold_def fun_upd_idem split: option.split)

lemma load_target_soc_of_ctrl:
  assumes reads_succeed "is_latch_profile q" "cs_target_soc (c_ctrl c) q = None"
  shows "c_ctrl (load_target_soc_of ri q c) = (c_ctrl c)\<lparr>cs_target_soc :=
    (cs_target_soc (c_ctrl c))(q := stored_target (settings (c_rec c)) q)\<rparr>"
  unfolding load_target_soc_of_def using assms(2,3)
  by (subst get_eq[OF assms(1)]) (simp add: stored_target_def fun_upd_idem split: option.split prod.split)

lemma latch_profile_cases: "is_latch_profile p \<longleftrightarrow> p = AutoProfilePowerLatch \<or> p = AutoProfileSurplusLatch"
  by (simp add: is_latch_profile_def)

text \<open>Starting from empty maps, the two loops over the latch profiles load all that is stored.\<close>

lemma load_start_threshold_ctrl:
  assumes reads_succeed "cs_start_threshold (c_ctrl c) = Map.empty"
  shows "c_ctrl (load_start_threshold ri c) =
      (c_ctrl c)\<lparr>cs_start_threshold := stored_threshold (c_cfg c) (settings (c_rec c))\<rparr>"
    and "settings (c_rec (load_start_threshold ri c)) = settings (c_rec c)"
proof -
  have l: "is_latch_profile AutoProfilePowerLatch" "is_latch_profile AutoProfileSurplusLatch"
    by (simp_all add: is_latch_profile_def)
  show "settings (c_rec (load_start_threshold ri c)) = settings (c_rec c)"
    by (simp add: load_start_threshold_def latch_profiles_def loaders_settings[OF assms(1)])
  show "c_ctrl (load_start_threshold ri c) =
      (c_ctrl c)\<lparr>cs_start_threshold := stored_threshold (c_cfg c) (settings (c_rec c))\<rparr>"
    using assms(2)
    by (simp add: load_start_threshold_def latch_profiles_def load_start_threshold_of_ctrl[OF assms(1)] l frame
        loaders_settings[OF assms(1)])
      (rule arg_cong [where f = "\<lambda>m. (c_ctrl c)\<lparr>cs_start_threshold := m\<rparr>"],
        auto simp: fun_eq_iff stored_threshold_def latch_profile_cases)
qed

lemma load_target_soc_ctrl:
  assumes reads_succeed "cs_target_soc (c_ctrl c) = Map.empty"
  shows "c_ctrl (load_target_soc ri c) = (c_ctrl c)\<lparr>cs_target_soc := stored_target (settings (c_rec c))\<rparr>"
    and "settings (c_rec (load_target_soc ri c)) = settings (c_rec c)"
proof -
  have l: "is_latch_profile AutoProfilePowerLatch" "is_latch_profile AutoProfileSurplusLatch"
    by (simp_all add: is_latch_profile_def)
  show "settings (c_rec (load_target_soc ri c)) = settings (c_rec c)"
    by (simp add: load_target_soc_def latch_profiles_def loaders_settings[OF assms(1)])
  show "c_ctrl (load_target_soc ri c) = (c_ctrl c)\<lparr>cs_target_soc := stored_target (settings (c_rec c))\<rparr>"
    using assms(2)
    by (simp add: load_target_soc_def latch_profiles_def load_target_soc_of_ctrl[OF assms(1)] l
        loaders_settings[OF assms(1)])
      (rule arg_cong [where f = "\<lambda>m. (c_ctrl c)\<lparr>cs_target_soc := m\<rparr>"],
        auto simp: fun_eq_iff stored_target_def latch_profile_cases)
qed

lemma recover_ctrl: "c_ctrl (recover_dangling_session ri now c) = c_ctrl c"
  by (simp add: recover_dangling_session_def split: prod.split sum.split option.split)

lemma synced_startup:
  assumes reads_succeed
  shows "synced (startup ri now (new_controller cfg cmd r))"
    and "settings (c_rec (startup ri now (new_controller cfg cmd r))) = settings r"
    and "c_cfg (startup ri now (new_controller cfg cmd r)) = cfg"
proof -
  define c1 where "c1 = recover_dangling_session ri now (new_controller cfg cmd r)"
  have c1: "c_cfg c1 = cfg" "settings (c_rec c1) = settings r" "c_ctrl c1 = c_ctrl (new_controller cfg cmd r)"
    by (simp_all add: c1_def frame recover_ctrl recover_settings) (simp_all add: new_controller_def)
  define c2 where "c2 = load_charge_power ri c1"
  have k2: "c_ctrl c2 = (c_ctrl c1)\<lparr>cs_charge_power := stored_charge_power cfg (settings r)\<rparr>"
      "c_cfg c2 = cfg" "settings (c_rec c2) = settings r"
    using load_charge_power_ctrl[OF assms, of c1] c1
    by (simp_all add: c2_def stored_charge_power_def new_controller_def frame loaders_settings[OF assms] split: option.split)
  define c3 where "c3 = load_auto_profile ri c2"
  have k3: "c_ctrl c3 = (c_ctrl c2)\<lparr>cs_auto_profile := stored_auto_profile cfg (settings r)\<rparr>"
      "c_cfg c3 = cfg" "settings (c_rec c3) = settings r"
    using load_auto_profile_ctrl[OF assms, of c2] c1 k2
    by (simp_all add: c3_def stored_auto_profile_def new_controller_def frame loaders_settings[OF assms] split: option.split)
  have e: "startup ri now (new_controller cfg cmd r) = load_target_soc ri (load_start_threshold ri c3)"
    by (simp add: startup_def Let_def c1_def c2_def c3_def)
  have m: "cs_start_threshold (c_ctrl c3) = Map.empty" "cs_target_soc (c_ctrl c3) = Map.empty"
    using c1(3) by (simp_all add: k3 k2) (simp_all add: new_controller_def)
  define c4 where "c4 = load_start_threshold ri c3"
  have k4: "c_ctrl c4 = (c_ctrl c3)\<lparr>cs_start_threshold := stored_threshold cfg (settings r)\<rparr>"
      "c_cfg c4 = cfg" "settings (c_rec c4) = settings r" "cs_target_soc (c_ctrl c4) = Map.empty"
    using load_start_threshold_ctrl[OF assms m(1)] k3(2,3) m(2) by (simp_all add: c4_def frame)
  show "settings (c_rec (startup ri now (new_controller cfg cmd r))) = settings r"
    "c_cfg (startup ri now (new_controller cfg cmd r)) = cfg"
    "synced (startup ri now (new_controller cfg cmd r))"
    using load_target_soc_ctrl[OF assms k4(4)] k4(2,3)
    unfolding e synced_def settings_match_def c4_def[symmetric]
    by (simp_all add: frame, simp_all add: k4 k3 k2)
qed

text \<open>A restart restores what the operator chose.\<close>

lemma restart_restores:
  assumes reads_succeed "synced c"
  shows "settings_match (c_cfg c) (settings (c_rec c)) (c_ctrl (startup ri now (new_controller (c_cfg c) cmd (c_rec c))))"
  using synced_startup[OF assms(1), of now "c_cfg c" cmd "c_rec c"] by (simp add: synced_def)

end

lemma settings_match_unique:
  "settings_match cfg S cs \<Longrightarrow> settings_match cfg S cs' \<Longrightarrow>
    cs_charge_power cs' = cs_charge_power cs \<and> cs_auto_profile cs' = cs_auto_profile cs \<and>
    cs_start_threshold cs' = cs_start_threshold cs \<and> cs_target_soc cs' = cs_target_soc cs"
  by (simp add: settings_match_def)

end
