(* ===== verification/System.thy ===== *)
theory System
  imports ControllerSettings
begin

text \<open>
  The running program: the controller with the evcc client as its commander and the SQLite
  store as its recorder. The steps are those of its goroutines: MQTT callbacks, the three
  parts of a tick, web requests, the janitor. A web request may fall between the parts of a
  tick. The store's driver, the broker and the platform's float conversion are the
  environment.
\<close>

section \<open>Well-formed settings\<close>

lemma wf_set_override: "settings_wf cfg (c_ctrl c) \<Longrightarrow> settings_wf cfg (c_ctrl (set_override ri now m u b n c))"
  by (simp add: set_override_def Let_def frame)

lemma wf_setters:
  assumes "settings_wf (c_cfg c) (c_ctrl c)"
  shows "settings_wf (c_cfg c) (c_ctrl (fst (set_charge_power ri now mode c)))"
    "settings_wf (c_cfg c) (c_ctrl (fst (set_auto_profile ri now prof c)))"
    "settings_wf (c_cfg c) (c_ctrl (fst (set_start_threshold ri now w c)))"
    "settings_wf (c_cfg c) (c_ctrl (fst (set_target_soc ri now pct c)))"
  using assms
  by (auto simp: set_charge_power_def set_auto_profile_def set_start_threshold_def set_target_soc_def settings_wf_def
      Let_def frame split: prod.split option.split if_splits)

lemma wf_loaders:
  assumes "settings_wf (c_cfg c) (c_ctrl c)"
  shows "settings_wf (c_cfg c) (c_ctrl (load_charge_power ri c))"
    "settings_wf (c_cfg c) (c_ctrl (load_auto_profile ri c))"
    "settings_wf (c_cfg c) (c_ctrl (load_start_threshold_of ri q c))"
    "settings_wf (c_cfg c) (c_ctrl (load_target_soc_of ri q c))"
  using assms
  by (auto simp: load_charge_power_def load_auto_profile_def load_start_threshold_of_def load_target_soc_of_def
      settings_wf_def split: prod.split option.split sum.split if_splits)

lemma wf_startup:
  assumes "control_ok cfg"
  shows "settings_wf cfg (c_ctrl (startup ri now (new_controller cfg cmd r)))"
proof -
  define c where "c = recover_dangling_session ri now (new_controller cfg cmd r)"
  have c: "c_cfg c = cfg" "settings_wf cfg (c_ctrl c)"
    using new_settings_wf[OF assms, of cmd r]
    by (simp_all add: c_def frame recover_dangling_session_def split: prod.split sum.split option.split)
      (simp add: new_controller_def)
  have step: "settings_wf cfg (c_ctrl (load_charge_power ri d))" "settings_wf cfg (c_ctrl (load_auto_profile ri d))"
      "settings_wf cfg (c_ctrl (load_start_threshold_of ri q d))" "settings_wf cfg (c_ctrl (load_target_soc_of ri q d))"
    if "c_cfg d = cfg" "settings_wf cfg (c_ctrl d)" for d q
    using wf_loaders[of d] that by auto
  show ?thesis
    using c by (simp add: startup_def Let_def load_start_threshold_def load_target_soc_def latch_profiles_def step frame
        flip: c_def)
qed

section \<open>The system\<close>

datatype pending = Planned time snapshot tick_view tick_plan | Committed time snapshot tick_view tick_plan

record environment =
  en_oor :: "f64 \<Rightarrow> int"
  en_paho :: paho
  en_driver :: driver

record system =
  sy_ctrl :: "(client, db) controller"
  sy_tick :: "pending option"

definition on_client :: "(client \<Rightarrow> client) \<Rightarrow> system \<Rightarrow> system" where
  "on_client f s = s\<lparr>sy_ctrl := (sy_ctrl s)\<lparr>c_cmd := f (c_cmd (sy_ctrl s))\<rparr>\<rparr>"

definition on_ctrl :: "((client, db) controller \<Rightarrow> (client, db) controller) \<Rightarrow> system \<Rightarrow> system" where
  "on_ctrl f s = s\<lparr>sy_ctrl := f (sy_ctrl s)\<rparr>"

inductive sys_step :: "environment \<Rightarrow> system \<Rightarrow> system \<Rightarrow> bool" for e :: environment where
  st_connect: "sys_step e s (on_client (on_connect subscribe_ok) s)"
| st_lost: "sys_step e s (on_client on_connection_lost s)"
| st_disconnect: "sys_step e s (on_client disconnect s)"
| st_message: "sys_step e s (on_client (handle_message topic payload now) s)"
| st_begin: "sy_tick s = None \<Longrightarrow> snap = snapshot_of (cl_store (c_cmd (sy_ctrl s))) \<Longrightarrow> v = tick_read (sy_ctrl s) \<Longrightarrow>
    sys_step e s (s\<lparr>sy_tick := Some (Planned now snap v (tick_decide (en_oor e) now snap (c_cfg (sy_ctrl s)) v))\<rparr>)"
| st_commit: "sy_tick s = Some (Planned now snap v p) \<Longrightarrow>
    sys_step e s (s\<lparr>sy_ctrl := tick_commit now snap v p (sy_ctrl s), sy_tick := Some (Committed now snap v p)\<rparr>)"
| st_effects: "sy_tick s = Some (Committed now snap v p) \<Longrightarrow>
    sys_step e s (s\<lparr>sy_ctrl := tick_effects (evcc_commander (en_paho e)) (store_recorder (en_driver e)) now snap v p (sy_ctrl s),
      sy_tick := None\<rparr>)"
| st_override: "sys_step e s (on_ctrl (set_override (store_recorder (en_driver e)) now mode until bypass soc) s)"
| st_charge_power: "sys_step e s (on_ctrl (\<lambda>c. fst (set_charge_power (store_recorder (en_driver e)) now mode c)) s)"
| st_auto_profile: "sys_step e s (on_ctrl (\<lambda>c. fst (set_auto_profile (store_recorder (en_driver e)) now profile c)) s)"
| st_start_threshold: "representable w \<Longrightarrow>
    sys_step e s (on_ctrl (\<lambda>c. fst (set_start_threshold (store_recorder (en_driver e)) now w c)) s)"
| st_target_soc: "sys_step e s (on_ctrl (\<lambda>c. fst (set_target_soc (store_recorder (en_driver e)) now pct c)) s)"
| st_prune: "0 < cfg_retention_window (c_cfg (sy_ctrl s)) \<Longrightarrow>
    sys_step e s (on_ctrl (prune (store_recorder (en_driver e)) now) s)"

text \<open>Start: the controller's startup on the database as it is, with its own driver.\<close>

definition boot :: "driver \<Rightarrow> control \<Rightarrow> mqtt_config \<Rightarrow> string \<Rightarrow> time \<Rightarrow> db \<Rightarrow> system" where
  "boot drv cfg mq lp now d =
    \<lparr>sy_ctrl = startup (store_recorder drv) now (new_controller cfg (new_client mq lp) d), sy_tick = None\<rparr>"

definition reachable :: "environment \<Rightarrow> system \<Rightarrow> system \<Rightarrow> bool" where
  "reachable e s s' \<longleftrightarrow> (sys_step e)\<^sup>*\<^sup>* s s'"

lemma reachable_induct [consumes 1, case_names boot step]:
  assumes "reachable e s0 s" "P s0" "\<And>s s'. sys_step e s s' \<Longrightarrow> P s \<Longrightarrow> P s'"
  shows "P s"
  using assms(1) unfolding reachable_def by (induction rule: rtranclp_induct) (use assms(2,3) in auto)

lemma on_simps [simp]:
  "sy_ctrl (on_client f s) = (sy_ctrl s)\<lparr>c_cmd := f (c_cmd (sy_ctrl s))\<rparr>" "sy_tick (on_client f s) = sy_tick s"
  "sy_ctrl (on_ctrl g s) = g (sy_ctrl s)" "sy_tick (on_ctrl g s) = sy_tick s"
  by (simp_all add: on_client_def on_ctrl_def)

lemma client_steps [simp]:
  "cl_wire (on_connect ok c) = cl_wire c" "cl_topics (on_connect ok c) = cl_topics c"
  "cl_wire (on_connection_lost c) = cl_wire c" "cl_topics (on_connection_lost c) = cl_topics c"
  "cl_wire (handle_message t p now c) = cl_wire c" "cl_topics (handle_message t p now c) = cl_topics c"
  "cl_wire (disconnect c) = cl_wire c" "cl_topics (disconnect c) = cl_topics c"
  by (simp_all add: on_connect_def on_connection_lost_def handle_message_def disconnect_def client_set_connected_def)

lemma acked_cong: "cl_wire c' = cl_wire c \<Longrightarrow> cl_topics c' = cl_topics c \<Longrightarrow> acked_commands c' = acked_commands c"
  by (simp add: acked_commands_def)

lemma tick_effects_frame [frame]:
  "c_cfg (tick_effects ci ri now snap v p c) = c_cfg c" "c_ctrl (tick_effects ci ri now snap v p c) = c_ctrl c"
  by (simp_all add: tick_effects_split frame)

section \<open>Invariants of every reachable state\<close>

definition wire_inv :: "control \<Rightarrow> system \<Rightarrow> bool" where
  "wire_inv cfg s \<longleftrightarrow> c_cfg (sy_ctrl s) = cfg \<and> settings_wf cfg (c_ctrl (sy_ctrl s)) \<and>
     evcc.wire_ok (sy_ctrl s) \<and>
     (case sy_tick s of None \<Rightarrow> True | Some (Planned now snap v p) \<Rightarrow> plan_ok p | Some (Committed now snap v p) \<Rightarrow> plan_ok p)"

lemma wire_ok_client:
  "evcc.wire_ok c \<Longrightarrow> cl_wire d = cl_wire (c_cmd c) \<Longrightarrow> cl_topics d = cl_topics (c_cmd c) \<Longrightarrow>
    evcc.wire_ok (c\<lparr>c_cmd := d\<rparr>)"
  using acked_cong[of d "c_cmd c"] by (simp add: evcc.wire_ok_def client_ready_def wire_synced_def)

lemma wire_ok_same_loop: "evcc.wire_ok c \<Longrightarrow> same_loop c c' \<Longrightarrow> evcc.wire_ok c'"
  by (rule evcc.wire_ok_same) (simp_all add: same_loop_def)

text \<open>A web operation, seen from the loop.\<close>

lemma wire_inv_on_ctrl:
  assumes "wire_inv cfg s" "same_loop (sy_ctrl s) (f (sy_ctrl s))" "settings_wf cfg (c_ctrl (f (sy_ctrl s)))"
  shows "wire_inv cfg (on_ctrl f s)"
  using assms wire_ok_same_loop[of "sy_ctrl s" "f (sy_ctrl s)"] by (simp add: wire_inv_def same_loop_cfg)

lemma wire_inv_client:
  assumes "wire_inv cfg s" "\<And>c. cl_wire (f c) = cl_wire c" "\<And>c. cl_topics (f c) = cl_topics c"
  shows "wire_inv cfg (on_client f s)"
  using assms wire_ok_client[of "sy_ctrl s" "f (c_cmd (sy_ctrl s))"] by (simp add: wire_inv_def)

lemma wire_inv_step:
  assumes "sys_step e s s'" "control_ok cfg" "wire_inv cfg s"
  shows "wire_inv cfg s'"
proof -
  have w: "wire_inv cfg s" "settings_wf cfg (c_ctrl (sy_ctrl s))" "c_cfg (sy_ctrl s) = cfg"
    using assms(3) by (simp_all add: wire_inv_def)
  from assms(1) show ?thesis
  proof cases
    case (st_begin snap v now)
    with assms(2,3) plan_ok_decide[of cfg v] show ?thesis by (simp add: wire_inv_def tick_read_def)
  next
    case (st_commit now snap v p)
    have "evcc.wire_ok (tick_commit now snap v p (sy_ctrl s))"
      by (rule evcc.wire_ok_same[of "sy_ctrl s"]) (use assms(3) in \<open>simp_all add: wire_inv_def frame\<close>)
    with st_commit assms(3) show ?thesis by (simp add: wire_inv_def frame settings_wf_commit)
  next
    case (st_effects now snap v p)
    with assms(3) show ?thesis by (simp add: wire_inv_def frame evcc.wire_ok_effects)
  next
    case st_prune
    have "c_ctrl (prune ri now c) = c_ctrl c" for ri :: "db recorder" and now and c :: "(client, db) controller"
      by (simp add: prune_def Let_def)
    with st_prune w show ?thesis by (simp add: wire_inv_on_ctrl same_loop_startup_parts)
  qed (use w wf_setters[of "sy_ctrl s"] in \<open>simp_all add: wire_inv_client wire_inv_on_ctrl same_loop_web wf_set_override\<close>)
qed

lemma wire_inv_boot:
  assumes "control_ok cfg"
  shows "wire_inv cfg (boot drv cfg mq lp now d)"
proof -
  let ?c = "new_controller cfg (new_client mq lp) d"
  have "same_loop ?c (startup (store_recorder drv) now ?c)"
    unfolding startup_def Let_def
    by (intro same_loop_trans[OF _ same_loop_startup_parts(2)] same_loop_trans[OF _ same_loop_startup_parts(1)]
        same_loop_trans[OF _ same_loop_loaders(2)] same_loop_trans[OF _ same_loop_loaders(1)] same_loop_startup_parts(3))
  moreover have "evcc.wire_ok ?c"
    by (simp add: evcc.wire_ok_def new_controller_def wire_synced_def wire_safe_def)
  ultimately show ?thesis
    using wf_startup[OF assms, of "store_recorder drv" now "new_client mq lp" d] same_loop_cfg wire_ok_same_loop
    by (fastforce simp: wire_inv_def boot_def new_controller_def)
qed

lemma wire_inv_reachable:
  assumes "control_ok cfg" "reachable e (boot drv cfg mq lp now d) s"
  shows "wire_inv cfg s"
  using assms(2) by (rule reachable_induct) (use wire_inv_boot wire_inv_step assms(1) in blast)+

end
