(* ===== verification/WebHandlers.thy ===== *)
theory WebHandlers
  imports WebDto I18n Setup System
begin

text \<open>
  \<open>internal/web/handlers.go\<close>, \<open>server.go\<close>, \<open>setup.go\<close> and \<open>sw.go\<close>: one function per handler, the
  route table and the error handler. Fiber's parsing of a request and the rendering of the
  templates are not modelled: a request carries what Fiber's accessors return, and a rendered
  page is the template's name with its view model.
\<close>

section \<open>Requests and responses\<close>

record override_request =
  or_mode :: string
  or_hours :: f64
  or_cap_bypass :: bool
  or_cap_bypass_soc :: int

text \<open>The \<open>hr_body_\<close> fields are the outcomes of \<open>BodyParser\<close> for the types of the handlers; \<open>None\<close> is an error.\<close>

record request =
  hr_header :: "string \<Rightarrow> string"
  hr_cookie :: "string \<Rightarrow> string"
  hr_param :: "string \<Rightarrow> string"
  hr_query :: "string \<Rightarrow> string"
  hr_query_int :: "string \<Rightarrow> int \<Rightarrow> int"
  hr_host :: string
  hr_body_override :: "override_request option"
  hr_body_power :: "string option"
  hr_body_profile :: "string option"
  hr_body_threshold :: "f64 option"
  hr_body_soc :: "int option"
  hr_body_version :: "string option"

text \<open>The texts of error values are kept as the values.\<close>

datatype message = Msg string | InvalidMode string | ErrorText error | UpdateErrorText update_error

datatype web_error = FiberError int message | PlainError message

datatype json = JsonOk | JsonFailure message | JsonStatus status_vm | JsonUpdate update_vm
  | JsonSessions "session_vm list" | JsonEvents "time event list" | JsonSamples "(time, bool) sample list"

text \<open>The templates with their view models; the pages of the layout carry title, language and active tab.\<close>

datatype view = Dashboard status_vm "session_vm list" | Control status_vm | Settings update_vm | SetupGuide bool
  | PartialStatus status_vm | PartialControlStatus status_vm | PartialDetail status_vm | PartialControls status_vm
  | PartialSettings status_vm | PartialSessions "session_vm list" | PartialUpdate update_vm

record layout =
  ly_title :: string
  ly_active :: string

datatype content = Plain string | Json json | Page layout string view | Fragment string view | RedirectTo string
  | File string "(string \<times> string) list" string

record cookie =
  ck_name :: string
  ck_value :: string
  ck_max_age :: int
  ck_same_site :: string

record response =
  rs_status :: int
  rs_cookie :: "cookie option"
  rs_content :: content

definition reply :: "int \<Rightarrow> content \<Rightarrow> response" where
  "reply code c = \<lparr>rs_status = code, rs_cookie = None, rs_content = c\<rparr>"

section \<open>The server's surroundings\<close>

text \<open>What \<open>url.Parse\<close> returns, as far as it is used.\<close>

record url =
  ur_scheme :: string
  ur_opaque :: string
  ur_host :: string
  ur_escaped_path :: string
  ur_force_query :: bool
  ur_raw_query :: string

text \<open>The outcome of reading the certificate file.\<close>

datatype ca_file = CaData string | CaMissing | CaUnreadable

text \<open>
  The environment of one request: the two readings of the web clock (on arrival and when a
  view is rendered), the controller's and the updater's clocks, the sidecar's status file at the
  first and at a later reading, the outcomes of I/O, and library functions that are not
  modelled (\<open>url.Parse\<close>, \<open>pem.Decode\<close>, the general layout parser of \<open>time.Parse\<close>, the worker's template).
\<close>

record web_env =
  we_env :: environment
  we_now :: time
  we_render_now :: time
  we_ctrl_now :: time
  we_upd_now :: time
  we_upd_later :: time
  we_sidecar :: "sidecar_status option"
  we_sidecar_later :: "sidecar_status option"
  we_slice :: slice_sort
  we_registry :: registry
  we_disk :: disk
  we_catalogs :: catalogs
  we_ca_stat :: bool
  we_ca_file :: ca_file
  we_pem_decode :: "string \<Rightarrow> string option"
  we_url_parse :: "string \<Rightarrow> url option"
  we_time_layout :: "string \<Rightarrow> time option"
  we_sw_render :: "string \<Rightarrow> string option"

text \<open>What a request can change.\<close>

record world =
  wd_web :: web_config
  wd_ctrl :: "(client, db) controller"
  wd_upd :: updater
  wd_dir :: request_dir

type_synonym handler = "web_env \<Rightarrow> request \<Rightarrow> world \<Rightarrow> world \<times> (web_error + response)"

abbreviation we_driver :: "web_env \<Rightarrow> driver" where "we_driver e \<equiv> en_driver (we_env e)"
abbreviation we_recorder :: "web_env \<Rightarrow> db recorder" where "we_recorder e \<equiv> store_recorder (we_driver e)"
abbreviation we_oor :: "web_env \<Rightarrow> f64 \<Rightarrow> int" where "we_oor e \<equiv> en_oor (we_env e)"

definition htmx :: "request \<Rightarrow> bool" where
  "htmx q \<longleftrightarrow> hr_header q ''HX-Request'' \<noteq> ''''"

definition lang_cookie_name :: string where "lang_cookie_name = ''lang''"

definition lang_of :: "request \<Rightarrow> string" where
  "lang_of q = resolve (hr_cookie q lang_cookie_name) (hr_header q ''Accept-Language'')"

text \<open>Reading through the store counts as a call to its driver.\<close>

definition with_db :: "(db \<Rightarrow> db \<times> (error + 'a)) \<Rightarrow> world \<Rightarrow> world \<times> (error + 'a)" where
  "with_db f w = (let (r, x) = f (c_rec (wd_ctrl w)) in (w\<lparr>wd_ctrl := (wd_ctrl w)\<lparr>c_rec := r\<rparr>\<rparr>, x))"

section \<open>Probes, pages and fragments\<close>

definition handle_healthz :: handler where
  "handle_healthz e q w = (w, Inr (reply 200 (Plain ''ok'')))"

definition handle_readyz :: handler where
  "handle_readyz e q w = (w, Inr (if sn_broker_connected (sv_snapshot (status_of (wd_ctrl w))) then reply 200 (Plain ''ok'')
     else reply 503 (Plain ''not ready'')))"

definition current_status :: "web_env \<Rightarrow> world \<Rightarrow> status_vm" where
  "current_status e w = new_status_vm (we_oor e) (we_render_now e) (status_of (wd_ctrl w))"

definition render_status :: "(status_vm \<Rightarrow> view) \<Rightarrow> handler" where
  "render_status view e q w = (w, Inr (reply 200 (Fragment (lang_of q) (view (current_status e w)))))"

definition default_sessions_limit :: int where "default_sessions_limit = 20"
definition default_events_limit :: int where "default_events_limit = 50"

definition handle_dashboard :: handler where
  "handle_dashboard e q w =
    (case with_db (recent_sessions (we_driver e) default_sessions_limit) w of
       (w', Inl err) \<Rightarrow> (w', Inl (PlainError (ErrorText (Wrapped ''dashboard: recent sessions'' err))))
     | (w', Inr ss) \<Rightarrow> (w', Inr (reply 200 (Page
          \<lparr>ly_title = tr (we_catalogs e) (lang_of q) ''dashboard.title'', ly_active = ''status''\<rparr> (lang_of q)
          (Dashboard (current_status e w) (new_session_vms (we_oor e) ss))))))"

definition handle_control :: handler where
  "handle_control e q w = (w, Inr (reply 200 (Page
     \<lparr>ly_title = tr (we_catalogs e) (lang_of q) ''control.title'', ly_active = ''control''\<rparr> (lang_of q)
     (Control (current_status e w)))))"

definition handle_settings :: handler where
  "handle_settings e q w = (w, Inr (reply 200 (Page
     \<lparr>ly_title = tr (we_catalogs e) (lang_of q) ''settings.title'', ly_active = ''settings''\<rparr> (lang_of q)
     (Settings (new_update_vm (we_oor e) (we_render_now e) (info_of (we_sidecar e) (wd_upd w)))))))"

definition handle_sessions_partial :: handler where
  "handle_sessions_partial e q w =
    (case with_db (recent_sessions (we_driver e) default_sessions_limit) w of
       (w', Inl err) \<Rightarrow> (w', Inl (PlainError (ErrorText (Wrapped ''sessions partial'' err))))
     | (w', Inr ss) \<Rightarrow> (w', Inr (reply 200 (Fragment (lang_of q) (PartialSessions (new_session_vms (we_oor e) ss))))))"

definition handle_api_status :: handler where
  "handle_api_status e q w = (w, Inr (reply 200 (Json (JsonStatus (current_status e w)))))"

section \<open>Switching the language\<close>

definition is_supported_lang :: "string \<Rightarrow> bool" where
  "is_supported_lang code \<longleftrightarrow> list_ex (\<lambda>sup. code = sup) supported"

text \<open>\<open>URL.RequestURI\<close>.\<close>

definition request_uri :: "url \<Rightarrow> string" where
  "request_uri u =
    (if ur_opaque u = '''' then (if ur_escaped_path u = '''' then ''/'' else ur_escaped_path u)
     else if has_prefix (ur_opaque u) ''//'' then ur_scheme u @ '':'' @ ur_opaque u else ur_opaque u) @
    (if ur_force_query u \<or> ur_raw_query u \<noteq> '''' then ''?'' @ ur_raw_query u else '''')"

definition same_origin_path :: "(string \<Rightarrow> url option) \<Rightarrow> string \<Rightarrow> string \<Rightarrow> string" where
  "same_origin_path parse referer host =
    (if referer = '''' then ''/''
     else case parse referer of None \<Rightarrow> ''/''
       | Some u \<Rightarrow> if ur_host u \<noteq> host then ''/'' else if request_uri u \<noteq> '''' then request_uri u else ''/'')"

definition handle_set_lang :: handler where
  "handle_set_lang e q w =
    (let code = hr_param q ''code'' in
     if \<not> is_supported_lang code then (w, Inl (FiberError 400 (Msg ''unsupported language'')))
     else (w, Inr \<lparr>rs_status = 302,
       rs_cookie = Some \<lparr>ck_name = lang_cookie_name, ck_value = code, ck_max_age = 365 * 24 * 60 * 60, ck_same_site = ''lax''\<rparr>,
       rs_content = RedirectTo (same_origin_path (we_url_parse e) (hr_header q ''Referer'') (hr_host q))\<rparr>))"

section \<open>The override\<close>

definition parse_override :: "string \<Rightarrow> message + override" where
  "parse_override mode =
    (if mode = override_str OverrideAuto then Inr OverrideAuto
     else if mode = override_str OverrideForceOn then Inr OverrideForceOn
     else if mode = override_str OverrideForceOff then Inr OverrideForceOff
     else Inl (InvalidMode mode))"

definition override_until :: "(f64 \<Rightarrow> int) \<Rightarrow> time \<Rightarrow> f64 \<Rightarrow> time" where
  "override_until oor now hours = (if 0 < hours then time_add now (f64_to_int oor (hours * f64_of_int hour)) else 0)"

definition handle_api_override :: handler where
  "handle_api_override e q w =
    (case hr_body_override q of
       None \<Rightarrow> (w, Inl (FiberError 400 (Msg ''invalid override body'')))
     | Some req \<Rightarrow>
        (case parse_override (or_mode req) of
           Inl msg \<Rightarrow> (w, Inl (FiberError 400 msg))
         | Inr mode \<Rightarrow>
            let until = override_until (we_oor e) (we_now e) (or_hours req);
                cap_bypass = (or_cap_bypass req \<and> mode = OverrideForceOn);
                w = w\<lparr>wd_ctrl := set_override (we_recorder e) (we_ctrl_now e) mode until cap_bypass (or_cap_bypass_soc req) (wd_ctrl w)\<rparr>
            in if htmx q then render_status PartialControls e q w else (w, Inr (reply 200 (Json JsonOk)))))"

section \<open>The persistent settings\<close>

text \<open>What the four handlers share after their call: a validation error is the client's, any other the server's.\<close>

definition setting_reply ::
    "error \<Rightarrow> string \<Rightarrow> (status_vm \<Rightarrow> view) \<Rightarrow> web_env \<Rightarrow> request \<Rightarrow> world \<Rightarrow> (client, db) controller \<times> status
      \<Rightarrow> world \<times> (web_error + response)" where
  "setting_reply invalid failed view e q w result =
    (case result of (c, st) \<Rightarrow>
      let w = w\<lparr>wd_ctrl := c\<rparr> in
      (case st of
         Some err \<Rightarrow> (w, Inl (if error_is err invalid then FiberError 400 (ErrorText err) else FiberError 500 (Msg failed)))
       | None \<Rightarrow> if htmx q then render_status view e q w else (w, Inr (reply 200 (Json JsonOk)))))"

definition handle_charge_power :: handler where
  "handle_charge_power e q w =
    (case hr_body_power q of
       None \<Rightarrow> (w, Inl (FiberError 400 (Msg ''invalid charge-power body'')))
     | Some mode \<Rightarrow> setting_reply ErrInvalidChargePower ''failed to set charge power'' PartialControls e q w
         (set_charge_power (we_recorder e) (we_ctrl_now e) mode (wd_ctrl w)))"

definition handle_auto_profile :: handler where
  "handle_auto_profile e q w =
    (case hr_body_profile q of
       None \<Rightarrow> (w, Inl (FiberError 400 (Msg ''invalid auto-profile body'')))
     | Some profile \<Rightarrow> setting_reply ErrInvalidAutoProfile ''failed to set auto profile'' PartialSettings e q w
         (set_auto_profile (we_recorder e) (we_ctrl_now e) profile (wd_ctrl w)))"

definition handle_start_threshold :: handler where
  "handle_start_threshold e q w =
    (case hr_body_threshold q of
       None \<Rightarrow> (w, Inl (FiberError 400 (Msg ''invalid start-threshold body'')))
     | Some t \<Rightarrow> setting_reply ErrInvalidStartThreshold ''failed to set start threshold'' PartialSettings e q w
         (set_start_threshold (we_recorder e) (we_ctrl_now e) t (wd_ctrl w)))"

definition handle_target_soc :: handler where
  "handle_target_soc e q w =
    (case hr_body_soc q of
       None \<Rightarrow> (w, Inl (FiberError 400 (Msg ''invalid target-soc body'')))
     | Some pct \<Rightarrow> setting_reply ErrInvalidTargetSoC ''failed to set target soc'' PartialSettings e q w
         (set_target_soc (we_recorder e) (we_ctrl_now e) pct (wd_ctrl w)))"

section \<open>Updates\<close>

definition render_update_partial :: "sidecar_status option \<Rightarrow> handler" where
  "render_update_partial file e q w = (w, Inr (reply 200 (Fragment (lang_of q)
     (PartialUpdate (new_update_vm (we_oor e) (we_render_now e) (info_of file (wd_upd w)))))))"

definition handle_update_check :: handler where
  "handle_update_check e q w =
    (case check (we_slice e) (we_registry e) (we_upd_now e) (we_upd_later e) (we_sidecar e) (wd_upd w) of
       (u, info, err) \<Rightarrow>
        let w = w\<lparr>wd_upd := u\<rparr>; vm = new_update_vm (we_oor e) (we_render_now e) info
        in (w, Inr (reply 200 (if htmx q then Fragment (lang_of q) (PartialUpdate vm) else Json (JsonUpdate vm)))))"

definition handle_update_apply :: handler where
  "handle_update_apply e q w =
    (case hr_body_version q of
       None \<Rightarrow> (w, Inl (FiberError 400 (Msg ''invalid update body'')))
     | Some version \<Rightarrow>
        let info = info_of (we_sidecar e) (wd_upd w) in
        if \<not> nf_enabled info then (w, Inl (FiberError 400 (Msg ''updates are disabled'')))
        else if version = '''' \<or> version \<noteq> nf_latest info then
          (w, Inl (FiberError 400 (Msg ''version must equal the latest available release'')))
        else (case trigger (we_disk e) (we_upd_now e) version (wd_upd w) (wd_dir w) of
            (dirs, err) \<Rightarrow>
              let w = w\<lparr>wd_dir := last dirs\<rparr> in
              (case err of
                 Some x \<Rightarrow> (w, Inl (FiberError 400 (UpdateErrorText x)))
               | None \<Rightarrow> if htmx q then render_update_partial (we_sidecar_later e) e q w
                         else (w, Inr (reply 200 (Json JsonOk))))))"

section \<open>The JSON API over the store\<close>

definition query_limit :: "request \<Rightarrow> string \<Rightarrow> int \<Rightarrow> int" where
  "query_limit q key def = (let v = hr_query_int q key def in if v \<le> 0 then def else v)"

definition handle_api_sessions :: handler where
  "handle_api_sessions e q w =
    (case with_db (recent_sessions (we_driver e) (query_limit q ''limit'' default_sessions_limit)) w of
       (w, Inl err) \<Rightarrow> (w, Inl (PlainError (ErrorText (Wrapped ''api sessions'' err))))
     | (w, Inr ss) \<Rightarrow> (w, Inr (reply 200 (Json (JsonSessions (new_session_vms (we_oor e) ss))))))"

definition handle_api_events :: handler where
  "handle_api_events e q w =
    (case with_db (recent_events (we_driver e) (query_limit q ''limit'' default_events_limit)) w of
       (w, Inl err) \<Rightarrow> (w, Inl (PlainError (ErrorText (Wrapped ''api events'' err))))
     | (w, Inr es) \<Rightarrow> (w, Inr (reply 200 (Json (JsonEvents es)))))"

definition default_history_window :: duration where "default_history_window = 24 * hour"
definition max_history_window :: duration where "max_history_window = 7 * 24 * hour"

text \<open>\<open>time.Parse(time.RFC3339, v)\<close>: the strict parser first, then the general one.\<close>

definition parse_query_time :: "web_env \<Rightarrow> string \<Rightarrow> time option" where
  "parse_query_time e v = (case parse_time v of Some t \<Rightarrow> Some t | None \<Rightarrow> we_time_layout e v)"

definition query_time :: "web_env \<Rightarrow> request \<Rightarrow> string \<Rightarrow> time \<Rightarrow> web_error + time" where
  "query_time e q key def =
    (if hr_query q key = '''' then Inr def
     else case parse_query_time e (hr_query q key) of
       None \<Rightarrow> Inl (FiberError 400 (Msg (''invalid '' @ key @ '' (want RFC3339)'')))
     | Some t \<Rightarrow> Inr t)"

definition history_range :: "web_env \<Rightarrow> request \<Rightarrow> web_error + time \<times> time" where
  "history_range e q =
    (case query_time e q ''from'' (time_add (we_now e) (- default_history_window)) of
       Inl err \<Rightarrow> Inl err
     | Inr from_t \<Rightarrow>
        (case query_time e q ''to'' (we_now e) of
           Inl err \<Rightarrow> Inl err
         | Inr to_t \<Rightarrow>
            if time_before to_t from_t then Inl (FiberError 400 (Msg ''to must not be before from''))
            else if max_history_window < time_sub to_t from_t then Inr (time_add to_t (- max_history_window), to_t)
            else Inr (from_t, to_t)))"

definition handle_api_history :: handler where
  "handle_api_history e q w =
    (case history_range e q of
       Inl err \<Rightarrow> (w, Inl err)
     | Inr (from_t, to_t) \<Rightarrow>
        (case with_db (samples_between (we_driver e) from_t to_t) w of
           (w, Inl err) \<Rightarrow> (w, Inl (PlainError (ErrorText (Wrapped ''api history'' err))))
         | (w, Inr ss) \<Rightarrow> (w, Inr (reply 200 (Json (JsonSamples ss))))))"

section \<open>The setup page and the service worker\<close>

definition ca_root_available :: "web_env \<Rightarrow> world \<Rightarrow> bool" where
  "ca_root_available e w \<longleftrightarrow> wb_ca_root_path (wd_web w) \<noteq> '''' \<and> we_ca_stat e"

definition handle_setup :: handler where
  "handle_setup e q w = (w, Inr (reply 200 (Page
     \<lparr>ly_title = tr (we_catalogs e) (lang_of q) ''setup.title'', ly_active = ''settings''\<rparr> (lang_of q)
     (SetupGuide (ca_root_available e w)))))"

text \<open>The data, the not-found message or an error.\<close>

datatype ca_read = CaRead string | CaNotFound string | CaError message

definition read_ca_root :: "web_env \<Rightarrow> world \<Rightarrow> ca_read" where
  "read_ca_root e w =
    (if wb_ca_root_path (wd_web w) = '''' then
       CaNotFound ''No CA root certificate is configured for this deployment (WHA_WEB_CAROOTPATH is unset).''
     else case we_ca_file e of
         CaData d \<Rightarrow> CaRead d
       | CaMissing \<Rightarrow> CaNotFound ''The configured CA root certificate file was not found on disk.''
       | CaUnreadable \<Rightarrow> CaError (Msg ''setup: read CA root''))"

definition attachment :: "string \<Rightarrow> string" where
  "attachment name = ''attachment; filename='' @ quoted name"

definition serve_ca :: "(string \<Rightarrow> content) \<Rightarrow> handler" where
  "serve_ca f e q w = (w, case read_ca_root e w of
     CaError msg \<Rightarrow> Inl (PlainError msg)
   | CaNotFound msg \<Rightarrow> Inr (reply 404 (Plain msg))
   | CaRead d \<Rightarrow> Inr (reply 200 (f d)))"

definition handle_setup_root_cert :: handler where
  "handle_setup_root_cert = serve_ca (\<lambda>d. File ''application/x-x509-ca-cert''
     [(''Content-Disposition'', attachment ''root.crt'')] d)"

definition handle_setup_mobileconfig :: handler where
  "handle_setup_mobileconfig e = serve_ca (\<lambda>d. File ''application/x-apple-aspen-config''
     [(''Content-Disposition'', attachment ''wha-ca.mobileconfig'')]
     (build_mobileconfig (case we_pem_decode e d of Some der \<Rightarrow> der | None \<Rightarrow> d))) e"

definition handle_service_worker :: handler where
  "handle_service_worker e q w =
    (let current = nf_current (info_of (we_sidecar e) (wd_upd w));
         version = (if current = '''' then ''dev'' else current)
     in (w, case we_sw_render e version of
          None \<Rightarrow> Inl (PlainError (Msg ''sw.js: render''))
        | Some js \<Rightarrow> Inr (reply 200 (File ''application/javascript''
            [(''Service-Worker-Allowed'', ''/''), (''Cache-Control'', ''no-cache'')] js))))"

section \<open>Routes and errors\<close>

datatype http_method = GET | POST

definition handle_favicon :: handler where
  "handle_favicon e q w = (w, Inr (reply 301 (RedirectTo ''/static/favicon.svg'')))"

definition routes :: "(http_method \<times> string \<times> handler) list" where
  "routes = [
    (GET, ''/favicon.ico'', handle_favicon),
    (GET, ''/sw.js'', handle_service_worker),
    (GET, ''/setup'', handle_setup),
    (GET, ''/setup/root.crt'', handle_setup_root_cert),
    (GET, ''/setup/wha-ca.mobileconfig'', handle_setup_mobileconfig),
    (GET, ''/healthz'', handle_healthz),
    (GET, ''/readyz'', handle_readyz),
    (GET, ''/'', handle_dashboard),
    (GET, ''/control'', handle_control),
    (GET, ''/settings'', handle_settings),
    (GET, ''/partials/status'', render_status PartialStatus),
    (GET, ''/partials/control-status'', render_status PartialControlStatus),
    (GET, ''/partials/detail'', render_status PartialDetail),
    (GET, ''/partials/controls'', render_status PartialControls),
    (GET, ''/partials/settings'', render_status PartialSettings),
    (GET, ''/partials/sessions'', handle_sessions_partial),
    (GET, ''/partials/update'', \<lambda>e. render_update_partial (we_sidecar e) e),
    (GET, ''/lang/:code'', handle_set_lang),
    (GET, ''/api/status'', handle_api_status),
    (POST, ''/api/override'', handle_api_override),
    (POST, ''/api/charge-power'', handle_charge_power),
    (POST, ''/api/auto-profile'', handle_auto_profile),
    (POST, ''/api/start-threshold'', handle_start_threshold),
    (POST, ''/api/target-soc'', handle_target_soc),
    (GET, ''/api/sessions'', handle_api_sessions),
    (GET, ''/api/events'', handle_api_events),
    (GET, ''/api/history'', handle_api_history),
    (POST, ''/api/update/check'', handle_update_check),
    (POST, ''/api/update/apply'', handle_update_apply)]"

fun error_handler :: "web_error \<Rightarrow> response" where
  "error_handler (FiberError code msg) = reply code (Json (JsonFailure msg))"
| "error_handler (PlainError msg) = reply 500 (Json (JsonFailure msg))"

definition respond :: "handler \<Rightarrow> web_env \<Rightarrow> request \<Rightarrow> world \<Rightarrow> world \<times> response" where
  "respond h e q w = (case h e q w of (w', r) \<Rightarrow> (w', case r of Inl err \<Rightarrow> error_handler err | Inr resp \<Rightarrow> resp))"

end
