(* ===== verification/SystemSessions.thy ===== *)
theory SystemSessions
  imports System
begin

text \<open>
  Charge sessions in every reachable state of the running program: tracking, at most one open
  session, finished sessions as history, recovery after a crash.
\<close>

section \<open>Charge sessions\<close>

lemma session_ok_step:
  assumes "sys_step e s s'" "store_sessions.session_ok (sy_ctrl s)"
  shows "store_sessions.session_ok (sy_ctrl s')"
proof -
  have v: "sessions_ok (c_rec (sy_ctrl s))" using assms(2) by (simp add: store_sessions.session_ok_def)
  note same = store_sessions.session_ok_same[OF assms(2) _ store_sessions.web_sessions(1)[OF v]]
    store_sessions.session_ok_same[OF assms(2) _ store_sessions.web_sessions(2)[OF v]]
    store_sessions.session_ok_same[OF assms(2) _ store_sessions.web_sessions(3)[OF v]]
    store_sessions.session_ok_same[OF assms(2) _ store_sessions.web_sessions(4)[OF v]]
    store_sessions.session_ok_same[OF assms(2) _ store_sessions.web_sessions(5)[OF v]]
    store_sessions.session_ok_same[OF assms(2) _ store_sessions.web_sessions(6)[OF v]]
  from assms(1) show ?thesis
  proof cases
    case (st_commit now snap v p)
    with assms(2) show ?thesis by (simp add: store_sessions.session_ok_def frame)
  qed (use assms(2) in \<open>simp_all add: same same_loop_web same_loop_startup_parts store_sessions.session_ok_effects,
      simp_all add: store_sessions.session_ok_def\<close>)
qed

lemma recover_sessions_ok: "sessions_ok (c_rec c) \<Longrightarrow> sessions_ok (c_rec (recover_dangling_session (store_recorder drv) now c))"
  using store_sessions.valid_frame(8)[of "c_rec c" drv]
  by (auto simp: recover_dangling_session_def split_beta split: sum.split option.split intro!: sessions_ok_end)

text \<open>Startup in two parts: the recovery, then the loading of the settings, which touches no session.\<close>

lemma boot_ctrl:
  "sy_ctrl (boot drv cfg mq lp now d) =
    load_all (store_recorder drv) (recover_dangling_session (store_recorder drv) now (new_controller cfg (new_client mq lp) d))"
  by (simp add: boot_def startup_recover)

lemma recover_loop: "same_loop c (recover_dangling_session ri now c)"
  by (rule same_loop_startup_parts(3))

lemma boot_loop: "same_loop (new_controller cfg (new_client mq lp) d) (sy_ctrl (boot drv cfg mq lp now d))"
  unfolding boot_ctrl by (rule same_loop_trans[OF recover_loop same_loop_load_all])

lemma boot_same: "c_cfg (sy_ctrl (boot drv cfg mq lp now d)) = cfg"
    "c_cmd (sy_ctrl (boot drv cfg mq lp now d)) = new_client mq lp"
  using boot_loop[of cfg mq lp d drv now] by (simp_all add: same_loop_def new_controller_def)

lemma new_loop: "c_session_id (new_controller cfg cmd d) = 0" "\<not> c_prev_charging (new_controller cfg cmd d)"
    "c_rec (new_controller cfg cmd d) = d"
  by (simp_all add: new_controller_def)

lemma session_ok_boot:
  assumes "sessions_ok d"
  shows "store_sessions.session_ok (sy_ctrl (boot drv cfg mq lp now d))"
proof -
  define c where "c = recover_dangling_session (store_recorder drv) now (new_controller cfg (new_client mq lp) d)"
  have "same_loop (new_controller cfg (new_client mq lp) d) c" "sessions_ok (c_rec c)"
    using assms by (simp_all add: c_def recover_loop recover_sessions_ok new_loop)
  then have "store_sessions.session_ok c" by (simp add: store_sessions.session_ok_def same_loop_def new_loop)
  with store_sessions.web_sessions(7)[of c drv] show ?thesis
    unfolding boot_ctrl c_def[symmetric]
    by (intro store_sessions.session_ok_same[OF _ same_loop_load_all]) (simp_all add: store_sessions.session_ok_def)
qed

lemma session_ok_reachable:
  assumes "sessions_ok d" "reachable e (boot drv cfg mq lp now d) s"
  shows "store_sessions.session_ok (sy_ctrl s)"
  using assms(2) by (rule reachable_induct) (use session_ok_boot[OF assms(1)] session_ok_step in blast)+

text \<open>C17. In every reachable state, whatever statements of the database fail, the session table is
  well formed (positive, distinct ids below the next one), a session id the controller holds
  is that of a row still open, and it holds none while the car is not charging.\<close>

theorem charge_session_tracked:
  assumes "sessions_ok d" and "reachable e (boot drv cfg mq lp now d) s"
  shows "sessions_ok (c_rec (sy_ctrl s)) \<and>
    (c_session_id (sy_ctrl s) \<noteq> 0 \<longrightarrow> c_session_id (sy_ctrl s) \<in> open_session_ids (c_rec (sy_ctrl s))) \<and>
    (\<not> c_prev_charging (sy_ctrl s) \<longrightarrow> c_session_id (sy_ctrl s) = 0)"
  using session_ok_reachable[OF assms] by (simp add: store_sessions.session_ok_def)

section \<open>At most one open session\<close>

lemma sessions_exact_step:
  assumes "sys_step e s s'" "en_driver e = good_driver rd wall" "good_sessions.sessions_exact D (sy_ctrl s)"
  shows "good_sessions.sessions_exact D (sy_ctrl s')"
proof -
  have v: "sessions_ok (c_rec (sy_ctrl s))" using assms(3) by (simp add: good_sessions.sessions_exact_def)
  note same = good_sessions.sessions_exact_same[OF assms(3) _ store_sessions.web_sessions(1)[OF v]]
    good_sessions.sessions_exact_same[OF assms(3) _ store_sessions.web_sessions(2)[OF v]]
    good_sessions.sessions_exact_same[OF assms(3) _ store_sessions.web_sessions(3)[OF v]]
    good_sessions.sessions_exact_same[OF assms(3) _ store_sessions.web_sessions(4)[OF v]]
    good_sessions.sessions_exact_same[OF assms(3) _ store_sessions.web_sessions(5)[OF v]]
    good_sessions.sessions_exact_same[OF assms(3) _ store_sessions.web_sessions(6)[OF v]]
  from assms(1) show ?thesis
  proof cases
    case (st_commit now snap v p)
    with assms(3) show ?thesis by (simp add: good_sessions.sessions_exact_def frame)
  qed (use assms(2,3) in \<open>simp_all add: same same_loop_web same_loop_startup_parts good_sessions.sessions_exact_effects,
      simp_all add: good_sessions.sessions_exact_def\<close>)
qed

text \<open>A row the store can read back.\<close>

definition readable :: "driver \<Rightarrow> db \<Rightarrow> bool" where
  "readable drv d \<longleftrightarrow> (\<forall>r \<in> set (db_sessions d). scan_session drv r \<noteq> None)"

lemma open_session_readable:
  assumes "outcome drv d = SqlOk" "readable drv d"
  shows "\<exists>x. open_session drv d = (called d, Inr x)"
proof (cases "limit_rows 1 (newest_first (filter (\<lambda>r. se_ended_at r = None) (db_sessions d)))")
  case (Cons r rs)
  then have "r \<in> set (newest_first (filter (\<lambda>r. se_ended_at r = None) (db_sessions d)))"
    by (metis list.set_intros(1) limit_rows_def in_set_takeD)
  then have "scan_session drv r \<noteq> None" using assms(2) by (auto simp: newest_first_set readable_def)
  with assms(1) Cons show ?thesis by (auto simp: open_session_def)
qed (use assms(1) in \<open>simp add: open_session_def\<close>)

lemma boot_exact:
  assumes "sessions_ok d" "open_session_ids d \<subseteq> {i}" "readable (good_driver rd wall) d"
  shows "good_sessions.sessions_exact {} (sy_ctrl (boot (good_driver rd wall) cfg mq lp now d))"
proof -
  let ?ri = "store_recorder (good_driver rd wall)"
  define c0 where "c0 = new_controller cfg (new_client mq lp) d"
  define c where "c = recover_dangling_session ?ri now c0"
  have c0: "c_rec c0 = d" by (simp add: c0_def new_loop)
  have l: "same_loop c0 c" and v: "sessions_ok (c_rec c)"
    using assms(1) by (simp_all add: c_def recover_loop recover_sessions_ok c0)
  obtain x where x: "rec_open_session ?ri (c_rec c0) = (called d, Inr x)"
    using open_session_readable[OF outcome_good assms(3)] c0 by auto
  have "open_session_ids (c_rec c) = {}"
  proof (cases x)
    case None
    with store_sessions.open_ok[of d "good_driver rd wall" "called d" x] x c0 assms(1)
    have "open_session_ids d = {}" by simp
    moreover have "c_rec c = called d" using x None by (simp add: c_def recover_dangling_session_def)
    ultimately show ?thesis by simp
  next
    case (Some s)
    with store_sessions.open_ok[of d "good_driver rd wall" "called d" x] x c0 assms(1)
    have "se_id s \<in> open_session_ids d" by simp
    moreover have "open_session_ids (c_rec c) = open_session_ids d - {se_id s}"
      unfolding c_def using good_sessions.recover_closes_one[of c0 rd wall "called d" s] x Some assms(1) c0 by simp
    ultimately show ?thesis using assms(2) by blast
  qed
  with v l have "good_sessions.sessions_exact {} c"
    by (simp add: good_sessions.sessions_exact_def same_loop_def c0_def new_loop)
  with store_sessions.web_sessions(7)[OF v] show ?thesis
    unfolding boot_ctrl c_def[symmetric] c0_def[symmetric]
    by (intro good_sessions.sessions_exact_same[OF _ same_loop_load_all])
qed

text \<open>C18. With a working database, started on one that has at most one open session: in every
  reachable state the open sessions are exactly the one the controller is tracking, while the
  car charges, and none otherwise. In particular the next start again finds at most one.\<close>

theorem single_open_session:
  assumes "sessions_ok d" and "open_session_ids d \<subseteq> {i}" and "readable (good_driver rd wall) d"
    and "en_driver e = good_driver rd wall"
    and "reachable e (boot (good_driver rd wall) cfg mq lp now d) s"
  shows "open_session_ids (c_rec (sy_ctrl s)) =
    (if c_prev_charging (sy_ctrl s) then {c_session_id (sy_ctrl s)} else {})"
proof -
  from assms(5) have "good_sessions.sessions_exact {} (sy_ctrl s)"
    by (rule reachable_induct) (use boot_exact[OF assms(1,2,3)] sessions_exact_step[OF _ assms(4)] in blast)+
  then show ?thesis by (simp add: good_sessions.sessions_exact_def split: if_splits)
qed

section \<open>Closed sessions are history\<close>

definition closed_rows :: "db \<Rightarrow> session_row set" where
  "closed_rows d = {r \<in> set (db_sessions d). se_ended_at r \<noteq> None}"

text \<open>Operations other than those of the session table leave it alone.\<close>

lemma before_tracking_rows:
  "db_sessions (c_rec (before_tracking ci (store_recorder drv) now snap v p c)) = db_sessions (c_rec c)"
  by (rule before_tracking_rec [where Q = "\<lambda>r. db_sessions r = db_sessions (c_rec c)"]) (simp_all add: frame)

lemma record_sample_rows:
  "db_sessions (c_rec (record_sample (store_recorder drv) now inp sp d c)) = db_sessions (c_rec c)"
  by (rule record_sample_rec [where Q = "\<lambda>r. db_sessions r = db_sessions (c_rec c)"]) (simp_all add: frame)

lemma web_rows:
  defines "Q c r \<equiv> db_sessions r = db_sessions (c_rec c)"
  shows "Q c (c_rec (set_override (store_recorder drv) now m u b n c))" "Q c (c_rec (fst (set_charge_power (store_recorder drv) now mode c)))"
    "Q c (c_rec (fst (set_auto_profile (store_recorder drv) now prof c)))" "Q c (c_rec (fst (set_start_threshold (store_recorder drv) now w c)))"
    "Q c (c_rec (fst (set_target_soc (store_recorder drv) now pct c)))" "Q c (c_rec (prune (store_recorder drv) now c))"
proof -
  have q: "Q c (c_rec c)" by (simp add: Q_def)
  have ev: "\<And>ev r. Q c r \<Longrightarrow> Q c (fst (rec_insert_event (store_recorder drv) ev r))"
    and st: "\<And>k v r. Q c r \<Longrightarrow> Q c (fst (rec_set_setting (store_recorder drv) k v r))"
    and ps: "\<And>t r. Q c r \<Longrightarrow> Q c (fst (rec_prune_samples (store_recorder drv) t r))"
    and pe: "\<And>t r. Q c r \<Longrightarrow> Q c (fst (rec_prune_events (store_recorder drv) t r))"
    by (simp_all add: Q_def frame)
  show "Q c (c_rec (set_override (store_recorder drv) now m u b n c))" "Q c (c_rec (fst (set_charge_power (store_recorder drv) now mode c)))"
    "Q c (c_rec (fst (set_auto_profile (store_recorder drv) now prof c)))" "Q c (c_rec (fst (set_start_threshold (store_recorder drv) now w c)))"
    "Q c (c_rec (fst (set_target_soc (store_recorder drv) now pct c)))" "Q c (c_rec (prune (store_recorder drv) now c))"
    using web_rec[where Q = "Q c", OF ev st q] prune_rec[where Q = "Q c", OF ps pe q] by blast+
qed

lemma closed_metrics: "closed_rows d \<subseteq> closed_rows (fst (update_session_metrics drv i en av pk d))"
  by (auto simp: closed_rows_def update_session_metrics_def update_rows_def split_beta image_iff)

lemma closed_start: "closed_rows d \<subseteq> closed_rows (fst (start_session drv t reason soc d))"
  by (auto simp: closed_rows_def start_session_def)

lemma closed_end:
  assumes "sessions_ok d" "i \<in> open_session_ids d"
  shows "closed_rows d \<subseteq> closed_rows (fst (end_session drv i t reason soc en av pk d))"
proof
  fix r assume r: "r \<in> closed_rows d"
  have "se_id r \<noteq> i"
  proof
    assume "se_id r = i"
    moreover obtain q where "q \<in> set (db_sessions d)" "se_ended_at q = None" "se_id q = i"
      using assms(2) by (auto simp: open_session_ids_def open_ids_of_iff)
    ultimately show False using r assms(1) by (auto simp: closed_rows_def sessions_ok_def distinct_map dest: inj_onD)
  qed
  with r show "r \<in> closed_rows (fst (end_session drv i t reason soc en av pk d))"
    by (auto simp: closed_rows_def end_session_def update_rows_def split_beta image_iff)
qed

lemma closed_cong: "db_sessions d = db_sessions d' \<Longrightarrow> closed_rows d = closed_rows d'"
  by (simp add: closed_rows_def)

lemma closed_track:
  assumes "store_sessions.session_ok c"
  shows "closed_rows (c_rec c) \<subseteq> closed_rows (c_rec (track_session (store_recorder drv) now inp st c))"
proof -
  let ?ri = "store_recorder drv"
  define c1 where "c1 = (if in_charging inp \<and> \<not> c_prev_charging c then open_new_session ?ri now inp c
    else if \<not> in_charging inp \<and> c_prev_charging c then close_session ?ri now inp (stop_reason_for now st inp) c else c)"
  have ok: "sessions_ok (c_rec c)" "c_session_id c \<noteq> 0 \<Longrightarrow> c_session_id c \<in> open_session_ids (c_rec c)"
    using assms by (simp_all add: store_sessions.session_ok_def)
  have "closed_rows (c_rec c) \<subseteq> closed_rows (c_rec (open_new_session ?ri now inp c))"
    using closed_start[of "c_rec c" drv now]
    by (auto simp: open_new_session_def Let_def split_beta split: sum.split)
  moreover have "closed_rows (c_rec c) \<subseteq> closed_rows (c_rec (close_session ?ri now inp reason c))" for reason
    using closed_end[OF ok] by (auto simp: close_session_def Let_def)
  ultimately have "closed_rows (c_rec c) \<subseteq> closed_rows (c_rec c1)" by (simp add: c1_def)
  moreover have "closed_rows (c_rec c1) \<subseteq> closed_rows (c_rec (accumulate ?ri inp c1))"
    using closed_metrics by (simp add: accumulate_def Let_def)
  moreover have "track_session ?ri now inp st c =
    (if in_charging inp \<and> \<not> in_stale inp then accumulate ?ri inp c1 else c1)\<lparr>c_prev_charging := in_charging inp\<rparr>"
    by (simp add: track_session_def c1_def Let_def)
  ultimately show ?thesis by auto
qed

lemma closed_effects:
  assumes "store_sessions.session_ok c"
  shows "closed_rows (c_rec c) \<subseteq> closed_rows (c_rec (tick_effects ci (store_recorder drv) now snap v p c))"
proof -
  let ?b = "before_tracking ci (store_recorder drv) now snap v p c"
  have "store_sessions.session_ok ?b"
    using assms store_sessions.before_tracking_sessions[of c ci drv now snap v p]
    by (simp add: store_sessions.session_ok_def frame)
  from closed_track[OF this, of drv now "pl_inputs p" "dec_state (pl_decision p)"]
  show ?thesis
    unfolding tick_effects_tracking closed_cong[OF record_sample_rows] closed_cong[OF before_tracking_rows] .
qed

text \<open>C19. The record of a finished charge session is never changed again: in no reachable state does
  a step of the program alter or delete a closed row, although \<open>EndSession\<close> itself would
  overwrite one.\<close>

theorem closed_sessions_immutable:
  assumes "sessions_ok d" and "reachable e (boot drv cfg mq lp now0 d) s" and "sys_step e s s'"
  shows "closed_rows (c_rec (sy_ctrl s)) \<subseteq> closed_rows (c_rec (sy_ctrl s'))"
proof -
  have ok: "store_sessions.session_ok (sy_ctrl s)" by (rule session_ok_reachable[OF assms(1,2)])
  from assms(3) show ?thesis
  proof cases
    case (st_effects now snap v p)
    with closed_effects[OF ok] show ?thesis by simp
  qed (simp_all add: closed_cong[OF web_rows(1)] closed_cong[OF web_rows(2)] closed_cong[OF web_rows(3)]
      closed_cong[OF web_rows(4)] closed_cong[OF web_rows(5)] closed_cong[OF web_rows(6)] frame)
qed

text \<open>\<open>EndSession\<close> overwrites a closed row: its update is not limited to open sessions.\<close>

lemma end_session_overwrites:
  assumes "sessions_ok d" "r \<in> closed_rows d" "outcome drv d = SqlOk"
  shows "r\<lparr>se_ended_at := Some (format_time t), se_stop_reason := Some reason, se_end_soc := soc, se_energy := en,
      se_avg := av, se_peak := pk\<rparr> \<in> closed_rows (fst (end_session drv (se_id r) t reason soc en av pk d)) \<and>
    snd (end_session drv (se_id r) t reason soc en av pk d) = None"
proof -
  have r: "r \<in> set (db_sessions d)" using assms(2) by (simp add: closed_rows_def)
  then have "filter (\<lambda>q. se_id q = se_id r) (db_sessions d) \<noteq> []" by (auto simp: filter_empty_conv)
  with r assms(3) show ?thesis
    by (auto simp: closed_rows_def end_session_def update_rows_def split_beta image_iff intro!: bexI[of _ r])
qed

section \<open>Recovery after a crash\<close>

definition close_row :: "int \<Rightarrow> time \<Rightarrow> session_row \<Rightarrow> session_row" where
  "close_row i now r = (if se_id r = i
     then r\<lparr>se_ended_at := Some (format_time now), se_stop_reason := Some ''restart'', se_end_soc := None\<rparr> else r)"

lemma close_row_simps [simp]:
  "se_id (close_row i now r) = se_id r"
  "(se_ended_at (close_row i now r) = None) = (se_id r \<noteq> i \<and> se_ended_at r = None)"
  by (simp_all add: close_row_def)

lemma open_ids_of_close_row: "open_ids_of (map (close_row i now) rows) = open_ids_of rows - {i}"
  by (induction rows) auto

lemma load_all_rows: "db_sessions (c_rec (load_all (store_recorder drv) c)) = db_sessions (c_rec c)"
  by (rule load_all_rec [where Q = "\<lambda>r. db_sessions r = db_sessions (c_rec c)"]) (simp_all add: get_setting_def)

lemma scan_session_metrics:
  "scan_session drv r = Some s \<Longrightarrow> se_id s = se_id r \<and> se_energy s = se_energy r \<and> se_avg s = se_avg r \<and> se_peak s = se_peak r"
  by (auto simp: scan_session_def Let_def split: option.splits)

lemma unique_row: "sessions_ok d \<Longrightarrow> r \<in> set (db_sessions d) \<Longrightarrow> q \<in> set (db_sessions d) \<Longrightarrow> se_id q = se_id r \<Longrightarrow> q = r"
  by (auto simp: sessions_ok_def distinct_map dest: inj_onD)

text \<open>A start on a database with open sessions closes exactly one of them, with the stop reason
  \<open>restart\<close>, no final state of charge and the metrics accumulated before the crash, and
  changes no other session: with more than one open session the others stay open.\<close>

theorem recovery_closes_one:
  assumes "sessions_ok d" and "open_session_ids d \<noteq> {}" and "readable (good_driver rd wall) d"
  shows "\<exists>i \<in> open_session_ids d.
    db_sessions (c_rec (sy_ctrl (boot (good_driver rd wall) cfg mq lp now d))) = map (close_row i now) (db_sessions d) \<and>
    open_session_ids (c_rec (sy_ctrl (boot (good_driver rd wall) cfg mq lp now d))) = open_session_ids d - {i}"
proof -
  let ?drv = "good_driver rd wall"
  let ?c = "new_controller cfg (new_client mq lp) d"
  obtain x where x: "open_session ?drv d = (called d, Inr x)"
    using open_session_readable[OF outcome_good assms(3)] by blast
  with store_sessions.open_ok[of d ?drv "called d" x] assms(1,2)
  obtain s where s: "x = Some s" "se_id s \<in> open_session_ids d" by (auto split: option.splits)
  obtain r where r: "r \<in> set (db_sessions d)" "scan_session ?drv r = Some s"
  proof (cases "limit_rows 1 (newest_first (filter (\<lambda>r. se_ended_at r = None) (db_sessions d)))")
    case (Cons r rs)
    then have "r \<in> set (newest_first (filter (\<lambda>r. se_ended_at r = None) (db_sessions d)))"
      by (metis list.set_intros(1) limit_rows_def in_set_takeD)
    moreover have "scan_session ?drv r = Some s" using x s(1) Cons by (simp add: open_session_def split: option.splits)
    ultimately show thesis by (intro that) (auto simp: newest_first_set)
  qed (use x s(1) in \<open>simp add: open_session_def\<close>)
  note m = scan_session_metrics[OF r(2)]
  define f where "f q = (if se_id q = se_id s then q\<lparr>se_ended_at := Some (format_time now), se_stop_reason := Some ''restart'',
      se_end_soc := None, se_energy := se_energy s, se_avg := se_avg s, se_peak := se_peak s\<rparr> else q)" for q :: session_row
  have "f q = close_row (se_id s) now q" if "q \<in> set (db_sessions d)" for q
    using unique_row[OF assms(1) r(1) that] m by (cases q) (auto simp: close_row_def f_def)
  then have "map f (db_sessions d) = map (close_row (se_id s) now) (db_sessions d)" by simp
  moreover have "db_sessions (c_rec (recover_dangling_session (store_recorder ?drv) now ?c)) = map f (db_sessions d)"
    using x s(1) by (simp add: recover_dangling_session_def new_loop end_session_def update_rows_def f_def)
  ultimately have "db_sessions (c_rec (recover_dangling_session (store_recorder ?drv) now ?c)) = map (close_row (se_id s) now) (db_sessions d)"
    by simp
  then have rows: "db_sessions (c_rec (sy_ctrl (boot ?drv cfg mq lp now d))) = map (close_row (se_id s) now) (db_sessions d)"
    by (simp add: boot_ctrl load_all_rows)
  then have "open_session_ids (c_rec (sy_ctrl (boot ?drv cfg mq lp now d))) = open_session_ids d - {se_id s}"
    by (simp only: open_session_ids_def open_ids_of_close_row)
  with rows s(2) show ?thesis by blast
qed

end
