(* ===== verification/SystemTicks.thy ===== *)
theory SystemTicks
  imports System
begin

text \<open>
  What a tick makes of its plan in the running program: the life of an override, the commands that are
  sent, and that mode and limit reach the broker.
\<close>

section \<open>Overrides\<close>

text \<open>A pending plan was computed from the view it carries.\<close>

definition tick_from_view :: "environment \<Rightarrow> control \<Rightarrow> pending option \<Rightarrow> bool" where
  "tick_from_view e cfg t \<longleftrightarrow> (case t of None \<Rightarrow> True
     | Some (Planned now snap v p) \<Rightarrow> p = tick_decide (en_oor e) now snap cfg v
     | Some (Committed now snap v p) \<Rightarrow> p = tick_decide (en_oor e) now snap cfg v)"

lemma tick_from_view_simps [simp]:
  "tick_from_view e cfg None"
  "tick_from_view e cfg (Some (Planned now snap v p)) \<longleftrightarrow> p = tick_decide (en_oor e) now snap cfg v"
  "tick_from_view e cfg (Some (Committed now snap v p)) \<longleftrightarrow> p = tick_decide (en_oor e) now snap cfg v"
  by (simp_all add: tick_from_view_def)

lemma step_cfg:
  assumes "sys_step e s s'"
  shows "c_cfg (sy_ctrl s') = c_cfg (sy_ctrl s)"
  using assms by cases (simp_all add: frame same_loop_web[THEN same_loop_cfg])

lemma tick_from_view_step:
  assumes "sys_step e s s'" "tick_from_view e (c_cfg (sy_ctrl s)) (sy_tick s)"
  shows "tick_from_view e (c_cfg (sy_ctrl s')) (sy_tick s')"
  unfolding step_cfg[OF assms(1)] using assms by cases simp_all

lemma tick_from_view_reachable:
  assumes "reachable e (boot drv cfg mq lp now d) s"
  shows "tick_from_view e (c_cfg (sy_ctrl s)) (sy_tick s)"
  using assms by (rule reachable_induct) (simp add: boot_def, blast intro: tick_from_view_step)

definition override_of :: "control_state \<Rightarrow> override \<times> time \<times> bool \<times> int" where
  "override_of cs = (cs_override cs, cs_override_until cs, cs_cap_bypass cs, cs_cap_bypass_soc cs)"

lemma override_of_setters:
  "override_of (c_ctrl (fst (set_charge_power ri now mode c))) = override_of (c_ctrl c)"
  "override_of (c_ctrl (fst (set_auto_profile ri now prof c))) = override_of (c_ctrl c)"
  "override_of (c_ctrl (fst (set_start_threshold ri now w c))) = override_of (c_ctrl c)"
  "override_of (c_ctrl (fst (set_target_soc ri now pct c))) = override_of (c_ctrl c)"
  "c_ctrl (prune ri now c) = c_ctrl c"
  by (simp_all add: override_of_def set_charge_power_def set_auto_profile_def set_start_threshold_def set_target_soc_def
      prune_def Let_def frame split: prod.split option.split)

lemma tick_decide_expire:
  "pl_expire (tick_decide oor now snap cfg v) \<longleftrightarrow> cs_override (tv_ctrl v) \<noteq> OverrideAuto \<and>
     cs_override_until (tv_ctrl v) \<noteq> 0 \<and> cs_override_until (tv_ctrl v) \<le> now"
  by (auto simp: tick_decide_def Let_def override_active_def time_defs)

text \<open>C15. An override is never lost: in every step of the program it either stays as it is, or an
  operator sets a new one, or the tick being committed finds that its deadline has passed and
  resumes automatic control, the bypass of the state-of-charge cap ending with it. In
  particular an override set while a tick is deciding is not discarded by that tick.\<close>

theorem override_only_expires:
  assumes "reachable e (boot drv cfg mq lp now0 d) s" and "sys_step e s s'"
    and "override_of (c_ctrl (sy_ctrl s')) \<noteq> override_of (c_ctrl (sy_ctrl s))"
  shows "(\<exists>now mode until bypass soc.
      sy_ctrl s' = set_override (store_recorder (en_driver e)) now mode until bypass soc (sy_ctrl s)) \<or>
    (\<exists>now snap v p. sy_tick s = Some (Planned now snap v p) \<and>
      cs_override (c_ctrl (sy_ctrl s)) \<noteq> OverrideAuto \<and> cs_override_until (c_ctrl (sy_ctrl s)) \<noteq> 0 \<and>
      cs_override_until (c_ctrl (sy_ctrl s)) \<le> now \<and> override_of (c_ctrl (sy_ctrl s')) = (OverrideAuto, 0, False, 0))"
  using assms(2)
proof cases
  case (st_commit now snap v p)
  with tick_from_view_reachable[OF assms(1)] have "p = tick_decide (en_oor e) now snap (c_cfg (sy_ctrl s)) v"
    by simp
  with st_commit assms(3) show ?thesis
    by (auto simp: tick_commit_def override_of_def tick_decide_expire split: if_splits)
next
  case (st_override now mode until bypass soc)
  then have "sy_ctrl s' = set_override (store_recorder (en_driver e)) now mode until bypass soc (sy_ctrl s)" by simp
  then show ?thesis by blast
qed (use assms(3) in \<open>simp_all add: override_of_setters frame\<close>)

section \<open>What a tick commands\<close>

text \<open>When the mode and the limit are due.\<close>

definition mode_due :: "time \<Rightarrow> string \<Rightarrow> bool \<Rightarrow> ('c, 'r) controller \<Rightarrow> bool" where
  "mode_due now m force c \<longleftrightarrow> m \<noteq> c_last_mode c \<or> force \<or> cfg_republish (c_cfg c) \<le> time_sub now (c_last_publish_at c)"

definition limit_due :: "time \<Rightarrow> int \<Rightarrow> bool \<Rightarrow> ('c, 'r) controller \<Rightarrow> bool" where
  "limit_due now n force c \<longleftrightarrow> \<not> c_limit_soc_set c \<or> n \<noteq> c_last_limit_soc c \<or> force \<or>
     cfg_republish (c_cfg c) \<le> time_sub now (c_last_limit_publish_at c)"

text \<open>A broker that acknowledges every publish in time.\<close>

definition acking :: paho where "acking = (\<lambda>_ _ _. PubAcked)"

lemma acking_calls:
  "snd (set_mode acking m c) = None" "snd (set_limit_soc acking n c) = None"
  by (simp_all add: set_mode_def set_limit_soc_def publish_def acking_def Let_def)

lemma publish_mode_acking:
  assumes "client_ready (c_cmd c)"
  shows "acked_commands (c_cmd (publish_mode (evcc_commander acking) ri now d inp s f c)) =
      acked_commands (c_cmd c) @ (if mode_due now (dec_mode d) f c then [ModeCmd (dec_mode d)] else []) \<and>
    client_ready (c_cmd (publish_mode (evcc_commander acking) ri now d inp s f c))"
  using assms
proof (cases rule: evcc.publish_mode_cases[where d = d and ri = ri and now = now and inp = inp and s = s and f = f and paho = acking])
  case quiet
  then show ?thesis using assms by (auto simp: mode_due_def)
next
  case (failed cmd e)
  with acking_calls(1)[of "dec_mode d" "c_cmd c"] show ?thesis by simp
next
  case (sent cmd)
  have "mode_due now (dec_mode d) f c"
  proof (rule ccontr)
    assume "\<not> mode_due now (dec_mode d) f c"
    then have "publish_mode (evcc_commander acking) ri now d inp s f c = c" by (simp add: mode_due_def publish_mode_def)
    with sent show False by simp
  qed
  with sent show ?thesis by simp
qed

lemma publish_limit_acking:
  assumes "client_ready (c_cmd c)"
  shows "acked_commands (c_cmd (publish_limit_soc (evcc_commander acking) ri now n inp s b f c)) =
      acked_commands (c_cmd c) @ (if b \<and> limit_due now n f c then [LimitCmd (itoa n)] else [])"
  using assms
proof (cases rule: evcc.publish_limit_cases[where t = n and ri = ri and now = now and inp = inp and s = s and f = f and b = b and paho = acking])
  case quiet
  then show ?thesis by (auto simp: limit_due_def)
next
  case (failed cmd e)
  with acking_calls(2)[of n "c_cmd c"] show ?thesis by simp
next
  case (sent cmd)
  have "b \<and> limit_due now n f c"
  proof (rule ccontr)
    assume "\<not> (b \<and> limit_due now n f c)"
    then have "publish_limit_soc (evcc_commander acking) ri now n inp s b f c = c"
      by (auto simp: limit_due_def publish_limit_soc_def)
    with sent show False by simp
  qed
  with sent show ?thesis by simp
qed

text \<open>C14. With a broker that acknowledges in time, the commands of a tick are exactly: the decided mode
  when it differs from the last one, after a reconnect or when evcc came back online, or when
  the republish interval is over; then the limit, under the same conditions or if it was never
  set, and only while the broker is connected.\<close>

theorem tick_commands_exact:
  assumes "client_ready (c_cmd c)"
  shows "acked_commands (c_cmd (tick_effects (evcc_commander acking) ri now snap v p c)) =
    acked_commands (c_cmd c) @
    (if mode_due now (dec_mode (pl_decision p)) (tick_force snap c) c then [ModeCmd (dec_mode (pl_decision p))] else []) @
    (if sn_broker_connected snap \<and> limit_due now (pl_limit_target p) (tick_force snap c) c
     then [LimitCmd (itoa (pl_limit_target p))] else [])"
proof -
  define c1 where "c1 = effects_start ri now snap v p c"
  define c2 where "c2 = publish_mode (evcc_commander acking) ri now (pl_decision p) (pl_inputs p) (pl_surplus p) (tick_force snap c) c1"
  have r: "client_ready (c_cmd c1)" using assms by (simp add: c1_def frame)
  have due: "mode_due now m f c1 = mode_due now m f c" "limit_due now n f c2 = limit_due now n f c" for m n f
    by (simp_all add: mode_due_def limit_due_def c1_def c2_def frame)
  from publish_mode_acking[OF r, of ri now "pl_decision p" "pl_inputs p" "pl_surplus p" "tick_force snap c"]
  have 2: "acked_commands (c_cmd c2) = acked_commands (c_cmd c) @
      (if mode_due now (dec_mode (pl_decision p)) (tick_force snap c) c then [ModeCmd (dec_mode (pl_decision p))] else [])"
    "client_ready (c_cmd c2)"
    by (simp_all add: due flip: c2_def) (simp add: c1_def frame)
  from publish_limit_acking[OF 2(2), of ri now "pl_limit_target p" "pl_inputs p" "pl_surplus p" "sn_broker_connected snap" "tick_force snap c"] 2(1)
  show ?thesis
    by (simp add: tick_effects_split frame due flip: c1_def c2_def)
qed

section \<open>The decided mode reaches the broker\<close>

lemma set_mode_failed_wire:
  assumes "set_mode paho m c = (c', Some err)"
  obtains w where "cl_wire c' = cl_wire c @ [w]" "w_topic w = tp_mode_set (cl_topics c)" "w_payload w = m"
    "w_outcome w \<noteq> PubAcked"
  using assms by (auto simp: set_mode_def publish_def Let_def split: pub_outcome.splits)

lemma publish_limit_wire:
  "\<exists>ws. cl_wire (c_cmd (publish_limit_soc (evcc_commander paho) ri now n inp s b f c)) = cl_wire (c_cmd c) @ ws"
  by (auto simp: publish_limit_soc_def set_limit_soc_def publish_def record_event_def Let_def split_beta split: option.split)

definition data_lost :: "time \<Rightarrow> control \<Rightarrow> snapshot \<Rightarrow> bool" where
  "data_lost now cfg s \<longleftrightarrow> \<not> sn_broker_connected s \<or> (m_seen (sn_online s) \<and> \<not> m_value (sn_online s)) \<or>
     (\<exists>m \<in> {sn_grid s, sn_pv s}. \<not> m_seen m \<or> cfg_stale_timeout cfg < now - m_at m)"

lemma data_lost_stale:
  "data_lost now cfg s \<Longrightarrow> cfg_stale_timeout cfg < int64_max \<Longrightarrow> in_stale (inputs_from_snapshot oor now s cfg cs)"
  using not_fresh_old[of cfg now] by (auto simp: data_lost_def inputs_stale fresh_def)

lemma effects_assert_mode:
  fixes paho :: paho and ri :: "'r recorder" and now :: time and snap :: snapshot and v :: tick_view
    and p :: tick_plan and c :: "(client, 'r) controller"
  assumes "evcc.wire_ok c" "known_mode (dec_mode (pl_decision p))"
  defines "c' \<equiv> tick_effects (evcc_commander paho) ri now snap v p c"
  shows "(modes (acked_commands (c_cmd c')) \<noteq> [] \<and>
      last (modes (acked_commands (c_cmd c'))) = dec_mode (pl_decision p)) \<or>
    (\<exists>w \<in> set (drop (length (cl_wire (c_cmd c))) (cl_wire (c_cmd c'))).
      w_topic w = tp_mode_set (cl_topics (c_cmd c)) \<and> w_payload w = dec_mode (pl_decision p) \<and> w_outcome w \<noteq> PubAcked)"
proof -
  define c1 where "c1 = effects_start ri now snap v p c"
  define c2 where "c2 = publish_mode (evcc_commander paho) ri now (pl_decision p) (pl_inputs p) (pl_surplus p) (tick_force snap c) c1"
  define c3 where "c3 = publish_limit_soc (evcc_commander paho) ri now (pl_limit_target p) (pl_inputs p) (pl_surplus p)
    (sn_broker_connected snap) (tick_force snap c) c2"
  have cmd: "c_cmd c1 = c_cmd c" "c_cmd c' = c_cmd c3" "c_last_mode c1 = c_last_mode c"
    by (simp_all add: c1_def c2_def c3_def c'_def tick_effects_split frame)
  have r: "client_ready (c_cmd c1)" and nonempty: "dec_mode (pl_decision p) \<noteq> ''''"
    using assms(1,2) by (auto simp: cmd evcc.wire_ok_def known_mode_def ModeOff_def EnableModePV_def EnableModeNow_def)
  have acked: "modes (acked_commands (c_cmd c3)) = modes (acked_commands (c_cmd c2))" if "client_ready (c_cmd c2)"
    using that unfolding c3_def
    by (cases rule: evcc.publish_limit_cases[where t = "pl_limit_target p" and ri = ri and now = now and inp = "pl_inputs p"
        and s = "pl_surplus p" and f = "tick_force snap c" and b = "sn_broker_connected snap" and paho = paho]) auto
  from r show ?thesis
  proof (cases rule: evcc.publish_mode_cases[where d = "pl_decision p" and ri = ri and now = now and inp = "pl_inputs p"
        and s = "pl_surplus p" and f = "tick_force snap c" and paho = paho, folded c2_def])
    case quiet
    then have e: "c2 = c1" by (simp only: c2_def)
    from quiet(2) assms(1) nonempty have "modes (acked_commands (c_cmd c)) \<noteq> []"
      "last (modes (acked_commands (c_cmd c))) = dec_mode (pl_decision p)"
      by (auto simp: evcc.wire_ok_def wire_synced_def cmd split: if_splits)
    with acked r show ?thesis by (simp add: cmd e)
  next
    case (failed cmd' e)
    then obtain w where w: "cl_wire (c_cmd c2) = cl_wire (c_cmd c) @ [w]" "w_topic w = tp_mode_set (cl_topics (c_cmd c))"
        "w_payload w = dec_mode (pl_decision p)" "w_outcome w \<noteq> PubAcked"
      using set_mode_failed_wire[of paho "dec_mode (pl_decision p)" "c_cmd c1" cmd' e] failed(1,2) unfolding cmd(1) c2_def
      by auto
    obtain ws where "cl_wire (c_cmd c3) = cl_wire (c_cmd c2) @ ws"
      using publish_limit_wire unfolding c3_def by blast
    with w(1) have "w \<in> set (drop (length (cl_wire (c_cmd c))) (cl_wire (c_cmd c')))" by (simp add: cmd(2))
    with w(2-4) show ?thesis by blast
  next
    case (sent cmd')
    then have "c_cmd c2 = cmd'" by (simp only: c2_def)
    with sent acked show ?thesis by (simp add: cmd)
  qed
qed

text \<open>The conditions under which a tick may not command charging.\<close>

definition must_be_off :: "time \<Rightarrow> control \<Rightarrow> snapshot \<Rightarrow> inputs \<Rightarrow> bool" where
  "must_be_off now cfg snap inp \<longleftrightarrow> data_lost now cfg snap \<or> forced_off now inp \<or>
     \<not> forced_on now inp \<and> (\<not> m_value (sn_connected snap) \<or> soc_target inp cfg \<le> in_vehicle_soc inp)"

lemma must_be_off_decides:
  assumes "cfg_stale_timeout cfg < int64_max" "inp = inputs_from_snapshot oor now snap cfg cs" "must_be_off now cfg snap inp"
  shows "dec_mode (decide now inp st tm cfg) = ModeOff"
proof (cases rule: decide_cases[where inp = inp and now = now])
  case stale
  then show ?thesis by (simp add: decide_stale)
next
  case off
  then show ?thesis by (simp add: decide_forced_off)
next
  case on
  with assms data_lost_stale[OF _ assms(1)] forced_exclusive show ?thesis by (auto simp: must_be_off_def)
next
  case auto
  moreover have "\<not> in_connected inp \<or> soc_target inp cfg \<le> in_vehicle_soc inp"
    using auto assms data_lost_stale[OF _ assms(1)] by (auto simp: must_be_off_def)
  ultimately show ?thesis by (auto simp: decide_automatic decide_auto_def Let_def)
qed

text \<open>C7. Every tick ends with its decided mode as the last acknowledged one, unless the broker
  failed to acknowledge an attempt to publish exactly that mode in that tick; and that mode is
  \<open>off\<close> when the data the tick saw was lost (no broker, evcc offline, grid or PV reading missing
  or too old), when the operator forces off, and, unless the operator forces on, when no car is
  connected or its state of charge has reached the target.\<close>

theorem tick_asserts_mode:
  assumes "control_ok cfg" and "cfg_stale_timeout cfg < int64_max"
    and "reachable e (boot drv cfg mq lp now0 d) s" and "sy_tick s = Some (Committed now snap v p)"
  shows "\<exists>s'. sys_step e s s' \<and> sy_tick s' = None \<and>
    (modes (acked_commands (c_cmd (sy_ctrl s'))) \<noteq> [] \<and>
       last (modes (acked_commands (c_cmd (sy_ctrl s')))) = dec_mode (pl_decision p) \<or>
     (\<exists>w \<in> set (drop (length (cl_wire (c_cmd (sy_ctrl s)))) (cl_wire (c_cmd (sy_ctrl s')))).
       w_topic w = tp_mode_set (cl_topics (c_cmd (sy_ctrl s))) \<and> w_payload w = dec_mode (pl_decision p) \<and>
       w_outcome w \<noteq> PubAcked)) \<and>
    (must_be_off now cfg snap (pl_inputs p) \<longrightarrow> dec_mode (pl_decision p) = ModeOff)"
proof -
  have inv: "wire_inv cfg s" by (rule wire_inv_reachable[OF assms(1,3)])
  then have k: "evcc.wire_ok (sy_ctrl s)" "known_mode (dec_mode (pl_decision p))"
    using assms(4) by (auto simp: wire_inv_def plan_ok_def)
  have "p = tick_decide (en_oor e) now snap cfg v"
    using tick_from_view_reachable[OF assms(3)] assms(4) inv by (simp add: wire_inv_def)
  then have "must_be_off now cfg snap (pl_inputs p) \<longrightarrow> dec_mode (pl_decision p) = ModeOff"
    using must_be_off_decides[OF assms(2)] by (simp add: tick_decide_def Let_def)
  with st_effects[OF assms(4), of e] effects_assert_mode[OF k]
  show ?thesis by (intro exI[of _ "s\<lparr>sy_ctrl := tick_effects (evcc_commander (en_paho e))
      (store_recorder (en_driver e)) now snap v p (sy_ctrl s), sy_tick := None\<rparr>"]) simp
qed

section \<open>The limit reaches the broker\<close>

lemma set_limit_failed_wire:
  assumes "set_limit_soc paho n c = (c', Some err)"
  obtains w where "cl_wire c' = cl_wire c @ [w]" "w_topic w = tp_limit_soc_set (cl_topics c)" "w_payload w = itoa n"
    "w_outcome w \<noteq> PubAcked"
  using assms by (auto simp: set_limit_soc_def publish_def Let_def split: pub_outcome.splits)

lemma publish_mode_wire:
  "\<exists>ws. cl_wire (c_cmd (publish_mode (evcc_commander paho) ri now d inp s f c)) = cl_wire (c_cmd c) @ ws \<and>
    cl_topics (c_cmd (publish_mode (evcc_commander paho) ri now d inp s f c)) = cl_topics (c_cmd c)"
  by (auto simp: publish_mode_def set_mode_def publish_def record_event_def Let_def split_beta split: option.split)

text \<open>The limit after its part of the tick.\<close>

lemma publish_limit_asserts:
  fixes paho :: paho and ri :: "'r recorder" and now :: time and t :: int and inp :: inputs and s :: f64 and f :: bool
    and c :: "(client, 'r) controller"
  assumes "evcc.wire_ok c" "1 \<le> t" "t \<le> 100"
  defines "c' \<equiv> publish_limit_soc (evcc_commander paho) ri now t inp s True f c"
  shows "(limits (acked_commands (c_cmd c')) \<noteq> [] \<and> last (limits (acked_commands (c_cmd c'))) = itoa t) \<or>
    (\<exists>w. cl_wire (c_cmd c') = cl_wire (c_cmd c) @ [w] \<and> w_topic w = tp_limit_soc_set (cl_topics (c_cmd c)) \<and>
       w_payload w = itoa t \<and> w_outcome w \<noteq> PubAcked)"
proof -
  have r: "client_ready (c_cmd c)" using assms(1) by (simp add: evcc.wire_ok_def)
  then show ?thesis
  proof (cases rule: evcc.publish_limit_cases[where t = t and ri = ri and now = now and inp = inp and s = s and f = f
        and b = True and paho = paho, folded c'_def])
    case quiet
    then have "c' = c" by (simp only: c'_def)
    with quiet(2) assms(1) show ?thesis by (auto simp: evcc.wire_ok_def wire_synced_def)
  next
    case (failed cmd e)
    then obtain w where "cl_wire cmd = cl_wire (c_cmd c) @ [w]" "w_topic w = tp_limit_soc_set (cl_topics (c_cmd c))"
      "w_payload w = itoa t" "w_outcome w \<noteq> PubAcked"
      using set_limit_failed_wire[of paho t "c_cmd c" cmd e] by auto
    moreover have "c_cmd c' = cmd" using failed(2) by (simp add: c'_def)
    ultimately show ?thesis by auto
  next
    case (sent cmd)
    have "c_cmd c' = cmd" using sent(3) by (simp only: c'_def)
    with sent show ?thesis by simp
  qed
qed

text \<open>C8. The dead-man backstop: a tick that saw the broker connected ends with its SoC limit as the last
  acknowledged one, unless the broker failed to acknowledge an attempt to publish exactly that
  limit in that tick. The limit is a percentage, and under the default profile it is \<open>SoCCap\<close> except
  while a forced-on charge may pass the cap.\<close>

theorem tick_asserts_limit:
  assumes "control_ok cfg" and "reachable e (boot drv cfg mq lp now0 d) s"
    and "sy_tick s = Some (Committed now snap v p)" and "sn_broker_connected snap"
  shows "\<exists>s'. sys_step e s s' \<and> sy_tick s' = None \<and>
    (limits (acked_commands (c_cmd (sy_ctrl s'))) \<noteq> [] \<and>
       last (limits (acked_commands (c_cmd (sy_ctrl s')))) = itoa (pl_limit_target p) \<or>
     (\<exists>w \<in> set (drop (length (cl_wire (c_cmd (sy_ctrl s)))) (cl_wire (c_cmd (sy_ctrl s')))).
       w_topic w = tp_limit_soc_set (cl_topics (c_cmd (sy_ctrl s))) \<and> w_payload w = itoa (pl_limit_target p) \<and>
       w_outcome w \<noteq> PubAcked)) \<and>
    1 \<le> pl_limit_target p \<and> pl_limit_target p \<le> 100 \<and>
    (effective_profile (pl_inputs p) cfg = AutoProfileSurplus \<and> \<not> (forced_on now (pl_inputs p) \<and> in_cap_bypass (pl_inputs p)) \<longrightarrow>
       pl_limit_target p = cfg_soc_cap cfg)"
proof -
  let ?c = "sy_ctrl s"
  define s' where "s' = s\<lparr>sy_ctrl := tick_effects (evcc_commander (en_paho e)) (store_recorder (en_driver e)) now snap v p ?c,
    sy_tick := None\<rparr>"
  define c2 where "c2 = publish_mode (evcc_commander (en_paho e)) (store_recorder (en_driver e)) now (pl_decision p)
    (pl_inputs p) (pl_surplus p) (tick_force snap ?c) (effects_start (store_recorder (en_driver e)) now snap v p ?c)"
  have inv: "wire_inv cfg s" by (rule wire_inv_reachable[OF assms(1,2)])
  then have k: "evcc.wire_ok ?c" "plan_ok p" using assms(3) by (auto simp: wire_inv_def)
  have "evcc.wire_ok (effects_start (store_recorder (en_driver e)) now snap v p ?c)"
    by (rule evcc.wire_ok_same[OF k(1)]) (simp_all add: frame)
  then have ok: "evcc.wire_ok c2"
    unfolding c2_def using k(2) by (simp add: evcc.wire_ok_publish_mode plan_ok_def)
  obtain ws where ws: "cl_wire (c_cmd c2) = cl_wire (c_cmd ?c) @ ws" "cl_topics (c_cmd c2) = cl_topics (c_cmd ?c)"
    using publish_mode_wire[of "en_paho e" _ now "pl_decision p" "pl_inputs p" "pl_surplus p" _
        "effects_start (store_recorder (en_driver e)) now snap v p ?c"] unfolding c2_def by (auto simp: frame)
  have last: "c_cmd (sy_ctrl s') = c_cmd (publish_limit_soc (evcc_commander (en_paho e)) (store_recorder (en_driver e)) now
      (pl_limit_target p) (pl_inputs p) (pl_surplus p) True (tick_force snap ?c) c2)"
    using assms(4) by (simp add: s'_def tick_effects_split c2_def frame)
  have "p = tick_decide (en_oor e) now snap cfg v"
    using tick_from_view_reachable[OF assms(2)] assms(3) inv by (simp add: wire_inv_def)
  then have "pl_limit_target p = limit_soc_target now (pl_inputs p) cfg" by (simp add: tick_decide_def Let_def)
  then have target: "effective_profile (pl_inputs p) cfg = AutoProfileSurplus \<Longrightarrow>
      \<not> (forced_on now (pl_inputs p) \<and> in_cap_bypass (pl_inputs p)) \<Longrightarrow> pl_limit_target p = cfg_soc_cap cfg"
    by (auto simp: limit_soc_target_def forced_on_def)
  have step: "sys_step e s s'" "sy_tick s' = None" by (simp_all add: s'_def st_effects[OF assms(3)])
  have bounds: "1 \<le> pl_limit_target p" "pl_limit_target p \<le> 100" using k(2) by (simp_all add: plan_ok_def)
  from publish_limit_asserts[OF ok bounds, of "en_paho e" "store_recorder (en_driver e)" now "pl_inputs p" "pl_surplus p" "tick_force snap ?c",
      folded last, unfolded ws] step target bounds
  show ?thesis by (intro exI[of _ s']) auto
qed

text \<open>A forced republish is not retried: when publishing the unchanged mode after a reconnect fails,
  the edge is used up and, until the republish interval is over, later ticks with that mode
  publish nothing.\<close>

theorem forced_publish_lost:
  assumes "set_mode paho (dec_mode dec) (c_cmd c) = (cmd, Some err)"
    and "dec_mode dec = c_last_mode c" and "dec_mode dec' = c_last_mode c"
    and "time_sub now' (c_last_publish_at c) < cfg_republish (c_cfg c)"
  shows "publish_mode (evcc_commander paho) ri now' dec' inp' surplus' False
      (publish_mode (evcc_commander paho) ri now dec inp surplus True c) = c\<lparr>c_cmd := cmd\<rparr> \<and>
    \<not> tick_force snap (effects_start ri now snap v p c)"
  using assms
  by (simp add: publish_mode_def tick_force_def effects_start_def record_event_def Let_def)

lemma tick_in_steps:
  assumes "sy_tick s = None"
  shows "\<exists>s1 s2. sys_step e s s1 \<and> sys_step e s1 s2 \<and>
    sys_step e s2 (s\<lparr>sy_ctrl := tick (en_oor e) (evcc_commander (en_paho e)) (store_recorder (en_driver e)) now
      (snapshot_of (cl_store (c_cmd (sy_ctrl s)))) (sy_ctrl s)\<rparr>)"
proof -
  let ?snap = "snapshot_of (cl_store (c_cmd (sy_ctrl s)))" and ?v = "tick_read (sy_ctrl s)"
  let ?p = "tick_decide (en_oor e) now ?snap (c_cfg (sy_ctrl s)) ?v"
  define s1 where "s1 = s\<lparr>sy_tick := Some (Planned now ?snap ?v ?p)\<rparr>"
  define s2 where "s2 = s1\<lparr>sy_ctrl := tick_commit now ?snap ?v ?p (sy_ctrl s1), sy_tick := Some (Committed now ?snap ?v ?p)\<rparr>"
  have 1: "sys_step e s s1" unfolding s1_def by (rule st_begin[OF assms refl refl])
  have 2: "sys_step e s1 s2" unfolding s2_def by (rule st_commit) (simp add: s1_def)
  have "sy_tick s2 = Some (Committed now ?snap ?v ?p)" by (simp add: s2_def)
  moreover have "s2\<lparr>sy_ctrl := c, sy_tick := None\<rparr> = s\<lparr>sy_ctrl := c\<rparr>" for c
    using assms by (cases s) (simp add: s2_def s1_def)
  ultimately have "sys_step e s2 (s\<lparr>sy_ctrl := tick (en_oor e) (evcc_commander (en_paho e))
      (store_recorder (en_driver e)) now ?snap (sy_ctrl s)\<rparr>)"
    using st_effects[of s2 now ?snap ?v ?p e] by (simp add: tick_def Let_def) (simp add: s2_def s1_def)
  with 1 2 show ?thesis by blast
qed

text \<open>A tick that nothing interleaves with is its three steps in a row.\<close>

theorem tick_is_its_steps:
  assumes "sy_tick s = None"
  shows "\<exists>s1 s2. sys_step e s s1 \<and> sys_step e s1 s2 \<and>
    sys_step e s2 (s\<lparr>sy_ctrl := tick (en_oor e) (evcc_commander (en_paho e)) (store_recorder (en_driver e)) now
      (snapshot_of (cl_store (c_cmd (sy_ctrl s)))) (sy_ctrl s)\<rparr>)"
  using assms by (rule tick_in_steps)

end
