(* ===== verification/SystemProps.thy ===== *)
theory SystemProps
  imports SystemSessions SystemTicks
begin

text \<open>
  Commands and operator settings in every reachable state, and the witnesses for the properties of
  the running program.
\<close>

section \<open>Commands\<close>

text \<open>C2. Whatever the broker, the store, the readings and the operator do, only the modes
  \<open>off\<close>, \<open>pv\<close>, \<open>now\<close> and limits of 1 to 100 percent are ever acknowledged, and the
  controller's memory of what it last published is the last mode and the last limit that
  were acknowledged.\<close>

theorem acked_commands_safe:
  assumes "control_ok cfg" and "reachable e (boot drv cfg mq lp now d) s"
  shows "wire_safe (acked_commands (c_cmd (sy_ctrl s))) \<and>
    wire_synced (acked_commands (c_cmd (sy_ctrl s))) (sy_ctrl s)"
  using wire_inv_reachable[OF assms] by (simp add: wire_inv_def evcc.wire_ok_def)

lemma target_soc_cases:
  assumes "target_soc_ok t"
  shows "t \<in> {50, 60, 70, 80, 90, 100}"
proof -
  obtain k where k: "t = 10 * k" using assms by (auto simp: target_soc_ok_def)
  with assms have "5 \<le> k" "k \<le> 10" by (simp_all add: target_soc_ok_def)
  then have "k \<in> {5, 6, 7, 8, 9, 10}" by auto
  with k show ?thesis by auto
qed

text \<open>C13. The operator's settings keep their type in every reachable state: the charge power is one of
  the two evcc modes, the profile one of the three, every threshold a positive multiple of
  100 W above the stop threshold, every target a multiple of ten from 50 to 100.\<close>

theorem settings_typed:
  assumes "control_ok cfg" and "reachable e (boot drv cfg mq lp now d) s"
  shows "cs_charge_power (c_ctrl (sy_ctrl s)) \<in> {EnableModePV, EnableModeNow} \<and>
    cs_auto_profile (c_ctrl (sy_ctrl s)) \<in> {AutoProfileSurplus, AutoProfilePowerLatch, AutoProfileSurplusLatch} \<and>
    (\<forall>w \<in> ran (cs_start_threshold (c_ctrl (sy_ctrl s))).
       \<exists>n. w = whole n \<and> 0 < n \<and> n mod 100 = 0 \<and> \<not> w \<le> cfg_stop_threshold cfg) \<and>
    ran (cs_target_soc (c_ctrl (sy_ctrl s))) \<subseteq> {50, 60, 70, 80, 90, 100}"
proof -
  have wf: "settings_wf cfg (c_ctrl (sy_ctrl s))" using wire_inv_reachable[OF assms] by (simp add: wire_inv_def)
  show ?thesis
  proof (intro conjI ballI subsetI)
    fix w assume "w \<in> ran (cs_start_threshold (c_ctrl (sy_ctrl s)))"
    with wf have w: "threshold_step_ok w" "\<not> w \<le> cfg_stop_threshold cfg" by (auto simp: settings_wf_def ran_def)
    obtain n where "w = whole n" "0 < n" "n mod 100 = 0" using threshold_step_whole[OF w(1)] .
    then show "\<exists>n. w = whole n \<and> 0 < n \<and> n mod 100 = 0 \<and> \<not> w \<le> cfg_stop_threshold cfg"
      by (intro exI[of _ n] conjI w(2))
  next
    fix t assume "t \<in> ran (cs_target_soc (c_ctrl (sy_ctrl s)))"
    with wf show "t \<in> {50, 60, 70, 80, 90, 100}" by (intro target_soc_cases) (auto simp: settings_wf_def ran_def)
  qed (use wf in \<open>simp_all add: settings_wf_def valid_charge_power_def valid_auto_profile_def\<close>)
qed

section \<open>The operator's settings survive a restart\<close>

lemma synced_step:
  assumes "sys_step e s s'" "store_settings.synced (sy_ctrl s)"
  shows "store_settings.synced (sy_ctrl s')"
  using assms(1)
proof cases
  case (st_commit now snap v p)
  with assms(2) show ?thesis by (simp add: store_settings.synced_tick_commit)
qed (use assms(2) in \<open>simp_all add: store_settings.synced_set_override store_settings.synced_set_charge_power
    store_settings.synced_set_auto_profile store_settings.synced_set_start_threshold store_settings.synced_set_target_soc
    store_settings.synced_tick_effects store_settings.synced_prune, simp_all add: store_settings.synced_def\<close>)

lemma reads_all_ok: "all_ok drv \<Longrightarrow> store_settings.reads_succeed drv"
  by (simp add: store_settings.reads_succeed_def get_setting_def all_ok_def outcome_def db_setting_def)

definition operator_settings :: "control_state \<Rightarrow> string \<times> string \<times> (string \<rightharpoonup> f64) \<times> (string \<rightharpoonup> int)" where
  "operator_settings cs = (cs_charge_power cs, cs_auto_profile cs, cs_start_threshold cs, cs_target_soc cs)"

text \<open>With setting requests and the startup one at a time (\<open>charge_power_race\<close> shows what two at once can
  do), charge power, profile, start thresholds and targets survive a crash at any point, even
  if statements of the database failed during the run: starting again on the database as it was
  left restores exactly what the operator had last set successfully.\<close>

theorem settings_survive_restart:
  assumes "all_ok drv" and "reachable e (boot drv cfg mq lp now d) s" and "all_ok drv'"
  shows "operator_settings (c_ctrl (sy_ctrl (boot drv' cfg mq' lp' now' (c_rec (sy_ctrl s))))) =
    operator_settings (c_ctrl (sy_ctrl s))"
proof -
  have "store_settings.synced (sy_ctrl s) \<and> c_cfg (sy_ctrl s) = cfg" using assms(2)
  proof (rule reachable_induct)
    show "store_settings.synced (sy_ctrl (boot drv cfg mq lp now d)) \<and> c_cfg (sy_ctrl (boot drv cfg mq lp now d)) = cfg"
      using store_settings.synced_startup[OF reads_all_ok[OF assms(1)], of now cfg "new_client mq lp" d] by (simp add: boot_def)
    fix a b assume s: "sys_step e a b" and a: "store_settings.synced (sy_ctrl a) \<and> c_cfg (sy_ctrl a) = cfg"
    from s have "c_cfg (sy_ctrl b) = c_cfg (sy_ctrl a)"
      by cases (simp_all add: frame same_loop_web[THEN same_loop_cfg])
    with a s synced_step show "store_settings.synced (sy_ctrl b) \<and> c_cfg (sy_ctrl b) = cfg" by simp
  qed
  then have s: "settings_match cfg (db_setting (c_rec (sy_ctrl s))) (c_ctrl (sy_ctrl s))"
    by (auto simp: store_settings.synced_def)
  have "settings_match cfg (db_setting (c_rec (sy_ctrl s))) (c_ctrl (sy_ctrl (boot drv' cfg mq' lp' now' (c_rec (sy_ctrl s)))))"
    using store_settings.synced_startup[OF reads_all_ok[OF assms(3)], of now' cfg "new_client mq' lp'" "c_rec (sy_ctrl s)"]
    by (simp add: boot_def store_settings.synced_def)
  from settings_match_unique[OF s this] show ?thesis by (simp add: operator_settings_def)
qed

section \<open>Concurrent changes of one setting\<close>

text \<open>\<open>SetChargePower\<close> in its two halves, the database write and the update of the memory under the
  lock: the lock does not cover both.\<close>

definition persist_charge_power :: "'r recorder \<Rightarrow> string \<Rightarrow> ('c, 'r) controller \<Rightarrow> ('c, 'r) controller \<times> status" where
  "persist_charge_power ri mode c =
     (case rec_set_setting ri charge_power_setting mode (c_rec c) of (r, st) \<Rightarrow> (c\<lparr>c_rec := r\<rparr>, st))"

definition install_charge_power :: "string \<Rightarrow> ('c, 'r) controller \<Rightarrow> ('c, 'r) controller" where
  "install_charge_power mode c = c\<lparr>c_ctrl := (c_ctrl c)\<lparr>cs_charge_power := mode\<rparr>\<rparr>"

lemma set_charge_power_parts:
  "set_charge_power ri now mode c =
    (if \<not> valid_charge_power mode then (c, Some (Wrapped mode ErrInvalidChargePower))
     else case persist_charge_power ri mode c of
       (c, Some err) \<Rightarrow> (c, Some (Wrapped ''persist charge power'' err))
     | (c, None) \<Rightarrow> (audit ri now ''command'' (''charge_power:'' @ mode) (install_charge_power mode c), None))"
  by (simp add: set_charge_power_def persist_charge_power_def install_charge_power_def audit_def
      split: prod.split option.split)

definition pv_and_now_interleaved :: "'r recorder \<Rightarrow> ('c, 'r) controller \<Rightarrow> ('c, 'r) controller" where
  "pv_and_now_interleaved ri c =
     (let c = fst (persist_charge_power ri EnableModePV c);
          c = fst (persist_charge_power ri EnableModeNow c);
          c = install_charge_power EnableModeNow c
      in install_charge_power EnableModePV c)"

text \<open>Two concurrent requests can leave memory and database apart: when the halves of setting \<open>pv\<close>
  and setting \<open>now\<close> interleave, the controller runs with \<open>pv\<close> while a restart loads \<open>now\<close>.\<close>

theorem charge_power_race:
  "cs_charge_power (c_ctrl (pv_and_now_interleaved (store_recorder (good_driver rd wall)) c)) = EnableModePV \<and>
   cs_charge_power (c_ctrl (sy_ctrl (boot (good_driver rd wall) cfg mq lp now
     (c_rec (pv_and_now_interleaved (store_recorder (good_driver rd wall)) c))))) = EnableModeNow"
proof -
  define c' where "c' = pv_and_now_interleaved (store_recorder (good_driver rd wall)) c"
  have ok: "all_ok (good_driver rd wall)" by (simp add: all_ok_def good_driver_def)
  have "db_setting (c_rec c') charge_power_setting = Some EnableModeNow"
    by (simp add: c'_def pv_and_now_interleaved_def persist_charge_power_def install_charge_power_def set_setting_def
        db_setting_def split_beta Let_def)
  then have "cs_charge_power (c_ctrl (sy_ctrl (boot (good_driver rd wall) cfg mq lp now (c_rec c')))) = EnableModeNow"
    using store_settings.synced_startup[OF reads_all_ok[OF ok], of now cfg "new_client mq lp" "c_rec c'"]
    by (simp add: boot_def store_settings.synced_def settings_match_def stored_charge_power_def valid_charge_power_def)
  moreover have "cs_charge_power (c_ctrl c') = EnableModePV"
    by (simp add: c'_def pv_and_now_interleaved_def install_charge_power_def Let_def)
  ultimately show ?thesis unfolding c'_def by blast
qed

section \<open>Witnesses\<close>

lemma reachable_refl: "reachable e s s"
  by (simp add: reachable_def)

lemma reachable_step: "reachable e s s' \<Longrightarrow> sys_step e s' s'' \<Longrightarrow> reachable e s s''"
  by (simp add: reachable_def)

lemma reachable_tick:
  assumes "reachable e s0 s" "sy_tick s = None"
  shows "reachable e s0 (s\<lparr>sy_ctrl := tick (en_oor e) (evcc_commander (en_paho e)) (store_recorder (en_driver e)) now
      (snapshot_of (cl_store (c_cmd (sy_ctrl s)))) (sy_ctrl s)\<rparr>)"
  using tick_in_steps[OF assms(2), of e now] reachable_step[OF assms(1)] reachable_step by blast

definition demo_driver :: driver where "demo_driver = good_driver id (\<lambda>_. 0)"

definition demo_env :: environment where
  "demo_env = \<lparr>en_oor = (\<lambda>_. 0), en_paho = acking, en_driver = demo_driver\<rparr>"

definition demo_boot :: "db \<Rightarrow> system" where
  "demo_boot d = boot demo_driver demo_control (c_mqtt default_config) ''1'' 10 d"

text \<open>After the first tick, and after the operator has chosen full power.\<close>

definition demo_ticked :: "db \<Rightarrow> system" where
  "demo_ticked d = (demo_boot d)\<lparr>sy_ctrl := tick (en_oor demo_env) (evcc_commander (en_paho demo_env))
     (store_recorder (en_driver demo_env)) 20 (snapshot_of (cl_store (c_cmd (sy_ctrl (demo_boot d))))) (sy_ctrl (demo_boot d))\<rparr>"

definition demo_chosen :: system where
  "demo_chosen = on_ctrl (\<lambda>c. fst (set_charge_power (store_recorder (en_driver demo_env)) 30 EnableModeNow c)) (demo_ticked empty_db)"

lemma demo_boot_tick: "sy_tick (demo_boot d) = None"
  by (simp add: demo_boot_def boot_def)

lemma demo_ticked_reachable: "reachable demo_env (demo_boot d) (demo_ticked d)"
  unfolding demo_ticked_def by (rule reachable_tick[OF reachable_refl demo_boot_tick])

lemma demo_chosen_reachable: "reachable demo_env (demo_boot empty_db) demo_chosen"
  unfolding demo_chosen_def by (rule reachable_step[OF demo_ticked_reachable st_charge_power])

lemma demo_all_ok: "all_ok demo_driver"
  by (simp add: all_ok_def demo_driver_def good_driver_def)

theorem acked_commands_safe_witness: "wire_safe (acked_commands (c_cmd (sy_ctrl demo_chosen)))"
  using acked_commands_safe[OF demo_control_ok, of demo_env demo_driver "c_mqtt default_config" "''1''" 10 empty_db demo_chosen]
    demo_chosen_reachable by (simp add: demo_boot_def)

theorem settings_typed_witness: "ran (cs_target_soc (c_ctrl (sy_ctrl demo_chosen))) \<subseteq> {50, 60, 70, 80, 90, 100}"
  using settings_typed[OF demo_control_ok, of demo_env demo_driver "c_mqtt default_config" "''1''" 10 empty_db demo_chosen]
    demo_chosen_reachable by (simp add: demo_boot_def)

theorem charge_session_tracked_witness: "sessions_ok (c_rec (sy_ctrl demo_chosen))"
  using charge_session_tracked[OF sessions_ok_empty, of demo_env demo_driver demo_control "c_mqtt default_config" "''1''" 10 demo_chosen]
    demo_chosen_reachable by (simp add: demo_boot_def)

text \<open>A database on which a previous run left one session open.\<close>

definition demo_db :: db where
  "demo_db = fst (start_session demo_driver 63891234567000000089 ''surplus'' (Some 40) empty_db)"

lemma demo_db_facts:
  "sessions_ok demo_db" "open_session_ids demo_db = {1}" "readable demo_driver demo_db"
proof -
  have o: "outcome demo_driver d = SqlOk" for d by (simp add: demo_driver_def)
  show "sessions_ok demo_db" unfolding demo_db_def by (rule sessions_ok_start) simp
  show "open_session_ids demo_db = {1}"
    by (simp add: demo_db_def open_ids_start o) (simp add: empty_db_def open_session_ids_def)
  have "parse_time (format_time 63891234567000000089) = Some 63891234567000000089"
    by (rule time_text_parse) (simp add: time_in_range_def days_before_year_def)
  then show "readable demo_driver demo_db"
    by (simp add: readable_def demo_db_def start_session_def o empty_db_def scan_session_def scan_time_def)
      (simp add: demo_driver_def good_driver_def)
qed

theorem closed_sessions_immutable_witness:
  "closed_rows (c_rec (sy_ctrl (demo_ticked demo_db))) \<subseteq> closed_rows (c_rec (sy_ctrl
     (on_ctrl (\<lambda>c. fst (set_charge_power (store_recorder (en_driver demo_env)) 30 EnableModeNow c)) (demo_ticked demo_db))))"
  by (rule closed_sessions_immutable[OF demo_db_facts(1) demo_ticked_reachable[unfolded demo_boot_def] st_charge_power])

theorem single_open_session_witness:
  "open_session_ids (c_rec (sy_ctrl (demo_ticked demo_db))) =
    (if c_prev_charging (sy_ctrl (demo_ticked demo_db)) then {c_session_id (sy_ctrl (demo_ticked demo_db))} else {})"
  by (rule single_open_session[of demo_db 1 id "\<lambda>_. 0" demo_env demo_control "c_mqtt default_config" "''1''" 10])
    (use demo_db_facts demo_ticked_reachable[of demo_db] in \<open>simp_all add: demo_env_def demo_driver_def demo_boot_def\<close>)

theorem recovery_closes_one_witness: "open_session_ids (c_rec (sy_ctrl (demo_boot demo_db))) = {}"
  using recovery_closes_one[of demo_db id "\<lambda>_. 0" demo_control "c_mqtt default_config" "''1''" 10] demo_db_facts
  by (auto simp: demo_boot_def demo_driver_def)

theorem settings_survive_restart_witness:
  "operator_settings (c_ctrl (sy_ctrl (boot demo_driver demo_control (c_mqtt default_config) ''1'' 40 (c_rec (sy_ctrl demo_chosen))))) =
    operator_settings (c_ctrl (sy_ctrl demo_chosen))"
  using settings_survive_restart[OF demo_all_ok _ demo_all_ok, of demo_env demo_control "c_mqtt default_config" "''1''" 10 empty_db demo_chosen]
    demo_chosen_reachable by (simp add: demo_boot_def)

text \<open>An operator's override with a deadline, the tick after the deadline, before and after its commit.\<close>

definition demo_forced :: system where
  "demo_forced = on_ctrl (set_override (store_recorder (en_driver demo_env)) 15 OverrideForceOn 18 True 90) (demo_boot empty_db)"

definition demo_planned :: system where
  "demo_planned = demo_forced\<lparr>sy_tick := Some (Planned 20 (snapshot_of (cl_store (c_cmd (sy_ctrl demo_forced))))
     (tick_read (sy_ctrl demo_forced)) (tick_decide (en_oor demo_env) 20 (snapshot_of (cl_store (c_cmd (sy_ctrl demo_forced))))
       (c_cfg (sy_ctrl demo_forced)) (tick_read (sy_ctrl demo_forced))))\<rparr>"

definition demo_committed :: system where
  "demo_committed = (case sy_tick demo_planned of Some (Planned now snap v p) \<Rightarrow>
     demo_planned\<lparr>sy_ctrl := tick_commit now snap v p (sy_ctrl demo_planned), sy_tick := Some (Committed now snap v p)\<rparr>
   | _ \<Rightarrow> demo_planned)"

lemma demo_planned_reachable: "reachable demo_env (demo_boot empty_db) demo_planned"
proof -
  have "reachable demo_env (demo_boot empty_db) demo_forced"
    unfolding demo_forced_def by (rule reachable_step[OF reachable_refl st_override])
  moreover have "sys_step demo_env demo_forced demo_planned"
    unfolding demo_planned_def by (rule st_begin) (simp_all add: demo_forced_def demo_boot_tick)
  ultimately show ?thesis by (rule reachable_step)
qed

lemma demo_commit_step: "sys_step demo_env demo_planned demo_committed"
proof -
  obtain now snap v p where t: "sy_tick demo_planned = Some (Planned now snap v p)" by (simp add: demo_planned_def)
  from st_commit[OF t, of demo_env] show ?thesis by (simp add: demo_committed_def t)
qed

lemma demo_committed_tick:
  obtains v p where "sy_tick demo_committed = Some (Committed 20 (snapshot_of (cl_store (c_cmd (sy_ctrl demo_forced)))) v p)"
  by (simp add: demo_committed_def demo_planned_def)

lemma demo_override:
  "override_of (c_ctrl (sy_ctrl demo_planned)) = (OverrideForceOn, 18, True, 90)"
  "override_of (c_ctrl (sy_ctrl demo_committed)) = (OverrideAuto, 0, False, 0)"
  by (simp_all add: demo_committed_def demo_planned_def demo_forced_def override_of_def set_override_def audit_def Let_def
      tick_commit_def tick_decide_expire tick_read_def)

theorem override_only_expires_witness:
  "(\<exists>now mode until bypass soc.
      sy_ctrl demo_committed = set_override (store_recorder (en_driver demo_env)) now mode until bypass soc (sy_ctrl demo_planned)) \<or>
    (\<exists>now. cs_override_until (c_ctrl (sy_ctrl demo_planned)) \<le> now \<and>
      override_of (c_ctrl (sy_ctrl demo_committed)) = (OverrideAuto, 0, False, 0))"
  using override_only_expires[OF demo_planned_reachable[unfolded demo_boot_def] demo_commit_step] by (auto simp: demo_override)

lemma demo_client: "c_cmd (sy_ctrl (demo_boot d)) = new_client (c_mqtt default_config) ''1''"
  by (simp add: demo_boot_def boot_same)

definition demo_new :: "(client, db) controller" where
  "demo_new = new_controller demo_control (new_client (c_mqtt default_config) ''1'') empty_db"

definition demo_plan :: tick_plan where
  "demo_plan = tick_decide (\<lambda>_. 0) 20 zero_snapshot demo_control (tick_read demo_new)"

theorem tick_commands_exact_witness:
  "acked_commands (c_cmd (tick_effects (evcc_commander acking) (store_recorder demo_driver) 20 zero_snapshot
     (tick_read demo_new) demo_plan demo_new)) = [ModeCmd ModeOff]"
proof -
  have off: "dec_mode (pl_decision demo_plan) = ModeOff"
    by (simp add: demo_plan_def tick_decide_def Let_def decide_stale inputs_stale zero_snapshot_def)
  have "mode_due 20 ModeOff False demo_new"
    by (simp add: mode_due_def demo_new_def new_controller_def ModeOff_def)
  then show ?thesis
    using tick_commands_exact[of demo_new "store_recorder demo_driver" 20 zero_snapshot "tick_read demo_new" demo_plan] off
    by (simp add: demo_new_def new_controller_def) (simp add: zero_snapshot_def zero_bool_def tick_force_def new_controller_def)
qed

lemma demo_lost: "data_lost 20 demo_control (snapshot_of (cl_store (c_cmd (sy_ctrl demo_forced))))"
  using demo_client[of empty_db]
  by (simp add: demo_forced_def set_override_def audit_def Let_def new_client_def snapshot_of_def new_store_def
      zero_snapshot_def data_lost_def)

theorem tick_asserts_mode_witness:
  "\<exists>s'. sys_step demo_env demo_committed s' \<and>
    (modes (acked_commands (c_cmd (sy_ctrl s'))) \<noteq> [] \<and> last (modes (acked_commands (c_cmd (sy_ctrl s')))) = ModeOff \<or>
     (\<exists>w \<in> set (cl_wire (c_cmd (sy_ctrl s'))). w_payload w = ModeOff \<and> w_outcome w \<noteq> PubAcked))"
proof -
  obtain v p where t: "sy_tick demo_committed = Some (Committed 20 (snapshot_of (cl_store (c_cmd (sy_ctrl demo_forced)))) v p)"
    by (rule demo_committed_tick)
  have r: "reachable demo_env (boot demo_driver demo_control (c_mqtt default_config) ''1'' 10 empty_db) demo_committed"
    using reachable_step[OF demo_planned_reachable demo_commit_step] by (simp add: demo_boot_def)
  have "cfg_stale_timeout demo_control < int64_max"
    by (simp add: demo_control_def default_config_def duration_defs int64_max_def)
  from tick_asserts_mode[OF demo_control_ok this r t] demo_lost show ?thesis unfolding must_be_off_def by (metis in_set_dropD)
qed

text \<open>The same with a connected broker.\<close>

definition demo_connected :: system where
  "demo_connected = on_client (on_connect True) (demo_boot empty_db)"

lemma committed_reachable:
  assumes "reachable e s0 s" "sy_tick s = None"
  obtains s' v p where "reachable e s0 s'"
    "sy_tick s' = Some (Committed now (snapshot_of (cl_store (c_cmd (sy_ctrl s)))) v p)"
proof -
  obtain v p where b: "sys_step e s (s\<lparr>sy_tick := Some (Planned now (snapshot_of (cl_store (c_cmd (sy_ctrl s)))) v p)\<rparr>)"
    using st_begin[OF assms(2) refl refl] by blast
  have "sys_step e (s\<lparr>sy_tick := Some (Planned now (snapshot_of (cl_store (c_cmd (sy_ctrl s)))) v p)\<rparr>)
      (s\<lparr>sy_ctrl := tick_commit now (snapshot_of (cl_store (c_cmd (sy_ctrl s)))) v p (sy_ctrl s),
         sy_tick := Some (Committed now (snapshot_of (cl_store (c_cmd (sy_ctrl s)))) v p)\<rparr>)"
    using st_commit[of "s\<lparr>sy_tick := Some (Planned now (snapshot_of (cl_store (c_cmd (sy_ctrl s)))) v p)\<rparr>" now
        "snapshot_of (cl_store (c_cmd (sy_ctrl s)))" v p e] by simp
  from reachable_step[OF reachable_step[OF assms(1) b] this] that show ?thesis by simp
qed

theorem tick_asserts_limit_witness:
  "\<exists>s s' now snap v p. sn_broker_connected snap \<and> sy_tick s = Some (Committed now snap v p) \<and> sys_step demo_env s s' \<and>
    (limits (acked_commands (c_cmd (sy_ctrl s'))) \<noteq> [] \<and>
       last (limits (acked_commands (c_cmd (sy_ctrl s')))) = itoa (pl_limit_target p) \<or>
     (\<exists>w \<in> set (cl_wire (c_cmd (sy_ctrl s'))). w_payload w = itoa (pl_limit_target p) \<and> w_outcome w \<noteq> PubAcked))"
proof -
  have r: "reachable demo_env (demo_boot empty_db) demo_connected"
    unfolding demo_connected_def by (rule reachable_step[OF reachable_refl st_connect])
  have "sy_tick demo_connected = None" by (simp add: demo_connected_def demo_boot_tick)
  from committed_reachable[OF r this] obtain s v p where s: "reachable demo_env (demo_boot empty_db) s"
    "sy_tick s = Some (Committed 20 (snapshot_of (cl_store (c_cmd (sy_ctrl demo_connected)))) v p)" by blast
  have "sn_broker_connected (snapshot_of (cl_store (c_cmd (sy_ctrl demo_connected))))"
    by (simp add: demo_connected_def on_connect_def client_set_connected_def snapshot_of_def set_broker_connected_def)
  from tick_asserts_limit[OF demo_control_ok s(1)[unfolded demo_boot_def] s(2) this] s(2) this
  show ?thesis by (metis in_set_dropD)
qed

definition demo_loop :: "(client, db) controller" where
  "demo_loop = (sy_ctrl (demo_boot empty_db))\<lparr>c_last_mode := ModeOff, c_last_publish_at := 10\<rparr>"

definition demo_off :: decision where "demo_off = new_decision StateFailSafe reset_timers ModeOff ReasonStaleOff"

theorem forced_publish_lost_witness:
  "publish_mode (evcc_commander (\<lambda>_ _ _. PubTimedOut)) (store_recorder demo_driver) 30 demo_off zero_inputs 0 False
     (publish_mode (evcc_commander (\<lambda>_ _ _. PubTimedOut)) (store_recorder demo_driver) 20 demo_off zero_inputs 0 True demo_loop) =
   demo_loop\<lparr>c_cmd := fst (set_mode (\<lambda>_ _ _. PubTimedOut) ModeOff (c_cmd demo_loop))\<rparr>"
proof -
  have f: "set_mode (\<lambda>_ _ _. PubTimedOut) ModeOff (c_cmd demo_loop) =
      (fst (set_mode (\<lambda>_ _ _. PubTimedOut) ModeOff (c_cmd demo_loop)),
       Some (Wrapped (''mqtt publish '' @ tp_mode_set (cl_topics (c_cmd demo_loop))) ErrTimeout))"
    by (simp add: set_mode_def publish_def Let_def)
  have "c_cfg demo_loop = demo_control"
    by (simp add: demo_loop_def demo_boot_def boot_same)
  then have "time_sub 30 (c_last_publish_at demo_loop) < cfg_republish (c_cfg demo_loop)"
    by (simp add: demo_loop_def demo_control_def default_config_def duration_defs time_sub_def clamp64_id in64_numeral)
  with forced_publish_lost[of "\<lambda>_ _ _. PubTimedOut" demo_off demo_loop] f show ?thesis
    by (auto simp: demo_off_def new_decision_def demo_loop_def)
qed

theorem tick_is_its_steps_witness: "\<exists>s1. sys_step demo_env (demo_boot empty_db) s1"
  using tick_is_its_steps[OF demo_boot_tick] by blast

end
