(* ===== verification/WebProps.thy ===== *)
theory WebProps
  imports WebHandlers SystemProps
begin

text \<open>
  What the HTTP layer promises: every request is a step of the system
  model, and the answers of the operations that write or that limit what is read.
\<close>

section \<open>The world around a request\<close>

text \<open>Only the driver's calls have been counted.\<close>

definition only_read :: "world \<Rightarrow> world \<Rightarrow> bool" where
  "only_read w w' \<longleftrightarrow> (\<exists>n. w' = w\<lparr>wd_ctrl := (wd_ctrl w)\<lparr>c_rec := (c_rec (wd_ctrl w))\<lparr>db_calls := n\<rparr>\<rparr>\<rparr>)"

lemma only_read_refl [simp]: "only_read w w"
  unfolding only_read_def by (rule exI[of _ "db_calls (c_rec (wd_ctrl w))"]) simp

lemma only_read_with_db:
  assumes "\<And>d. fst (f d) = called d"
  shows "only_read w (fst (with_db f w))"
  unfolding only_read_def
  by (rule exI[of _ "Suc (db_calls (c_rec (wd_ctrl w)))"]) (use assms in \<open>simp add: with_db_def split_beta called_def\<close>)

lemma read_calls [simp]:
  "fst (recent_sessions drv n d) = called d" "fst (recent_events drv n d) = called d"
  "fst (samples_between drv a b d) = called d"
  by (simp_all add: recent_sessions_def recent_events_def samples_between_def)

lemma with_db_cases:
  "fst (case with_db f w of (w', Inl err) \<Rightarrow> (w', g err) | (w', Inr x) \<Rightarrow> (w', h x)) = fst (with_db f w)"
  by (simp split: prod.split sum.split)

lemma fst_respond: "fst (respond h e q w) = fst (h e q w)"
  by (simp add: respond_def split: prod.split)

lemmas page_defs = handle_healthz_def handle_readyz_def handle_control_def handle_settings_def handle_api_status_def
  handle_setup_def handle_setup_root_cert_def handle_setup_mobileconfig_def serve_ca_def handle_service_worker_def
  handle_favicon_def render_status_def render_update_partial_def

lemma page_handlers:
  "fst (handle_healthz e q w) = w" "fst (handle_readyz e q w) = w" "fst (handle_control e q w) = w"
  "fst (handle_settings e q w) = w" "fst (handle_api_status e q w) = w" "fst (handle_setup e q w) = w"
  "fst (handle_setup_root_cert e q w) = w" "fst (handle_setup_mobileconfig e q w) = w"
  "fst (handle_service_worker e q w) = w" "fst (handle_favicon e q w) = w" "fst (render_status v e q w) = w"
  "fst (render_update_partial file e q w) = w" "fst (handle_set_lang e q w) = w"
  by (simp_all add: page_defs Let_def handle_set_lang_def)

lemma reading_handlers:
  "only_read w (fst (handle_dashboard e q w))" "only_read w (fst (handle_sessions_partial e q w))"
  "only_read w (fst (handle_api_sessions e q w))" "only_read w (fst (handle_api_events e q w))"
  "only_read w (fst (handle_api_history e q w))"
  by (simp_all add: handle_dashboard_def handle_sessions_partial_def handle_api_sessions_def handle_api_events_def
      handle_api_history_def with_db_cases only_read_with_db split: sum.split prod.split)

lemma get_handlers: "(GET, pattern, h) \<in> set routes \<Longrightarrow> only_read w (fst (h e q w))"
  by (auto simp: routes_def page_handlers reading_handlers)

section \<open>Requests as steps of the system\<close>

text \<open>The controller of a running system, replaced by what a request made of it.\<close>

definition with_ctrl :: "system \<Rightarrow> world \<Rightarrow> system" where
  "with_ctrl s w = s\<lparr>sy_ctrl := wd_ctrl w\<rparr>"

lemma setting_reply_world:
  "fst (setting_reply invalid failed v e q w result) = w\<lparr>wd_ctrl := fst result\<rparr>"
  by (simp add: setting_reply_def Let_def page_handlers split: prod.split option.split)

lemma apply_ctrl: "wd_ctrl (fst (handle_update_apply e q w)) = wd_ctrl w"
  by (simp add: handle_update_apply_def Let_def page_handlers split: option.split prod.split)

lemma check_ctrl: "wd_ctrl (fst (handle_update_check e q w)) = wd_ctrl w"
  by (simp add: handle_update_check_def Let_def split: prod.split)

lemma override_world:
  "fst (handle_api_override e q w) =
    (case hr_body_override q of None \<Rightarrow> w
     | Some req \<Rightarrow> (case parse_override (or_mode req) of Inl msg \<Rightarrow> w
        | Inr mode \<Rightarrow> w\<lparr>wd_ctrl := set_override (we_recorder e) (we_ctrl_now e) mode
            (override_until (we_oor e) (we_now e) (or_hours req)) (or_cap_bypass req \<and> mode = OverrideForceOn)
            (or_cap_bypass_soc req) (wd_ctrl w)\<rparr>))"
  by (simp add: handle_api_override_def Let_def page_handlers split: option.split sum.split)

lemma post_handlers:
  assumes "(POST, pattern, h) \<in> set routes" "sy_ctrl s = wd_ctrl w"
    "\<And>t. hr_body_threshold q = Some t \<Longrightarrow> representable t"
  shows "wd_ctrl (fst (h e q w)) = wd_ctrl w \<or> sys_step (we_env e) s (with_ctrl s (fst (h e q w)))"
proof -
  have on: "with_ctrl s (w\<lparr>wd_ctrl := f (wd_ctrl w)\<rparr>) = on_ctrl f s" for f
    using assms(2) by (simp add: with_ctrl_def on_ctrl_def)
  have steps:
    "sys_step (we_env e) s (with_ctrl s (w\<lparr>wd_ctrl := set_override (we_recorder e) n m u b k (wd_ctrl w)\<rparr>))"
    "sys_step (we_env e) s (with_ctrl s (w\<lparr>wd_ctrl := fst (set_charge_power (we_recorder e) n x (wd_ctrl w))\<rparr>))"
    "sys_step (we_env e) s (with_ctrl s (w\<lparr>wd_ctrl := fst (set_auto_profile (we_recorder e) n x (wd_ctrl w))\<rparr>))"
    "sys_step (we_env e) s (with_ctrl s (w\<lparr>wd_ctrl := fst (set_target_soc (we_recorder e) n k (wd_ctrl w))\<rparr>))"
    "representable t \<Longrightarrow>
      sys_step (we_env e) s (with_ctrl s (w\<lparr>wd_ctrl := fst (set_start_threshold (we_recorder e) n t (wd_ctrl w))\<rparr>))"
    for n m u b k x t
    using sys_step.st_override sys_step.st_charge_power sys_step.st_auto_profile sys_step.st_target_soc
      sys_step.st_start_threshold on
    by metis+
  from assms(1) consider "h = handle_api_override" | "h = handle_charge_power" | "h = handle_auto_profile"
    | "h = handle_start_threshold" | "h = handle_target_soc" | "h = handle_update_check" | "h = handle_update_apply"
    by (auto simp: routes_def)
  then show ?thesis
    using steps assms(3)
    by cases (auto simp: override_world handle_charge_power_def handle_auto_profile_def handle_start_threshold_def
        handle_target_soc_def setting_reply_world apply_ctrl check_ctrl split: option.split sum.split)
qed

section \<open>The persistent settings\<close>

text \<open>
  The three ways a setting request ends: rejected with everything unchanged, failed in the
  store with control state and settings unchanged, or done in memory and in the store.
\<close>

definition setting_handled ::
    "web_env \<Rightarrow> world \<Rightarrow> world \<times> response \<Rightarrow> bool \<Rightarrow> string \<Rightarrow> string \<Rightarrow> control_state \<Rightarrow> bool" where
  "setting_handled e w out accepted key raw ctrl =
    (let r = c_rec (wd_ctrl w); c' = wd_ctrl (fst out); code = rs_status (snd out) in
     if \<not> accepted then code = 400 \<and> fst out = w
     else if outcome (we_driver e) r = SqlFail then
       code = 500 \<and> c_ctrl c' = c_ctrl (wd_ctrl w) \<and> db_setting (c_rec c') = db_setting r
     else code = 200 \<and> c_ctrl c' = ctrl \<and> db_setting (c_rec c') = (db_setting r)(key \<mapsto> raw))"

lemma reply_status [simp]: "rs_status (reply n c) = n"
  by (simp add: reply_def)

lemma audit_parts:
  "c_ctrl (audit ri now k a c) = c_ctrl c"
  "db_setting (c_rec (audit (store_recorder drv) now k a c)) = db_setting (c_rec c)"
  by (simp_all add: audit_def insert_event_def frame)

lemma set_setting_outcome:
  "set_setting drv k v d = (if outcome drv d = SqlFail then (called d, Some (Wrapped ''set setting'' ErrDriver))
     else (fst (set_setting drv k v d), None))"
  "outcome drv d \<noteq> SqlFail \<Longrightarrow> db_setting (fst (set_setting drv k v d)) = (db_setting d)(k \<mapsto> v)"
  by (auto simp: set_setting_def db_setting_def)

text \<open>An operation of the shape all four setters have, behind its handler.\<close>

lemma setting_handled_reply:
  assumes res: "res = (if accepted then
      (case set_setting (we_driver e) key raw (c_rec (wd_ctrl w)) of
         (r, Some err) \<Rightarrow> ((wd_ctrl w)\<lparr>c_rec := r\<rparr>, Some (Wrapped ctx err))
       | (r, None) \<Rightarrow> (audit (we_recorder e) now k a ((wd_ctrl w)\<lparr>c_rec := r, c_ctrl := ctrl\<rparr>), None))
      else (wd_ctrl w, Some bad))"
    and bad: "error_is bad invalid" and "invalid \<noteq> ErrDriver"
  shows "setting_handled e w (respond (\<lambda>e q w. setting_reply invalid failed v e q w res) e q w) accepted key raw ctrl"
proof (cases accepted)
  case False
  with res bad show ?thesis by (simp add: setting_handled_def respond_def setting_reply_def Let_def)
next
  case True
  show ?thesis
  proof (cases "outcome (we_driver e) (c_rec (wd_ctrl w)) = SqlFail")
    case fail: True
    have "res = ((wd_ctrl w)\<lparr>c_rec := called (c_rec (wd_ctrl w))\<rparr>, Some (Wrapped ctx (Wrapped ''set setting'' ErrDriver)))"
      using True fail unfolding res by (simp add: set_setting_def)
    with True fail assms(3) show ?thesis
      by (simp add: setting_handled_def respond_def setting_reply_def Let_def frame)
  next
    case ok: False
    have "res = (audit (we_recorder e) now k a
        ((wd_ctrl w)\<lparr>c_rec := fst (set_setting (we_driver e) key raw (c_rec (wd_ctrl w))), c_ctrl := ctrl\<rparr>), None)"
      using True ok unfolding res by (subst set_setting_outcome(1)) simp
    with True ok show ?thesis
      by (simp add: setting_handled_def respond_def setting_reply_def Let_def render_status_def audit_parts
          set_setting_outcome(2))
  qed
qed

lemma no_body_handled:
  "respond h e q w = (w, error_handler (FiberError 400 m)) \<Longrightarrow> setting_handled e w (respond h e q w) False key raw ctrl"
  by (simp add: setting_handled_def Let_def)

lemma charge_power_handled:
  "setting_handled e w (respond handle_charge_power e q w)
    (case hr_body_power q of None \<Rightarrow> False | Some x \<Rightarrow> valid_charge_power x) charge_power_setting
    (the (hr_body_power q)) ((c_ctrl (wd_ctrl w))\<lparr>cs_charge_power := the (hr_body_power q)\<rparr>)"
proof (cases "hr_body_power q")
  case None
  then show ?thesis by (simp add: setting_handled_def respond_def handle_charge_power_def Let_def)
next
  case (Some x)
  have r: "respond handle_charge_power e q w = respond (\<lambda>e' q' w'. setting_reply ErrInvalidChargePower
      ''failed to set charge power'' PartialControls e' q' w' (set_charge_power (we_recorder e) (we_ctrl_now e) x (wd_ctrl w))) e q w"
    by (simp add: respond_def handle_charge_power_def Some)
  show ?thesis
    unfolding r Some option.sel option.case
    by (rule setting_handled_reply[where bad = "Wrapped x ErrInvalidChargePower"])
      (auto simp: set_charge_power_def Let_def split: prod.split option.split)
qed

lemma auto_profile_handled:
  "setting_handled e w (respond handle_auto_profile e q w)
    (case hr_body_profile q of None \<Rightarrow> False | Some x \<Rightarrow> valid_auto_profile x) auto_profile_setting
    (the (hr_body_profile q)) ((c_ctrl (wd_ctrl w))\<lparr>cs_auto_profile := the (hr_body_profile q)\<rparr>)"
proof (cases "hr_body_profile q")
  case None
  then show ?thesis by (simp add: setting_handled_def respond_def handle_auto_profile_def Let_def)
next
  case (Some x)
  have r: "respond handle_auto_profile e q w = respond (\<lambda>e' q' w'. setting_reply ErrInvalidAutoProfile
      ''failed to set auto profile'' PartialSettings e' q' w' (set_auto_profile (we_recorder e) (we_ctrl_now e) x (wd_ctrl w))) e q w"
    by (simp add: respond_def handle_auto_profile_def Some)
  show ?thesis
    unfolding r Some option.sel option.case
    by (rule setting_handled_reply[where bad = "Wrapped x ErrInvalidAutoProfile"])
      (auto simp: set_auto_profile_def Let_def split: prod.split option.split)
qed

lemma start_threshold_handled:
  "setting_handled e w (respond handle_start_threshold e q w)
    (case hr_body_threshold q of None \<Rightarrow> False | Some x \<Rightarrow> threshold_step_ok x \<and> \<not> x \<le> cfg_stop_threshold (c_cfg (wd_ctrl w)) \<and> is_latch_profile (active_profile (wd_ctrl w))) (setting_key start_threshold_key_prefix (active_profile (wd_ctrl w)))
    (format_float (the (hr_body_threshold q))) ((c_ctrl (wd_ctrl w))\<lparr>cs_start_threshold := (cs_start_threshold (c_ctrl (wd_ctrl w)))(active_profile (wd_ctrl w) \<mapsto> the (hr_body_threshold q))\<rparr>)"
proof (cases "hr_body_threshold q")
  case None
  then show ?thesis by (simp add: setting_handled_def respond_def handle_start_threshold_def Let_def)
next
  case (Some x)
  have r: "respond handle_start_threshold e q w = respond (\<lambda>e' q' w'. setting_reply ErrInvalidStartThreshold
      ''failed to set start threshold'' PartialSettings e' q' w' (set_start_threshold (we_recorder e) (we_ctrl_now e) x (wd_ctrl w))) e q w"
    by (simp add: respond_def handle_start_threshold_def Some)
  show ?thesis
    unfolding r Some option.sel option.case
    by (rule setting_handled_reply[where bad = "Wrapped (if \<not> threshold_step_ok x then ''step'' else if x \<le> cfg_stop_threshold (c_cfg (wd_ctrl w)) then ''stop threshold'' else active_profile (wd_ctrl w)) ErrInvalidStartThreshold"])
      (auto simp: set_start_threshold_def Let_def split: prod.split option.split)
qed

lemma target_soc_handled:
  "setting_handled e w (respond handle_target_soc e q w)
    (case hr_body_soc q of None \<Rightarrow> False | Some x \<Rightarrow> target_soc_ok x \<and> is_latch_profile (active_profile (wd_ctrl w))) (setting_key target_soc_key_prefix (active_profile (wd_ctrl w)))
    (itoa (the (hr_body_soc q))) ((c_ctrl (wd_ctrl w))\<lparr>cs_target_soc := (cs_target_soc (c_ctrl (wd_ctrl w)))(active_profile (wd_ctrl w) \<mapsto> the (hr_body_soc q))\<rparr>)"
proof (cases "hr_body_soc q")
  case None
  then show ?thesis by (simp add: setting_handled_def respond_def handle_target_soc_def Let_def)
next
  case (Some x)
  have r: "respond handle_target_soc e q w = respond (\<lambda>e' q' w'. setting_reply ErrInvalidTargetSoC
      ''failed to set target soc'' PartialSettings e' q' w' (set_target_soc (we_recorder e) (we_ctrl_now e) x (wd_ctrl w))) e q w"
    by (simp add: respond_def handle_target_soc_def Some)
  show ?thesis
    unfolding r Some option.sel option.case
    by (rule setting_handled_reply[where bad = "Wrapped (if \<not> target_soc_ok x then ''step'' else active_profile (wd_ctrl w)) ErrInvalidTargetSoC"])
      (auto simp: set_target_soc_def Let_def split: prod.split option.split)
qed


text \<open>C25. The requests for the charge power, the auto-charge profile, the start threshold and the
  target SoC: without a valid body the answer is 400 and nothing changes; when the store
  fails it is 500 and neither the control state nor the stored settings change; otherwise it
  is 200, and the value is in the control state and in the settings under its key.\<close>

theorem setting_requests:
  "setting_handled e w (respond handle_charge_power e q w)
     (case hr_body_power q of None \<Rightarrow> False | Some x \<Rightarrow> valid_charge_power x)
     charge_power_setting (the (hr_body_power q)) ((c_ctrl (wd_ctrl w))\<lparr>cs_charge_power := the (hr_body_power q)\<rparr>) \<and>
   setting_handled e w (respond handle_auto_profile e q w)
     (case hr_body_profile q of None \<Rightarrow> False | Some x \<Rightarrow> valid_auto_profile x)
     auto_profile_setting (the (hr_body_profile q)) ((c_ctrl (wd_ctrl w))\<lparr>cs_auto_profile := the (hr_body_profile q)\<rparr>) \<and>
   setting_handled e w (respond handle_start_threshold e q w)
     (case hr_body_threshold q of None \<Rightarrow> False
      | Some x \<Rightarrow> threshold_step_ok x \<and> \<not> x \<le> cfg_stop_threshold (c_cfg (wd_ctrl w)) \<and> is_latch_profile (active_profile (wd_ctrl w)))
     (setting_key start_threshold_key_prefix (active_profile (wd_ctrl w))) (format_float (the (hr_body_threshold q)))
     ((c_ctrl (wd_ctrl w))\<lparr>cs_start_threshold := (cs_start_threshold (c_ctrl (wd_ctrl w)))((active_profile (wd_ctrl w)) \<mapsto> the (hr_body_threshold q))\<rparr>) \<and>
   setting_handled e w (respond handle_target_soc e q w)
     (case hr_body_soc q of None \<Rightarrow> False | Some x \<Rightarrow> target_soc_ok x \<and> is_latch_profile (active_profile (wd_ctrl w)))
     (setting_key target_soc_key_prefix (active_profile (wd_ctrl w))) (itoa (the (hr_body_soc q)))
     ((c_ctrl (wd_ctrl w))\<lparr>cs_target_soc := (cs_target_soc (c_ctrl (wd_ctrl w)))((active_profile (wd_ctrl w)) \<mapsto> the (hr_body_soc q))\<rparr>)"
  using charge_power_handled auto_profile_handled start_threshold_handled target_soc_handled by blast

section \<open>The override\<close>

lemma parse_override_cases:
  "parse_override m = (if m = ''auto'' then Inr OverrideAuto else if m = ''on'' then Inr OverrideForceOn
     else if m = ''off'' then Inr OverrideForceOff else Inl (InvalidMode m))"
  by (simp add: parse_override_def)

lemma set_override_ctrl:
  "c_ctrl (set_override ri now mode until b k c) = (c_ctrl c)\<lparr>cs_override := mode, cs_override_until := until,
     cs_cap_bypass := mode = OverrideForceOn \<and> b, cs_cap_bypass_soc := if mode = OverrideForceOn \<and> b then k else 0\<rparr>"
  by (simp add: set_override_def Let_def audit_def)

text \<open>An override of a whole number of hours, up to the 2562047 a duration can hold, ends
  exactly that many hours from now: neither the multiplication nor the conversion rounds.\<close>

lemma override_hours_exact:
  assumes "1 \<le> n" "n \<le> 2562047"
  shows "override_until oor now (whole n) = now + n * hour"
proof -
  have "fl (of_int (n * 3600000000000)) = Fin (of_int (n * 3600000000000))"
  proof (rule fl_exact[where m = "n * 439453125" and e = 13])
    show "of_int (n * 3600000000000) = of_int (n * 439453125) * pow2 13" by (simp add: pow2_def)
    have "\<bar>of_int (n * 3600000000000)\<bar> \<le> (10 ^ 20 :: rat)" using assms by (simp flip: of_int_mult)
    also have "\<dots> < f64_limit" by (simp add: f64_limit_def)
    finally show "\<bar>of_int (n * 3600000000000)\<bar> < f64_limit" .
  qed (use assms in simp_all)
  moreover have h: "f64_of_int hour = Fin 3600000000000"
    using fl_of_int_exact[of 3600000000000] by (simp add: f64_of_int_def duration_defs)
  moreover have "whole n * f64_of_int hour = fl (of_int (n * 3600000000000))"
    using assms h by (simp add: whole_def times_f64_def f64_mul_def is_zero_def Let_def)
  moreover have "0 < whole n" using assms by (simp add: whole_def f64_zero_Fin)
  ultimately show ?thesis
    using assms by (simp add: override_until_def time_add_def f64_to_int_def in64_numeral duration_defs flip: of_int_mult)
qed

text \<open>Any positive number of hours up to that ends as many hours from now, up to the rounding of the
  product to a \<open>float64\<close> and the truncation to nanoseconds.\<close>

lemma override_hours_close:
  assumes "0 < h" "h \<le> 2562047"
  shows "\<bar>of_int (override_until oor now (Fin h) - now) - h * 3600000000000\<bar> \<le> 513"
proof -
  have q: "0 < h * 3600000000000" "h * 3600000000000 < 2 ^ 63 - 1024" "h * 3600000000000 < 2 ^ 63" using assms by simp_all
  obtain v where v: "fl (h * 3600000000000) = Fin v" "\<bar>v - h * 3600000000000\<bar> \<le> 512" by (rule fl_close[OF q(1,3)])
  have "f64_of_int hour = Fin 3600000000000"
    using fl_of_int_exact[of 3600000000000] by (simp add: f64_of_int_def duration_defs)
  then have "Fin h * f64_of_int hour = Fin v"
    using assms(1) v(1) by (simp add: times_f64_def f64_mul_def is_zero_def Let_def)
  with assms(1) f64_to_int_close[OF q(1,2) v(2), of oor] show ?thesis
    by (simp add: override_until_def f64_zero_Fin time_add_def)
qed

text \<open>C34. An override request names the mode auto, on or off, or it is refused with 400 and nothing
  changes. Otherwise the answer is 200 and the override is the named mode. It never ends when the
  hours are not positive; a whole number of hours, up to the 2562047 a duration can hold, ends it exactly so
  many hours of 3600 seconds from now, and a fraction of them within 513 nanoseconds of that.
  The SoC cap is passed only when a forced-on override asks for it.\<close>

theorem override_request_effect:
  "(case hr_body_override q of
      None \<Rightarrow> fst (respond handle_api_override e q w) = w \<and> rs_status (snd (respond handle_api_override e q w)) = 400
    | Some req \<Rightarrow>
        if or_mode req \<notin> {''auto'', ''on'', ''off''} then
          fst (respond handle_api_override e q w) = w \<and> rs_status (snd (respond handle_api_override e q w)) = 400
        else rs_status (snd (respond handle_api_override e q w)) = 200 \<and>
          (\<exists>mode until. override_str mode = or_mode req \<and> mode \<in> {OverrideAuto, OverrideForceOn, OverrideForceOff} \<and>
            c_ctrl (wd_ctrl (fst (respond handle_api_override e q w))) = (c_ctrl (wd_ctrl w))\<lparr>cs_override := mode,
              cs_override_until := until,
              cs_cap_bypass := or_mode req = ''on'' \<and> or_cap_bypass req,
              cs_cap_bypass_soc := if or_mode req = ''on'' \<and> or_cap_bypass req then or_cap_bypass_soc req else 0\<rparr> \<and>
            (\<not> 0 < or_hours req \<longrightarrow> until = 0) \<and>
            (\<forall>n. or_hours req = whole n \<and> 1 \<le> n \<and> n \<le> 2562047 \<longrightarrow> until = we_now e + n * 3600000000000) \<and>
            (\<forall>h. or_hours req = Fin h \<and> 0 < h \<and> h \<le> 2562047 \<longrightarrow>
               \<bar>of_int (until - we_now e) - h * 3600000000000\<bar> \<le> 513)))"
proof (cases "hr_body_override q")
  case None
  then show ?thesis by (simp add: respond_def handle_api_override_def)
next
  case (Some req)
  show ?thesis
  proof (cases "or_mode req \<in> {''auto'', ''on'', ''off''}")
    case False
    with Some show ?thesis by (simp add: respond_def handle_api_override_def parse_override_cases)
  next
    case True
    then obtain mode where m: "parse_override (or_mode req) = Inr mode" "override_str mode = or_mode req"
      "mode \<in> {OverrideAuto, OverrideForceOn, OverrideForceOff}"
      by (auto simp: parse_override_cases)
    then have on: "(mode = OverrideForceOn) = (or_mode req = ''on'')" by auto
    have "fst (respond handle_api_override e q w) = w\<lparr>wd_ctrl := set_override (we_recorder e) (we_ctrl_now e) mode
        (override_until (we_oor e) (we_now e) (or_hours req)) (or_cap_bypass req \<and> mode = OverrideForceOn) (or_cap_bypass_soc req) (wd_ctrl w)\<rparr>"
      by (simp add: fst_respond override_world Some m(1))
    moreover have "rs_status (snd (respond handle_api_override e q w)) = 200"
      by (simp add: respond_def handle_api_override_def Some m(1) Let_def render_status_def)
    ultimately have r: "rs_status (snd (respond handle_api_override e q w)) = 200"
      "c_ctrl (wd_ctrl (fst (respond handle_api_override e q w))) = (c_ctrl (wd_ctrl w))\<lparr>cs_override := mode,
              cs_override_until := override_until (we_oor e) (we_now e) (or_hours req),
              cs_cap_bypass := or_mode req = ''on'' \<and> or_cap_bypass req,
              cs_cap_bypass_soc := if or_mode req = ''on'' \<and> or_cap_bypass req then or_cap_bypass_soc req else 0\<rparr>"
      by (auto simp: set_override_ctrl on)
    let ?u = "override_until (we_oor e) (we_now e) (or_hours req)"
    have u: "\<not> 0 < or_hours req \<longrightarrow> ?u = 0"
      "\<forall>n. or_hours req = whole n \<and> 1 \<le> n \<and> n \<le> 2562047 \<longrightarrow> ?u = we_now e + n * 3600000000000"
      "\<forall>h. or_hours req = Fin h \<and> 0 < h \<and> h \<le> 2562047 \<longrightarrow> \<bar>of_int (?u - we_now e) - h * 3600000000000\<bar> \<le> 513"
      using override_hours_exact[where oor = "we_oor e" and now = "we_now e"] override_hours_close[where oor = "we_oor e" and now = "we_now e"]
      by (simp_all add: override_until_def) (auto simp: duration_defs override_until_def)
    from True have "\<not> or_mode req \<notin> {''auto'', ''on'', ''off''}" by blast
    then show ?thesis
      unfolding Some option.case by (subst if_not_P) (assumption, intro conjI exI[of _ mode] exI[of _ ?u] r m u)
  qed
qed

section \<open>The history window\<close>

text \<open>C35. The history request is refused with 400 and without a query when a bound is unreadable or
  the window is reversed; otherwise the samples of a window of at most seven days are queried,
  which ends where asked and starts where asked or seven days before its end.\<close>

theorem history_window:
  "case history_range e q of
     Inl err \<Rightarrow> respond handle_api_history e q w = (w, error_handler err) \<and> rs_status (error_handler err) = 400
   | Inr (a, b) \<Rightarrow> a \<le> b \<and> b - a \<le> 7 * 24 * hour \<and> query_time e q ''to'' (we_now e) = Inr b \<and>
       (\<exists>f \<le> b. query_time e q ''from'' (we_now e - 24 * hour) = Inr f \<and> a = max f (b - 7 * 24 * hour)) \<and>
       snd (respond handle_api_history e q w) =
         (case snd (samples_between (we_driver e) a b (c_rec (wd_ctrl w))) of
            Inl err \<Rightarrow> reply 500 (Json (JsonFailure (ErrorText (Wrapped ''api history'' err))))
          | Inr ss \<Rightarrow> reply 200 (Json (JsonSamples ss)))"
proof -
  have bad: "query_time e q k d = Inl err \<Longrightarrow> rs_status (error_handler err) = 400" for k d err
    by (auto simp: query_time_def split: if_splits option.splits)
  have sub: "(168 * hour < time_sub b a) = (168 * hour < b - a)" for a b :: time
    by (auto simp: time_sub_def clamp64_def int64_max_def int64_min_def duration_defs)
  show ?thesis
  proof (cases "history_range e q")
    case (Inl err)
    then have "rs_status (error_handler err) = 400"
      by (auto simp: history_range_def split: sum.splits if_splits dest: bad)
    with Inl show ?thesis by (simp add: respond_def handle_api_history_def)
  next
    case (Inr r)
    obtain a b where r: "r = (a, b)" by (cases r)
    with Inr obtain f where f: "query_time e q ''from'' (we_now e - 24 * hour) = Inr f"
      "query_time e q ''to'' (we_now e) = Inr b" "f \<le> b" "a = max f (b - 7 * 24 * hour)"
      by (auto simp: history_range_def default_history_window_def max_history_window_def sub time_before_def time_add_def max_def
          split: sum.splits if_splits)
    have resp: "snd (respond handle_api_history e q w) =
         (case snd (samples_between (we_driver e) a b (c_rec (wd_ctrl w))) of
            Inl err \<Rightarrow> reply 500 (Json (JsonFailure (ErrorText (Wrapped ''api history'' err))))
          | Inr ss \<Rightarrow> reply 200 (Json (JsonSamples ss)))"
      by (simp add: respond_def handle_api_history_def Inr r with_db_def split: prod.split sum.split)
    have "0 < hour" by (simp add: duration_defs)
    with f(3,4) have "a \<le> b" "b - a \<le> 7 * 24 * hour" by (auto simp: max_def)
    with f resp show ?thesis unfolding Inr r sum.case prod.case by blast
  qed
qed

section \<open>Applying an update\<close>

lemma write_atomic_last:
  assumes "write_file_atomic dk path data fs = (dirs, err)" "path \<noteq> ''.tmp-'' @ the (dk_temp dk)"
  shows "if err = None then last dirs path = Some data else last dirs path = fs path"
  using assms by (auto simp: write_file_atomic_def Let_def split: option.splits if_splits)

text \<open>C28. An update is requested exactly when the answer is 200: then updates are enabled, the version
  is the latest one found, well-formed and not the running one, and the request file asks for
  it. After any other answer the request file is as before; the controller and the updater
  are never touched.\<close>

theorem update_apply_guarded:
  "(let (w', resp) = respond handle_update_apply e q w; u = wd_upd w in
    wd_ctrl w' = wd_ctrl w \<and> wd_upd w' = u \<and>
    (if rs_status resp = 200 then
       up_enabled (ud_cfg u) \<and> semver_ok (ud_latest u) \<and> ud_latest u \<noteq> ud_current u \<and>
       hr_body_version q = Some (ud_latest u) \<and>
       wd_dir w' request_name = Some (Complete \<lparr>rq_target = ud_latest u, rq_requested_at = we_upd_now e\<rparr>)
     else wd_dir w' request_name = wd_dir w request_name))"
proof -
  have info: "nf_enabled (info_of f u) = up_enabled (ud_cfg u)" "nf_latest (info_of f u) = ud_latest u" for f u
    by (simp_all add: info_of_def Let_def split: option.split)
  have name: "request_name \<noteq> ''.tmp-'' @ x" for x by (simp add: request_name_def)
  show ?thesis
  proof (cases "hr_body_version q")
    case (Some v)
    show ?thesis
    proof (cases "up_enabled (ud_cfg (wd_upd w)) \<and> v \<noteq> '''' \<and> v = ud_latest (wd_upd w)")
      case True
      obtain dirs err where t: "trigger (we_disk e) (we_upd_now e) v (wd_upd w) (wd_dir w) = (dirs, err)"
        by (cases "trigger (we_disk e) (we_upd_now e) v (wd_upd w) (wd_dir w)")
      have "if err = None then semver_ok v \<and> v \<noteq> ud_current (wd_upd w) \<and>
          last dirs request_name = Some (Complete \<lparr>rq_target = v, rq_requested_at = we_upd_now e\<rparr>)
        else last dirs request_name = wd_dir w request_name"
        using t write_atomic_last[OF _ name, of "we_disk e" _ "wd_dir w"]
        by (auto simp: trigger_def split: if_splits)
      with True Some t show ?thesis
        by (cases err) (auto simp: respond_def handle_update_apply_def info Let_def render_update_partial_def)
    qed (use Some in \<open>auto simp: respond_def handle_update_apply_def info Let_def\<close>)
  qed (simp add: respond_def handle_update_apply_def)
qed


section \<open>Where the code and its comments differ\<close>

text \<open>One hour more than a duration holds: the end is whatever the platform's conversion gives.\<close>

lemma override_hours_overflow: "override_until oor now (whole 2562048) = now + oor (Fin 9223372800000000000)"
proof -
  have "fl (of_int 9223372800000000000) = Fin (of_int 9223372800000000000)"
  proof (rule fl_exact[where m = 1125900000000000 and e = 13])
    show "of_int 9223372800000000000 = of_int 1125900000000000 * pow2 13" by (simp add: pow2_def)
    show "\<bar>of_int 9223372800000000000\<bar> < f64_limit" by (simp add: f64_limit_def)
  qed simp_all
  moreover have "f64_of_int hour = Fin 3600000000000"
    using fl_of_int_exact[of 3600000000000] by (simp add: f64_of_int_def duration_defs)
  ultimately show ?thesis
    by (simp add: override_until_def whole_def times_f64_def f64_mul_def is_zero_def Let_def f64_zero_Fin time_add_def
        f64_to_int_def in64_numeral)
qed

text \<open>A path that starts with two slashes is returned as it is, and a browser takes it for another host.\<close>

lemma same_origin_two_slashes:
  assumes "parse ref = Some u" "ref \<noteq> ''''" "ur_host u = host" "ur_opaque u = ''''"
    "ur_escaped_path u = ''//evil.example''" "\<not> ur_force_query u" "ur_raw_query u = ''''"
  shows "same_origin_path parse ref host = ''//evil.example''"
  using assms by (simp add: same_origin_path_def request_uri_def)

text \<open>The SoC shown for a forced charge is the chosen one, although the limit sent is kept above the cap.\<close>

lemma bypass_target_unclamped:
  "sv_cap_bypass_soc v = 50 \<Longrightarrow> sv_soc_cap v = 80 \<Longrightarrow> vm_cap_bypass_target (new_status_vm oor now v) = 50"
  by (simp add: new_status_vm_def cap_bypass_target_def Let_def)

section \<open>Witnesses\<close>

definition demo_request :: request where
  "demo_request = \<lparr>hr_header = (\<lambda>_. ''''), hr_cookie = (\<lambda>_. ''''), hr_param = (\<lambda>_. ''''), hr_query = (\<lambda>_. ''''),
     hr_query_int = (\<lambda>_ def. def), hr_host = ''wha.local'', hr_body_override = None, hr_body_power = Some EnableModeNow,
     hr_body_profile = None, hr_body_threshold = None, hr_body_soc = None, hr_body_version = None\<rparr>"

definition demo_web_env :: web_env where
  "demo_web_env = \<lparr>we_env = demo_env, we_now = 30, we_render_now = 31, we_ctrl_now = 30, we_upd_now = 30, we_upd_later = 31,
     we_sidecar = None, we_sidecar_later = None, we_slice = insertion_slice, we_registry = demo_registry,
     we_disk = \<lparr>dk_mkdir = True, dk_temp = Some ''1'', dk_write = True, dk_close = True, dk_rename = True, dk_remove = True\<rparr>,
     we_catalogs = (\<lambda>_ _. None), we_ca_stat = False, we_ca_file = CaMissing, we_pem_decode = (\<lambda>_. None),
     we_url_parse = (\<lambda>_. None), we_time_layout = (\<lambda>_. None), we_sw_render = (\<lambda>v. Some v)\<rparr>"

definition demo_world :: world where
  "demo_world = \<lparr>wd_web = \<lparr>wb_bind_addr = '''', wb_port = 8080, wb_ca_root_path = ''''\<rparr>,
     wd_ctrl = sy_ctrl (demo_ticked empty_db), wd_upd = demo_updater, wd_dir = Map.empty\<rparr>"

lemma override_hours_exact_demo: "override_until (\<lambda>_. 0) 5 (whole 2) = 5 + 2 * hour"
  using override_hours_exact[of 2 "\<lambda>_. 0" 5] by simp

definition boost_request :: request where
  "boost_request = demo_request\<lparr>hr_body_override := Some \<lparr>or_mode = ''on'', or_hours = whole 2, or_cap_bypass = False, or_cap_bypass_soc = 0\<rparr>\<rparr>"

theorem override_request_effect_witness:
  "cs_override_until (c_ctrl (wd_ctrl (fst (respond handle_api_override demo_web_env boost_request demo_world)))) =
    we_now demo_web_env + 7200000000000"
proof -
  have "\<forall>n. whole 2 = whole n \<and> 1 \<le> n \<and> n \<le> 2562047 \<longrightarrow> until = we_now demo_web_env + n * 3600000000000 \<Longrightarrow>
      until = we_now demo_web_env + 7200000000000" for until
    by (drule spec[of _ 2]) simp
  then show ?thesis
    using override_request_effect[where e = demo_web_env and q = boost_request and w = demo_world] by (auto simp: boost_request_def)
qed

end
