(* ===== verification/Server.thy ===== *)
theory Server
  imports WebProps
begin

text \<open>
  \<open>web/server.go\<close> around the handlers: construction, the functions given to the templates, the
  dispatch of a request through the static files and the routes, listening and shutdown.
\<close>

section \<open>Construction\<close>

text \<open>What is embedded in the binary; a missing directory or an unreadable catalog is a panic.\<close>

record embedded =
  em_templates :: bool
  em_static_dir :: bool
  em_static :: "string \<Rightarrow> (string \<times> string) option"
  em_locale :: "string \<Rightarrow> string option"
  em_unmarshal :: "string \<Rightarrow> (string \<rightharpoonup> string) option"

datatype template_func = FuncT | FuncTOr | FuncDeref | FuncSafeHTML

definition deref :: "int option \<Rightarrow> int" where
  "deref p = (case p of None \<Rightarrow> 0 | Some n \<Rightarrow> n)"

definition new_engine :: "embedded \<Rightarrow> (string \<times> template_func) list option" where
  "new_engine em = (if \<not> em_templates em then None
     else Some [(''t'', FuncT), (''tOr'', FuncTOr), (''deref'', FuncDeref), (''safeHTML'', FuncSafeHTML)])"

record server =
  srv_cfg :: web_config
  srv_bundle :: catalogs
  srv_engine :: "(string \<times> template_func) list"
  srv_static :: "string \<Rightarrow> (string \<times> string) option"

definition new_server :: "embedded \<Rightarrow> web_config \<Rightarrow> server option" where
  "new_server em cfg =
    (case new_bundle (em_locale em) (em_unmarshal em) of
       None \<Rightarrow> None
     | Some bundle \<Rightarrow>
        (case new_engine em of
           None \<Rightarrow> None
         | Some engine \<Rightarrow> if \<not> em_static_dir em then None
             else Some \<lparr>srv_cfg = cfg, srv_bundle = bundle, srv_engine = engine, srv_static = em_static em\<rparr>))"

section \<open>Dispatch\<close>

text \<open>
  Fiber decides whether a pattern matches a path and with which error a path without a route is
  answered; the middleware of the static files, which comes first, answers a path with a file.
\<close>

record router =
  ro_matches :: "string \<Rightarrow> string \<Rightarrow> bool"
  ro_no_route :: "http_method \<Rightarrow> string \<Rightarrow> int \<times> string"

definition dispatch :: "router \<Rightarrow> server \<Rightarrow> http_method \<Rightarrow> string \<Rightarrow> web_env \<Rightarrow> request \<Rightarrow> world \<Rightarrow> world \<times> response" where
  "dispatch ro srv m path e q w =
    (case srv_static srv path of
       Some (mime, bytes) \<Rightarrow> (w, reply 200 (File mime [] bytes))
     | None \<Rightarrow>
        (case find (\<lambda>(m', pattern, _). m' = m \<and> ro_matches ro pattern path) routes of
           Some (_, _, h) \<Rightarrow> respond h (e\<lparr>we_catalogs := srv_bundle srv\<rparr>) q w
         | None \<Rightarrow> (w, case ro_no_route ro m path of (code, msg) \<Rightarrow> error_handler (FiberError code (Msg msg)))))"

text \<open>No method and pattern is registered twice, so the order of registration does not matter.\<close>

lemma routes_distinct: "distinct (map (\<lambda>(m, pattern, _). (m, pattern)) routes)"
  by (simp add: routes_def)

lemma dispatch_cases:
  obtains "fst (dispatch ro srv m path e q w) = w"
  | pattern h where "(m, pattern, h) \<in> set routes" "ro_matches ro pattern path"
      "fst (dispatch ro srv m path e q w) = fst (h (e\<lparr>we_catalogs := srv_bundle srv\<rparr>) q w)"
proof (cases "srv_static srv path")
  case None
  show ?thesis
  proof (cases "find (\<lambda>(m', pattern, _). m' = m \<and> ro_matches ro pattern path) routes")
    case no: None
    with None show ?thesis by (intro that(1)) (simp add: dispatch_def)
  next
    case (Some r)
    obtain m' pattern h where r: "r = (m', pattern, h)" by (cases r)
    have "(m, pattern, h) \<in> set routes" "ro_matches ro pattern path"
      using Some unfolding find_Some_iff r by (auto dest: nth_mem)
    with None Some r show ?thesis by (intro that(2)[of pattern h]) (simp_all add: dispatch_def fst_respond)
  qed
qed (use that(1) in \<open>auto simp: dispatch_def\<close>)

text \<open>What a request makes of the controller.\<close>

lemma dispatch_steps:
  assumes "sy_ctrl s = wd_ctrl w" "\<forall>t. hr_body_threshold q = Some t \<longrightarrow> representable t"
  shows "(\<exists>n. wd_ctrl (fst (dispatch ro srv m path e q w)) =
        (wd_ctrl w)\<lparr>c_rec := (c_rec (wd_ctrl w))\<lparr>db_calls := n\<rparr>\<rparr>) \<or>
    sys_step (we_env e) s (with_ctrl s (fst (dispatch ro srv m path e q w)))"
proof -
  let ?e = "e\<lparr>we_catalogs := srv_bundle srv\<rparr>"
  have same: ?thesis if "wd_ctrl (fst (dispatch ro srv m path e q w)) = wd_ctrl w"
    using that by (intro disjI1 exI[of _ "db_calls (c_rec (wd_ctrl w))"]) simp
  show ?thesis
  proof (cases rule: dispatch_cases[of ro srv m path e q w])
    case 1
    then show ?thesis by (intro same) simp
  next
    case (2 pattern h)
    show ?thesis
    proof (cases m)
      case GET
      with get_handlers[of pattern h w ?e q] 2 show ?thesis by (auto simp: only_read_def)
    next
      case POST
      with post_handlers[of pattern h s w q ?e] 2 assms same show ?thesis by auto
    qed
  qed
qed

text \<open>Whatever request is made in whatever state of the running system, its effect on the
  controller is one step of the system model, or none beyond reading the database; so every
  invariant of the reachable states holds under any sequence of requests.\<close>

theorem requests_are_steps:
  assumes "sy_ctrl s = wd_ctrl w" and "\<forall>t. hr_body_threshold q = Some t \<longrightarrow> representable t"
  shows "(\<exists>n. wd_ctrl (fst (dispatch ro srv m path e q w)) =
        (wd_ctrl w)\<lparr>c_rec := (c_rec (wd_ctrl w))\<lparr>db_calls := n\<rparr>\<rparr>) \<or>
    sys_step (we_env e) s (with_ctrl s (fst (dispatch ro srv m path e q w)))"
  by (rule dispatch_steps[OF assms])

text \<open>C36. A GET request, to whatever path and however it is answered, with a file, a page or an error,
  changes nothing in the controller, the stored data, the updater or the request directory;
  neither does a POST to a path that is not one of the POST routes.\<close>

theorem get_is_read_only:
  "only_read w (fst (dispatch ro srv GET path e q w)) \<and>
   ((\<forall>(m, pattern, h) \<in> set routes. m = POST \<longrightarrow> \<not> ro_matches ro pattern path) \<longrightarrow>
     fst (dispatch ro srv POST path e q w) = w)"
proof
  show "only_read w (fst (dispatch ro srv GET path e q w))"
    using get_handlers by (cases rule: dispatch_cases[of ro srv GET path e q w]) simp_all
  show "(\<forall>(m, pattern, h) \<in> set routes. m = POST \<longrightarrow> \<not> ro_matches ro pattern path) \<longrightarrow>
     fst (dispatch ro srv POST path e q w) = w"
    by (cases rule: dispatch_cases[of ro srv POST path e q w]) auto
qed

section \<open>Listening\<close>

definition listen_addr :: "web_config \<Rightarrow> string" where
  "listen_addr cfg = wb_bind_addr cfg @ '':'' @ itoa (wb_port cfg)"

definition start_server :: "(string \<Rightarrow> error option) \<Rightarrow> web_config \<Rightarrow> status" where
  "start_server listen cfg =
    (case listen (listen_addr cfg) of None \<Rightarrow> None | Some err \<Rightarrow> Some (Wrapped (''web: listen on '' @ listen_addr cfg) err))"

definition shutdown_server :: "error option \<Rightarrow> status" where
  "shutdown_server result = (case result of None \<Rightarrow> None | Some err \<Rightarrow> Some (Wrapped ''web: shutdown'' err))"

section \<open>Witnesses\<close>

definition demo_router :: router where
  "demo_router = \<lparr>ro_matches = (=), ro_no_route = (\<lambda>_ _. (404, ''Cannot serve''))\<rparr>"

definition demo_server :: server where
  "demo_server = \<lparr>srv_cfg = wd_web demo_world, srv_bundle = (\<lambda>_ _. None), srv_engine = [], srv_static = (\<lambda>_. None)\<rparr>"

theorem get_is_read_only_witness:
  "fst (dispatch demo_router demo_server POST ''/api/nothing'' demo_web_env demo_request demo_world) = demo_world"
proof -
  have "\<forall>(m, pattern, h) \<in> set routes. m = POST \<longrightarrow> \<not> ro_matches demo_router pattern ''/api/nothing''"
    by (simp add: routes_def demo_router_def)
  with get_is_read_only[of demo_world demo_router demo_server "''/api/nothing''" demo_web_env demo_request] show ?thesis by blast
qed

theorem requests_are_steps_witness:
  "(\<exists>n. wd_ctrl (fst (dispatch demo_router demo_server POST ''/api/charge-power'' demo_web_env demo_request demo_world)) =
      (wd_ctrl demo_world)\<lparr>c_rec := (c_rec (wd_ctrl demo_world))\<lparr>db_calls := n\<rparr>\<rparr>) \<or>
   sys_step demo_env (demo_ticked empty_db) (with_ctrl (demo_ticked empty_db)
     (fst (dispatch demo_router demo_server POST ''/api/charge-power'' demo_web_env demo_request demo_world)))"
  using requests_are_steps[of "demo_ticked empty_db" demo_world demo_request demo_router demo_server POST
      "''/api/charge-power''" demo_web_env]
  by (simp add: demo_world_def demo_web_env_def demo_request_def)

end
