(* ===== verification/Requests.thy ===== *)
theory Requests
  imports Server
begin

text \<open>
  The four setters of \<open>controller/controller.go\<close> cut at their locks: a request is checked, its value is
  written to the database, then put into memory under the lock, then recorded in the audit log.
  Between these steps anything else may run.
\<close>

section \<open>Values of settings\<close>

datatype setting_value = PowerValue string | ProfileValue string | ThresholdValue string f64 | TargetValue string int

text \<open>The critical section.\<close>

fun install_setting :: "setting_value \<Rightarrow> ('c, 'r) controller \<Rightarrow> ('c, 'r) controller" where
  "install_setting (PowerValue mode) c = c\<lparr>c_ctrl := (c_ctrl c)\<lparr>cs_charge_power := mode\<rparr>\<rparr>"
| "install_setting (ProfileValue profile) c = c\<lparr>c_ctrl := (c_ctrl c)\<lparr>cs_auto_profile := profile\<rparr>\<rparr>"
| "install_setting (ThresholdValue profile w) c =
    c\<lparr>c_ctrl := (c_ctrl c)\<lparr>cs_start_threshold := (cs_start_threshold (c_ctrl c))(profile \<mapsto> w)\<rparr>\<rparr>"
| "install_setting (TargetValue profile pct) c =
    c\<lparr>c_ctrl := (c_ctrl c)\<lparr>cs_target_soc := (cs_target_soc (c_ctrl c))(profile \<mapsto> pct)\<rparr>\<rparr>"

text \<open>Key and text in the database, and the action in the audit log.\<close>

fun setting_entry :: "setting_value \<Rightarrow> string \<times> string" where
  "setting_entry (PowerValue mode) = (charge_power_setting, mode)"
| "setting_entry (ProfileValue profile) = (auto_profile_setting, profile)"
| "setting_entry (ThresholdValue profile w) = (setting_key start_threshold_key_prefix profile, format_float w)"
| "setting_entry (TargetValue profile pct) = (setting_key target_soc_key_prefix profile, itoa pct)"

fun setting_action :: "setting_value \<Rightarrow> string" where
  "setting_action (PowerValue mode) = ''charge_power:'' @ mode"
| "setting_action (ProfileValue profile) = ''auto_profile:'' @ profile"
| "setting_action (ThresholdValue profile w) = ''start_threshold:'' @ profile @ '':'' @ format_float w"
| "setting_action (TargetValue profile pct) = ''target_soc:'' @ profile @ '':'' @ itoa pct"

section \<open>A request, step by step\<close>

datatype setting_request = AskPower string | AskProfile string | AskThreshold f64 | AskTarget int

text \<open>The checks; those for a threshold or a target end with reading the active profile under the lock.\<close>

fun accepted :: "setting_request \<Rightarrow> ('c, 'r) controller \<Rightarrow> error + setting_value" where
  "accepted (AskPower mode) c =
    (if \<not> valid_charge_power mode then Inl (Wrapped mode ErrInvalidChargePower) else Inr (PowerValue mode))"
| "accepted (AskProfile profile) c =
    (if \<not> valid_auto_profile profile then Inl (Wrapped profile ErrInvalidAutoProfile) else Inr (ProfileValue profile))"
| "accepted (AskThreshold w) c =
    (if \<not> threshold_step_ok w then Inl (Wrapped ''step'' ErrInvalidStartThreshold)
     else if w \<le> cfg_stop_threshold (c_cfg c) then Inl (Wrapped ''stop threshold'' ErrInvalidStartThreshold)
     else if \<not> is_latch_profile (active_profile c) then Inl (Wrapped (active_profile c) ErrInvalidStartThreshold)
     else Inr (ThresholdValue (active_profile c) w))"
| "accepted (AskTarget pct) c =
    (if \<not> target_soc_ok pct then Inl (Wrapped ''step'' ErrInvalidTargetSoC)
     else if \<not> is_latch_profile (active_profile c) then Inl (Wrapped (active_profile c) ErrInvalidTargetSoC)
     else Inr (TargetValue (active_profile c) pct))"

definition store_setting :: "'r recorder \<Rightarrow> setting_value \<Rightarrow> ('c, 'r) controller \<Rightarrow> ('c, 'r) controller \<times> status" where
  "store_setting ri x c = (case rec_set_setting ri (fst (setting_entry x)) (snd (setting_entry x)) (c_rec c) of
     (r, st) \<Rightarrow> (c\<lparr>c_rec := r\<rparr>, st))"

text \<open>What an accepted request has still to do; a failed write ends it.\<close>

datatype inflight = ToStore setting_value | ToInstall setting_value | ToAudit string

fun inflight_step :: "'r recorder \<Rightarrow> time \<Rightarrow> inflight \<Rightarrow> ('c, 'r) controller \<Rightarrow> ('c, 'r) controller \<times> inflight option" where
  "inflight_step ri now (ToStore x) c = (case store_setting ri x c of
     (c, Some err) \<Rightarrow> (c, None)
   | (c, None) \<Rightarrow> (c, Some (ToInstall x)))"
| "inflight_step ri now (ToInstall x) c = (install_setting x c, Some (ToAudit (setting_action x)))"
| "inflight_step ri now (ToAudit action) c = (audit ri now ''command'' action c, None)"

fun steps_left :: "inflight \<Rightarrow> nat" where
  "steps_left (ToStore x) = 3"
| "steps_left (ToInstall x) = 2"
| "steps_left (ToAudit action) = 1"

lemma inflight_step_less: "inflight_step ri now f c = (c', Some f') \<Longrightarrow> steps_left f' < steps_left f"
  by (cases f) (auto split: prod.splits option.splits)

text \<open>The remaining steps of one request, undisturbed.\<close>

function serve_rest :: "'r recorder \<Rightarrow> time \<Rightarrow> inflight \<Rightarrow> ('c, 'r) controller \<Rightarrow> ('c, 'r) controller" where
  "serve_rest ri now f c = (case inflight_step ri now f c of
     (c', None) \<Rightarrow> c'
   | (c', Some f') \<Rightarrow> serve_rest ri now f' c')"
  by pat_completeness auto
termination
  by (relation "measure (\<lambda>(ri, now, f, c). steps_left f)") (auto dest: inflight_step_less[OF sym])

declare serve_rest.simps [simp del]

lemma serve_rest_store:
  "serve_rest ri now (ToStore x) c = (case store_setting ri x c of
     (c, Some err) \<Rightarrow> c
   | (c, None) \<Rightarrow> audit ri now ''command'' (setting_action x) (install_setting x c))"
proof -
  have audited: "serve_rest ri now (ToAudit action) d = audit ri now ''command'' action d" for action and d :: "('a, 'b) controller"
    by (subst serve_rest.simps) simp
  have installed: "serve_rest ri now (ToInstall x) d = audit ri now ''command'' (setting_action x) (install_setting x d)"
    for d :: "('a, 'b) controller"
    by (subst serve_rest.simps) (simp add: audited)
  show ?thesis by (subst serve_rest.simps) (simp add: installed split: prod.split option.split)
qed

text \<open>Cutting the setters at their locks is faithful: a request whose steps are not disturbed does to the
  controller exactly what the setter does.\<close>

theorem setters_in_steps:
  "fst (set_charge_power ri now mode c) = (case accepted (AskPower mode) c of Inl err \<Rightarrow> c | Inr x \<Rightarrow> serve_rest ri now (ToStore x) c) \<and>
   fst (set_auto_profile ri now profile c) = (case accepted (AskProfile profile) c of Inl err \<Rightarrow> c | Inr x \<Rightarrow> serve_rest ri now (ToStore x) c) \<and>
   fst (set_start_threshold ri now w c) = (case accepted (AskThreshold w) c of Inl err \<Rightarrow> c | Inr x \<Rightarrow> serve_rest ri now (ToStore x) c) \<and>
   fst (set_target_soc ri now pct c) = (case accepted (AskTarget pct) c of Inl err \<Rightarrow> c | Inr x \<Rightarrow> serve_rest ri now (ToStore x) c)"
proof (intro conjI)
  note parts = Let_def serve_rest_store store_setting_def
  show "fst (set_charge_power ri now mode c) = (case accepted (AskPower mode) c of Inl err \<Rightarrow> c | Inr x \<Rightarrow> serve_rest ri now (ToStore x) c)"
    by (cases "rec_set_setting ri charge_power_setting mode (c_rec c)"; cases "snd (rec_set_setting ri charge_power_setting mode (c_rec c))")
      (simp_all add: set_charge_power_def parts)
  show "fst (set_auto_profile ri now profile c) = (case accepted (AskProfile profile) c of Inl err \<Rightarrow> c | Inr x \<Rightarrow> serve_rest ri now (ToStore x) c)"
    by (cases "rec_set_setting ri auto_profile_setting profile (c_rec c)"; cases "snd (rec_set_setting ri auto_profile_setting profile (c_rec c))")
      (simp_all add: set_auto_profile_def parts)
  let ?w = "rec_set_setting ri (setting_key start_threshold_key_prefix (active_profile c)) (format_float w) (c_rec c)"
  show "fst (set_start_threshold ri now w c) = (case accepted (AskThreshold w) c of Inl err \<Rightarrow> c | Inr x \<Rightarrow> serve_rest ri now (ToStore x) c)"
    by (cases ?w; cases "snd ?w") (simp_all add: set_start_threshold_def parts)
  let ?p = "rec_set_setting ri (setting_key target_soc_key_prefix (active_profile c)) (itoa pct) (c_rec c)"
  show "fst (set_target_soc ri now pct c) = (case accepted (AskTarget pct) c of Inl err \<Rightarrow> c | Inr x \<Rightarrow> serve_rest ri now (ToStore x) c)"
    by (cases ?p; cases "snd ?p") (simp_all add: set_target_soc_def parts)
qed

text \<open>The routes whose requests take these steps.\<close>

definition setting_routes :: "string list" where
  "setting_routes = [''/api/charge-power'', ''/api/auto-profile'', ''/api/start-threshold'', ''/api/target-soc'']"

definition setting_post :: "router \<Rightarrow> http_method \<Rightarrow> string \<Rightarrow> bool" where
  "setting_post ro m path \<longleftrightarrow> m = POST \<and> (\<exists>pattern \<in> set setting_routes. ro_matches ro pattern path)"

end
