(* ===== verification/Startup.thy ===== *)
theory Startup
  imports Config
begin

text \<open>
  What happens before the components run: \<open>config.Load\<close> (\<open>config/config.go\<close>), \<open>store.Open\<close> with its
  migrations (\<open>store/db.go\<close>, \<open>store/migrate.go\<close>) and the logger's level (\<open>app/app.go\<close>). The viper,
  SQL and migration libraries are parameters: the outcomes of the calls made to them.
\<close>

section \<open>Loading the configuration\<close>

text \<open>\<open>MergeInConfig\<close>: merged, no such file (\<open>ConfigFileNotFoundError\<close>), or another error.\<close>

datatype merge_outcome = Merged | FileNotFound | MergeFailed

text \<open>
  The library's answers: encoding and merging the defaults, the value of \<open>WHA_CONFIG\<close>, merging the
  named file, merging the file that is searched for, and decoding into a configuration that is
  already filled.
\<close>

record viper =
  vp_marshal :: bool
  vp_seed :: bool
  vp_config_env :: string
  vp_merge_path :: "string \<Rightarrow> merge_outcome"
  vp_merge_found :: merge_outcome
  vp_unmarshal :: "config \<Rightarrow> config option"

datatype load_error = MarshalDefaults | SeedDefaults | ReadConfigPath string | ReadConfig | UnmarshalConfig
  | InvalidConfig config_error

text \<open>The overlay of a file: the error, if any.\<close>

definition overlay_file :: "viper \<Rightarrow> load_error option" where
  "overlay_file vp =
    (let path = vp_config_env vp in
     if path \<noteq> '''' then (if vp_merge_path vp path \<noteq> Merged then Some (ReadConfigPath path) else None)
     else (case vp_merge_found vp of Merged \<Rightarrow> None | FileNotFound \<Rightarrow> None | MergeFailed \<Rightarrow> Some ReadConfig))"

definition load :: "viper \<Rightarrow> load_error + config" where
  "load vp =
    (if \<not> vp_marshal vp then Inl MarshalDefaults
     else if \<not> vp_seed vp then Inl SeedDefaults
     else case overlay_file vp of
       Some e \<Rightarrow> Inl e
     | None \<Rightarrow>
        (case vp_unmarshal vp default_config of
           None \<Rightarrow> Inl UnmarshalConfig
         | Some cfg \<Rightarrow> (case validate cfg of Some e \<Rightarrow> Inl (InvalidConfig e) | None \<Rightarrow> Inr cfg)))"

lemma validate_NoneD:
  assumes "validate cfg = None"
  shows "control_ok (c_control cfg)" "mq_broker (c_mqtt cfg) \<noteq> ''''" "mq_client_id (c_mqtt cfg) \<noteq> ''''"
    "ev_loadpoint_id (c_evcc cfg) \<noteq> ''''" "1 \<le> wb_port (c_web cfg) \<and> wb_port (c_web cfg) \<le> 65535" "db_path (c_db cfg) \<noteq> ''''"
    "up_enabled (c_update cfg) \<Longrightarrow> up_repository (c_update cfg) \<noteq> '''' \<and> up_request_dir (c_update cfg) \<noteq> '''' \<and>
       0 \<le> up_check_ttl (c_update cfg)"
  using assms by (auto simp: validate_def simp flip: validate_control_None split: if_splits option.splits)

lemma load_validated: "load vp = Inr cfg \<Longrightarrow> validate cfg = None"
  by (auto simp: load_def split: if_splits option.splits)

section \<open>Opening the store\<close>

datatype up_outcome = UpDone | UpNoChange | UpFailed

text \<open>The outcomes of the calls to the SQL and migration libraries.\<close>

record sqlite =
  sq_open :: bool
  sq_exec :: "string \<Rightarrow> bool"
  sq_source :: bool
  sq_driver :: bool
  sq_migrator :: bool
  sq_up :: up_outcome

text \<open>The calls made on the handle, in their order.\<close>

datatype handle_call = OpenHandle string | MaxOpenConns int | Exec string | MigrateUp | CloseHandle

datatype open_error = OpenSqlite string | ApplyPragma string | LoadMigrations | MigrateDriver | NewMigrator | MigrateFailed

definition pragmas :: "string list" where
  "pragmas = [''PRAGMA journal_mode=WAL'', ''PRAGMA busy_timeout=5000'', ''PRAGMA foreign_keys=ON'']"

fun apply_pragmas :: "sqlite \<Rightarrow> string list \<Rightarrow> handle_call list \<times> open_error option" where
  "apply_pragmas sq [] = ([], None)"
| "apply_pragmas sq (p # ps) =
    (if \<not> sq_exec sq p then ([Exec p, CloseHandle], Some (ApplyPragma p))
     else case apply_pragmas sq ps of (calls, e) \<Rightarrow> (Exec p # calls, e))"

definition open_db :: "sqlite \<Rightarrow> string \<Rightarrow> handle_call list \<times> open_error option" where
  "open_db sq path =
    (if \<not> sq_open sq then ([], Some (OpenSqlite path))
     else case apply_pragmas sq pragmas of (calls, e) \<Rightarrow> (OpenHandle path # MaxOpenConns 1 # calls, e))"

definition new_migrate :: "sqlite \<Rightarrow> open_error option" where
  "new_migrate sq = (if \<not> sq_source sq then Some LoadMigrations else if \<not> sq_driver sq then Some MigrateDriver
     else if \<not> sq_migrator sq then Some NewMigrator else None)"

definition migrate_up :: "sqlite \<Rightarrow> handle_call list \<times> open_error option" where
  "migrate_up sq = (case new_migrate sq of
     Some e \<Rightarrow> ([], Some e)
   | None \<Rightarrow> ([MigrateUp], if sq_up sq = UpFailed then Some MigrateFailed else None))"

definition open_store :: "sqlite \<Rightarrow> string \<Rightarrow> handle_call list \<times> open_error option" where
  "open_store sq path =
    (case open_db sq path of
       (calls, Some e) \<Rightarrow> (calls, Some e)
     | (calls, None) \<Rightarrow>
        (case migrate_up sq of
           (ms, Some e) \<Rightarrow> (calls @ ms @ [CloseHandle], Some e)
         | (ms, None) \<Rightarrow> (calls @ ms, None)))"

text \<open>A handle that was opened and not closed again.\<close>

definition left_open :: "handle_call list \<Rightarrow> bool" where
  "left_open calls \<longleftrightarrow> calls \<noteq> [] \<and> last calls \<noteq> CloseHandle"

lemma apply_pragmas_cases:
  obtains "apply_pragmas sq ps = (map Exec ps, None)" "\<forall>p \<in> set ps. sq_exec sq p"
  | pre p where "apply_pragmas sq ps = (map Exec pre @ [Exec p, CloseHandle], Some (ApplyPragma p))" "\<not> sq_exec sq p"
      "\<exists>rest. ps = pre @ p # rest"
proof (induction ps arbitrary: thesis)
  case (Cons p ps)
  show ?case
  proof (cases "sq_exec sq p")
    case True
    from Cons.IH show ?thesis
    proof cases
      case 1
      with True show ?thesis by (intro Cons.prems(1)) simp_all
    next
      case (2 pre q)
      with True show ?thesis by (intro Cons.prems(2)[of "p # pre" q]) auto
    qed
  next
    case False
    then show ?thesis by (intro Cons.prems(2)[of "[]" p]) simp_all
  qed
qed simp

text \<open>C31. Opening the store either succeeds, having set the connection limit and all pragmas in their
  order before migrating, or fails with no handle left open: every handle that was opened is
  closed, exactly once, as the last call.\<close>

theorem open_store_handle:
  "case open_store sq path of
     (calls, None) \<Rightarrow> calls = [OpenHandle path, MaxOpenConns 1] @ map Exec pragmas @ [MigrateUp] \<and> sq_up sq \<noteq> UpFailed
   | (calls, Some e) \<Rightarrow> \<not> left_open calls \<and>
       length (filter (\<lambda>c. c = CloseHandle) calls) = length (filter (\<lambda>c. c = OpenHandle path) calls) \<and>
       length (filter (\<lambda>c. c = CloseHandle) calls) \<le> 1"
proof -
  have f: "filter (\<lambda>c. c = CloseHandle) (map Exec ps) = []" "filter (\<lambda>c. c = OpenHandle path) (map Exec ps) = []" for ps
    by (induction ps) simp_all
  show ?thesis
  proof (cases "sq_open sq")
    case False
    then show ?thesis by (simp add: open_store_def open_db_def left_open_def)
  next
    case True
    show ?thesis
    proof (cases rule: apply_pragmas_cases[of sq pragmas])
      case 1
      with True have o: "open_db sq path = (OpenHandle path # MaxOpenConns 1 # map Exec pragmas, None)"
        by (simp add: open_db_def)
      show ?thesis
        by (cases "new_migrate sq") (auto simp: open_store_def o migrate_up_def left_open_def f pragmas_def)
    next
      case (2 pre p)
      with True have "open_db sq path = (OpenHandle path # MaxOpenConns 1 # map Exec pre @ [Exec p, CloseHandle], Some (ApplyPragma p))"
        by (simp add: open_db_def)
      then show ?thesis by (auto simp: open_store_def left_open_def f)
    qed
  qed
qed

section \<open>The log level\<close>

datatype log_level = LevelDebug | LevelInfo | LevelWarn | LevelError

definition new_logger :: "(string \<Rightarrow> string) \<Rightarrow> string \<Rightarrow> log_level" where
  "new_logger to_lower level =
    (let l = to_lower level in
     if l = ''debug'' then LevelDebug else if l = ''warn'' then LevelWarn else if l = ''error'' then LevelError else LevelInfo)"

end
