(* ===== verification/App.thy ===== *)
theory App
  imports Requests Startup
begin

text \<open>
  \<open>app/app.go\<close> and \<open>cmd/wha/main.go\<close>: the whole process, from the command line to its exit code. The
  goroutines of the error group (the initial update check, the MQTT connection, the control
  loop, the web server) and the janitor are interleaved one operation at a time; the context of
  the group is cancelled by a signal or by the first error.
\<close>

section \<open>The startup of the control loop\<close>

text \<open>
  \<open>Controller.Run\<close> before its first tick, while the web server is already running: the queries
  one at a time, and what each finds to be restored under the lock later.
\<close>

datatype startup_op = RecoverSession | LoadChargePower | LoadAutoProfile | LoadStartThreshold string | LoadTargetSoC string

definition startup_ops :: "startup_op list" where
  "startup_ops = [RecoverSession, LoadChargePower, LoadAutoProfile] @ map LoadStartThreshold latch_profiles @
     map LoadTargetSoC latch_profiles"

definition stored_value :: "'r recorder \<Rightarrow> string \<Rightarrow> ('c, 'r) controller \<Rightarrow> ('c, 'r) controller \<times> string option" where
  "stored_value ri key c = (case rec_get_setting ri key (c_rec c) of
     (r, Inl err) \<Rightarrow> (c\<lparr>c_rec := r\<rparr>, None)
   | (r, Inr raw) \<Rightarrow> (c\<lparr>c_rec := r\<rparr>, raw))"

fun startup_read :: "'r recorder \<Rightarrow> time \<Rightarrow> startup_op \<Rightarrow> ('c, 'r) controller \<Rightarrow> ('c, 'r) controller \<times> setting_value option" where
  "startup_read ri now RecoverSession c = (recover_dangling_session ri now c, None)"
| "startup_read ri now LoadChargePower c =
    (case stored_value ri charge_power_setting c of
       (c, Some mode) \<Rightarrow> (c, if valid_charge_power mode then Some (PowerValue mode) else None)
     | (c, None) \<Rightarrow> (c, None))"
| "startup_read ri now LoadAutoProfile c =
    (case stored_value ri auto_profile_setting c of
       (c, Some profile) \<Rightarrow> (c, if valid_auto_profile profile then Some (ProfileValue profile) else None)
     | (c, None) \<Rightarrow> (c, None))"
| "startup_read ri now (LoadStartThreshold profile) c =
    (case stored_value ri (setting_key start_threshold_key_prefix profile) c of
       (c, Some raw) \<Rightarrow> (c, case parse_float raw of
            None \<Rightarrow> None
          | Some w \<Rightarrow> if \<not> threshold_step_ok w \<or> w \<le> cfg_stop_threshold (c_cfg c) then None
              else Some (ThresholdValue profile w))
     | (c, None) \<Rightarrow> (c, None))"
| "startup_read ri now (LoadTargetSoC profile) c =
    (case stored_value ri (setting_key target_soc_key_prefix profile) c of
       (c, Some raw) \<Rightarrow> (c, case atoi raw of
            (pct, ok) \<Rightarrow> if \<not> ok \<or> \<not> target_soc_ok pct then None else Some (TargetValue profile pct))
     | (c, None) \<Rightarrow> (c, None))"

definition run_startup_op :: "'r recorder \<Rightarrow> time \<Rightarrow> startup_op \<Rightarrow> ('c, 'r) controller \<Rightarrow> ('c, 'r) controller" where
  "run_startup_op ri now op c = (case startup_read ri now op c of (c, None) \<Rightarrow> c | (c, Some x) \<Rightarrow> install_setting x c)"

lemma reply_cases:
  obtains r err where "x = (r, Inl err)" | r where "x = (r, Inr None)" | r raw where "x = (r, Inr (Some raw))"
  by (metis not_None_eq surj_pair sumE)

text \<open>Undisturbed, they are the startup.\<close>

lemma run_startup_op_simps:
  "run_startup_op ri now RecoverSession c = recover_dangling_session ri now c"
  "run_startup_op ri now LoadChargePower c = load_charge_power ri c"
  "run_startup_op ri now LoadAutoProfile c = load_auto_profile ri c"
  "run_startup_op ri now (LoadStartThreshold profile) c = load_start_threshold_of ri profile c"
  "run_startup_op ri now (LoadTargetSoC profile) c = load_target_soc_of ri profile c"
proof -
  note parts = run_startup_op_def stored_value_def
  show "run_startup_op ri now RecoverSession c = recover_dangling_session ri now c" by (simp add: parts)
  show "run_startup_op ri now LoadChargePower c = load_charge_power ri c"
    by (cases "rec_get_setting ri charge_power_setting (c_rec c)" rule: reply_cases) (simp_all add: parts load_charge_power_def)
  show "run_startup_op ri now LoadAutoProfile c = load_auto_profile ri c"
    by (cases "rec_get_setting ri auto_profile_setting (c_rec c)" rule: reply_cases) (simp_all add: parts load_auto_profile_def)
  show "run_startup_op ri now (LoadStartThreshold profile) c = load_start_threshold_of ri profile c"
    by (cases "rec_get_setting ri (setting_key start_threshold_key_prefix profile) (c_rec c)" rule: reply_cases)
      (simp_all add: parts load_start_threshold_of_def split: option.split)
  show "run_startup_op ri now (LoadTargetSoC profile) c = load_target_soc_of ri profile c"
    by (cases "rec_get_setting ri (setting_key target_soc_key_prefix profile) (c_rec c)" rule: reply_cases)
      (simp_all add: parts load_target_soc_of_def split: prod.split)
qed

lemma startup_ops_run: "fold (run_startup_op ri now) startup_ops c = startup ri now c"
  by (simp add: startup_ops_def startup_def load_start_threshold_def load_target_soc_def latch_profiles_def Let_def
      run_startup_op_simps)

section \<open>The process\<close>

datatype app_error = ListenFailed

text \<open>
  \<open>pr_check\<close>, \<open>pr_mqtt\<close>, \<open>pr_loop\<close> and \<open>pr_web\<close> say which goroutines of the group have not returned yet;
  \<open>pr_listening\<close> says that the listener of the web server is open to requests, \<open>pr_stopping\<close> that the
  goroutine beside it has called \<open>Shutdown\<close>, \<open>pr_closed\<close> that this call closed the listener.
  \<open>pr_inflight\<close> holds the requests to change a setting that are being served, \<open>pr_returned\<close> is the
  result of \<open>Run\<close>.
\<close>

record process =
  pr_cfg :: config
  pr_sys :: system
  pr_upd :: updater
  pr_dir :: request_dir
  pr_pending :: "startup_op list"
  pr_restore :: "setting_value option"
  pr_inflight :: "inflight list"
  pr_cancelled :: bool
  pr_error :: "app_error option"
  pr_check :: bool
  pr_mqtt :: bool
  pr_loop :: bool
  pr_web :: bool
  pr_listening :: bool
  pr_stopping :: bool
  pr_closed :: bool
  pr_store_open :: bool
  pr_returned :: "app_error option option"

text \<open>\<open>d\<close> is the database as the store finds it, \<open>dir\<close> the request directory.\<close>

definition start_process :: "config \<Rightarrow> string \<Rightarrow> db \<Rightarrow> request_dir \<Rightarrow> process" where
  "start_process cfg version d dir = \<lparr>pr_cfg = cfg,
     pr_sys = \<lparr>sy_ctrl = new_controller (c_control cfg) (new_client (c_mqtt cfg) (ev_loadpoint_id (c_evcc cfg))) d, sy_tick = None\<rparr>,
     pr_upd = new_updater (c_update cfg) version, pr_dir = dir, pr_pending = startup_ops, pr_restore = None,
     pr_inflight = [], pr_cancelled = False, pr_error = None,
     pr_check = up_enabled (c_update cfg), pr_mqtt = True, pr_loop = True, pr_web = True,
     pr_listening = False, pr_stopping = False, pr_closed = False, pr_store_open = True, pr_returned = None\<rparr>"

definition run_app :: "sqlite \<Rightarrow> config \<Rightarrow> string \<Rightarrow> db \<Rightarrow> request_dir \<Rightarrow> open_error + process" where
  "run_app sq cfg version d dir =
    (case snd (open_store sq (db_path (c_db cfg))) of Some e \<Rightarrow> Inl e | None \<Rightarrow> Inr (start_process cfg version d dir))"

definition process_world :: "process \<Rightarrow> world" where
  "process_world p = \<lparr>wd_web = c_web (pr_cfg p), wd_ctrl = sy_ctrl (pr_sys p), wd_upd = pr_upd p, wd_dir = pr_dir p\<rparr>"

definition on_sys :: "(system \<Rightarrow> system) \<Rightarrow> process \<Rightarrow> process" where
  "on_sys f p = p\<lparr>pr_sys := f (pr_sys p)\<rparr>"

definition started :: "process \<Rightarrow> bool" where
  "started p \<longleftrightarrow> pr_pending p = [] \<and> pr_restore p = None"

text \<open>Statements on a closed handle fail.\<close>

definition closed_driver :: driver where
  "closed_driver = \<lparr>drv_outcome = (\<lambda>_. SqlFail), drv_text = id, drv_now = (\<lambda>_. 0)\<rparr>"

definition live_env :: "environment \<Rightarrow> process \<Rightarrow> environment" where
  "live_env e p = (if pr_store_open p then e else e\<lparr>en_driver := closed_driver\<rparr>)"

abbreviation live_recorder :: "environment \<Rightarrow> process \<Rightarrow> db recorder" where
  "live_recorder e p \<equiv> store_recorder (en_driver (live_env e p))"

text \<open>
  \<open>Shutdown\<close> is called by a goroutine of its own once the context is cancelled. It closes the
  listener, and only that makes \<open>Listen\<close> return without an error; called before the server
  listens, it finds nothing to close. The server's goroutine returns before the requests it was
  serving are answered, and nothing waits for the janitor: both may go on while the group drains
  and after \<open>Run\<close> has returned and closed the store. The MQTT library does not call back with a
  connection after \<open>Disconnect\<close>.
\<close>

inductive app_step :: "environment \<Rightarrow> process \<Rightarrow> process \<Rightarrow> bool" for e :: environment where
  ap_signal: "pr_returned p = None \<Longrightarrow> app_step e p (p\<lparr>pr_cancelled := True\<rparr>)"
| ap_check: "pr_returned p = None \<Longrightarrow> pr_check p \<Longrightarrow>
    app_step e p (p\<lparr>pr_upd := fst (check slice rg t1 t2 file (pr_upd p)), pr_check := False\<rparr>)"
| ap_connect: "pr_returned p = None \<Longrightarrow> pr_mqtt p \<Longrightarrow> app_step e p (on_sys (on_client (on_connect subscribe_ok)) p)"
| ap_lost: "pr_returned p = None \<Longrightarrow> app_step e p (on_sys (on_client on_connection_lost) p)"
| ap_message: "pr_returned p = None \<Longrightarrow> app_step e p (on_sys (on_client (handle_message topic payload now)) p)"
| ap_mqtt_done: "pr_returned p = None \<Longrightarrow> pr_mqtt p \<Longrightarrow> pr_cancelled p \<Longrightarrow>
    app_step e p ((on_sys (on_client disconnect) p)\<lparr>pr_mqtt := False\<rparr>)"
| ap_read: "pr_returned p = None \<Longrightarrow> pr_loop p \<Longrightarrow> pr_restore p = None \<Longrightarrow> pr_pending p = op # ops \<Longrightarrow>
    startup_read (store_recorder (en_driver e)) now op (sy_ctrl (pr_sys p)) = (c, x) \<Longrightarrow>
    app_step e p ((on_sys (on_ctrl (\<lambda>_. c)) p)\<lparr>pr_pending := ops, pr_restore := x\<rparr>)"
| ap_restore: "pr_returned p = None \<Longrightarrow> pr_loop p \<Longrightarrow> pr_restore p = Some x \<Longrightarrow>
    app_step e p ((on_sys (on_ctrl (install_setting x)) p)\<lparr>pr_restore := None\<rparr>)"
| ap_begin: "pr_returned p = None \<Longrightarrow> pr_loop p \<Longrightarrow> started p \<Longrightarrow> pr_sys p = s \<Longrightarrow> sy_tick s = None \<Longrightarrow>
    snap = snapshot_of (cl_store (c_cmd (sy_ctrl s))) \<Longrightarrow> v = tick_read (sy_ctrl s) \<Longrightarrow>
    app_step e p (p\<lparr>pr_sys := s\<lparr>sy_tick := Some (Planned now snap v (tick_decide (en_oor e) now snap (c_cfg (sy_ctrl s)) v))\<rparr>\<rparr>)"
| ap_commit: "pr_returned p = None \<Longrightarrow> pr_loop p \<Longrightarrow> pr_sys p = s \<Longrightarrow> sy_tick s = Some (Planned now snap v pl) \<Longrightarrow>
    app_step e p (p\<lparr>pr_sys := s\<lparr>sy_ctrl := tick_commit now snap v pl (sy_ctrl s), sy_tick := Some (Committed now snap v pl)\<rparr>\<rparr>)"
| ap_effects: "pr_returned p = None \<Longrightarrow> pr_loop p \<Longrightarrow> pr_sys p = s \<Longrightarrow> sy_tick s = Some (Committed now snap v pl) \<Longrightarrow>
    app_step e p (p\<lparr>pr_sys := s\<lparr>sy_ctrl := tick_effects (evcc_commander (en_paho e)) (store_recorder (en_driver e)) now snap v pl
      (sy_ctrl s), sy_tick := None\<rparr>\<rparr>)"
| ap_loop_done: "pr_returned p = None \<Longrightarrow> pr_loop p \<Longrightarrow> started p \<Longrightarrow> sy_tick (pr_sys p) = None \<Longrightarrow>
    c_last_decision (sy_ctrl (pr_sys p)) \<noteq> None \<Longrightarrow> pr_cancelled p \<Longrightarrow> app_step e p (p\<lparr>pr_loop := False\<rparr>)"
| ap_prune: "started p \<Longrightarrow> 0 < cfg_retention_window (c_cfg (sy_ctrl (pr_sys p))) \<Longrightarrow>
    app_step e p (on_sys (on_ctrl (prune (live_recorder e p) now)) p)"
| ap_request: "pr_listening p \<Longrightarrow> we_env we = live_env e p \<Longrightarrow> \<not> setting_post ro m path \<Longrightarrow>
    dispatch ro srv m path we q (process_world p) = (w', r) \<Longrightarrow>
    app_step e p (p\<lparr>pr_sys := with_ctrl (pr_sys p) w', pr_upd := wd_upd w', pr_dir := wd_dir w'\<rparr>)"
| ap_ask: "pr_listening p \<Longrightarrow> \<forall>w. req = AskThreshold w \<longrightarrow> representable w \<Longrightarrow>
    accepted req (sy_ctrl (pr_sys p)) = Inr x \<Longrightarrow> app_step e p (p\<lparr>pr_inflight := pr_inflight p @ [ToStore x]\<rparr>)"
| ap_serve: "pr_inflight p = fs @ f # gs \<Longrightarrow> inflight_step (live_recorder e p) now f (sy_ctrl (pr_sys p)) = (c, f') \<Longrightarrow>
    app_step e p ((on_sys (on_ctrl (\<lambda>_. c)) p)\<lparr>pr_inflight := fs @ (case f' of None \<Rightarrow> [] | Some g \<Rightarrow> [g]) @ gs\<rparr>)"
| ap_listen: "pr_returned p = None \<Longrightarrow> pr_web p \<Longrightarrow> app_step e p (p\<lparr>pr_listening := True\<rparr>)"
| ap_stop: "pr_cancelled p \<Longrightarrow> \<not> pr_stopping p \<Longrightarrow>
    app_step e p (p\<lparr>pr_stopping := True, pr_closed := pr_web p \<and> pr_listening p\<rparr>)"
| ap_web_done: "pr_returned p = None \<Longrightarrow> pr_web p \<Longrightarrow> pr_closed p \<Longrightarrow> app_step e p (p\<lparr>pr_web := False\<rparr>)"
| ap_web_failed: "pr_returned p = None \<Longrightarrow> pr_web p \<Longrightarrow>
    app_step e p (p\<lparr>pr_web := False, pr_cancelled := True,
      pr_error := (if pr_error p = None then Some ListenFailed else pr_error p)\<rparr>)"
| ap_return: "pr_returned p = None \<Longrightarrow> \<not> pr_check p \<Longrightarrow> \<not> pr_mqtt p \<Longrightarrow> \<not> pr_loop p \<Longrightarrow> \<not> pr_web p \<Longrightarrow>
    app_step e p (p\<lparr>pr_returned := Some (pr_error p), pr_store_open := False\<rparr>)"

section \<open>The command line\<close>

datatype main_error = LoadError load_error | OpenError open_error

datatype main_outcome = PrintsVersion string | Fails main_error | Runs process

record build_info =
  bi_version :: string
  bi_commit :: string
  bi_date :: string

definition wha_main :: "string list \<Rightarrow> build_info \<Rightarrow> viper \<Rightarrow> sqlite \<Rightarrow> db \<Rightarrow> request_dir \<Rightarrow> main_outcome" where
  "wha_main args build vp sq d dir =
    (if 1 < length args \<and> (args ! 1 = ''--version'' \<or> args ! 1 = ''-version'') then
       PrintsVersion (''wha '' @ bi_version build @ '' (commit '' @ bi_commit build @ '', built '' @ bi_date build @ '')'')
     else case load vp of
       Inl err \<Rightarrow> Fails (LoadError err)
     | Inr cfg \<Rightarrow>
        (case run_app sq cfg (bi_version build) d dir of
           Inl err \<Rightarrow> Fails (OpenError err)
         | Inr p \<Rightarrow> Runs p))"

fun exit_code :: "app_error option \<Rightarrow> int" where
  "exit_code None = 0"
| "exit_code (Some e) = 1"

end
