(* ===== verification/AppProps.thy ===== *)
theory AppProps
  imports App
begin

text \<open>
  The process as a whole: what every one of its states satisfies.
\<close>

section \<open>A step of the process, seen from the control loop\<close>

lemma on_sys_simps [simp]:
  "pr_sys (on_sys f p) = f (pr_sys p)" "pr_cfg (on_sys f p) = pr_cfg p" "pr_pending (on_sys f p) = pr_pending p" "pr_restore (on_sys f p) = pr_restore p"
  "pr_inflight (on_sys f p) = pr_inflight p"
  "pr_cancelled (on_sys f p) = pr_cancelled p" "pr_error (on_sys f p) = pr_error p" "pr_check (on_sys f p) = pr_check p"
  "pr_mqtt (on_sys f p) = pr_mqtt p" "pr_loop (on_sys f p) = pr_loop p" "pr_web (on_sys f p) = pr_web p"
  "pr_listening (on_sys f p) = pr_listening p" "pr_stopping (on_sys f p) = pr_stopping p" "pr_closed (on_sys f p) = pr_closed p"
  "pr_store_open (on_sys f p) = pr_store_open p" "pr_returned (on_sys f p) = pr_returned p"
  by (simp_all add: on_sys_def)

lemma with_ctrl_simps [simp]: "sy_ctrl (with_ctrl s w) = wd_ctrl w" "sy_tick (with_ctrl s w) = sy_tick s"
  by (simp_all add: with_ctrl_def)

definition counted :: "nat \<Rightarrow> (client, db) controller \<Rightarrow> (client, db) controller" where
  "counted n c = c\<lparr>c_rec := (c_rec c)\<lparr>db_calls := n\<rparr>\<rparr>"

lemma counted_frame [simp]:
  "same_loop c (counted n c)" "c_ctrl (counted n c) = c_ctrl c" "sessions_ok (c_rec (counted n c)) = sessions_ok (c_rec c)"
  "open_session_ids (c_rec (counted n c)) = open_session_ids (c_rec c)"
  by (simp_all add: counted_def same_loop_def sessions_ok_def open_session_ids_def)

lemma counted_same: "counted (db_calls (c_rec c)) c = c"
  by (simp add: counted_def)

text \<open>A request that does not change a setting: reading only, or an override.\<close>

lemma plain_post:
  assumes "(POST, pattern, h) \<in> set routes" "pattern \<notin> set setting_routes"
  shows "wd_ctrl (fst (h e q w)) = wd_ctrl w \<or>
    (\<exists>now mode until bypass soc. wd_ctrl (fst (h e q w)) = set_override (we_recorder e) now mode until bypass soc (wd_ctrl w))"
proof -
  from assms(1) consider "h = handle_api_override" | "h = handle_update_check" | "h = handle_update_apply"
    | "pattern \<in> {''/api/charge-power'', ''/api/auto-profile'', ''/api/start-threshold'', ''/api/target-soc''}"
    unfolding routes_def by auto
  then show ?thesis
  proof cases
    case 1
    then show ?thesis by (simp add: override_world split: option.split sum.split) blast
  next
    case 4
    with assms(2) show ?thesis unfolding setting_routes_def set_simps by blast
  qed (simp_all add: apply_ctrl check_ctrl)
qed

lemma plain_request:
  assumes "dispatch ro srv m path we q w = (w', r)" "\<not> setting_post ro m path"
  obtains n where "wd_ctrl w' = counted n (wd_ctrl w)"
  | now mode until bypass soc where "wd_ctrl w' = set_override (we_recorder we) now mode until bypass soc (wd_ctrl w)"
proof -
  have w': "w' = fst (dispatch ro srv m path we q w)" by (simp add: assms(1))
  show ?thesis
  proof (cases rule: dispatch_cases[of ro srv m path we q w])
    case 1
    then show ?thesis by (intro that(1)[of "db_calls (c_rec (wd_ctrl w))"]) (simp add: w' counted_same)
  next
    case (2 pattern h)
    show ?thesis
    proof (cases m)
      case GET
      with get_handlers[of pattern h w "we\<lparr>we_catalogs := srv_bundle srv\<rparr>" q] 2(1,3) obtain n where
        "w' = w\<lparr>wd_ctrl := counted n (wd_ctrl w)\<rparr>" unfolding w' by (auto simp: only_read_def counted_def)
      then show ?thesis by (intro that(1)[of n]) simp
    next
      case POST
      with 2(2) assms(2) have "pattern \<notin> set setting_routes" by (auto simp: setting_post_def)
      with POST plain_post[of pattern h "we\<lparr>we_catalogs := srv_bundle srv\<rparr>" q w] 2(1,3) that(2)
        that(1)[of "db_calls (c_rec (wd_ctrl w))"]
      show ?thesis unfolding w' by (auto simp: counted_same)
    qed
  qed
qed

text \<open>What one step of the process does to the system: nothing but counted reads, one step of the
  system, the next query of the startup, the installation of a value, or a write of a request.\<close>

definition installable :: "process \<Rightarrow> setting_value set" where
  "installable p = {x. pr_restore p = Some x \<or> ToInstall x \<in> set (pr_inflight p)}"

lemma app_step_sys:
  assumes "app_step e p p'"
  obtains n where "pr_sys p' = on_ctrl (counted n) (pr_sys p)"
  | e' where "sys_step e' (pr_sys p) (pr_sys p')"
  | now op c x where "startup_read (store_recorder (en_driver e)) now op (sy_ctrl (pr_sys p)) = (c, x)"
      "pr_pending p \<noteq> []" "pr_restore p' = x" "pr_sys p' = on_ctrl (\<lambda>_. c) (pr_sys p)"
  | x where "x \<in> installable p" "pr_sys p' = on_ctrl (install_setting x) (pr_sys p)"
  | drv x where "pr_sys p' = on_ctrl (\<lambda>c. fst (store_setting (store_recorder drv) x c)) (pr_sys p)"
  | drv now action where "pr_sys p' = on_ctrl (audit (store_recorder drv) now ''command'' action) (pr_sys p)"
proof -
  have same: "pr_sys p' = on_ctrl (counted (db_calls (c_rec (sy_ctrl (pr_sys p))))) (pr_sys p)" if "pr_sys p' = pr_sys p"
    using that by (simp add: on_ctrl_def counted_same)
  from assms show ?thesis
  proof cases
    case (ap_request we ro m path srv q w' r)
    have c: "wd_ctrl (process_world p) = sy_ctrl (pr_sys p)" by (simp add: process_world_def)
    from ap_request(5,4) show ?thesis
    proof (cases rule: plain_request)
      case (1 n)
      then have "pr_sys p' = on_ctrl (counted n) (pr_sys p)" by (simp add: ap_request(1) with_ctrl_def on_ctrl_def c)
      then show ?thesis by (rule that(1))
    next
      case (2 now mode until bypass soc)
      then have "pr_sys p' = on_ctrl (set_override (live_recorder e p) now mode until bypass soc) (pr_sys p)"
        by (simp add: ap_request(1,3) with_ctrl_def on_ctrl_def c)
      then show ?thesis by (metis that(2) st_override)
    qed
  next
    case (ap_serve fs f gs now c f')
    show ?thesis
    proof (cases f)
      case (ToStore x)
      with ap_serve(3) have "c = fst (store_setting (live_recorder e p) x (sy_ctrl (pr_sys p)))"
        by (auto split: prod.splits option.splits)
      then have "pr_sys p' = on_ctrl (\<lambda>c. fst (store_setting (live_recorder e p) x c)) (pr_sys p)"
        by (simp add: ap_serve(1) on_ctrl_def)
      then show ?thesis by (rule that(5))
    next
      case (ToInstall x)
      with ap_serve have "pr_sys p' = on_ctrl (install_setting x) (pr_sys p)" "x \<in> installable p"
        by (auto simp: on_ctrl_def installable_def)
      then show ?thesis by (intro that(4)) simp_all
    next
      case (ToAudit action)
      with ap_serve have "pr_sys p' = on_ctrl (audit (live_recorder e p) now ''command'' action) (pr_sys p)"
        by (simp add: on_ctrl_def)
      then show ?thesis by (rule that(6))
    qed
  next
    case (ap_restore x)
    then show ?thesis by (intro that(4)) (simp_all add: installable_def)
  next
    case (ap_prune now)
    then have "sys_step (live_env e p) (pr_sys p) (pr_sys p')" by (auto intro: sys_step.intros)
    then show ?thesis by (rule that(2))
  qed (use that(1,2,3) same in \<open>auto intro: sys_step.intros\<close>)
qed

section \<open>Invariants of the process\<close>

lemma stored_value_loop: "same_loop c (fst (stored_value ri key c))" "c_ctrl (fst (stored_value ri key c)) = c_ctrl c"
  by (auto simp: stored_value_def same_loop_def split: prod.split sum.split)

lemma startup_read_same: "same_loop c (fst (startup_read ri now op c))"
  using stored_value_loop(1)[of c ri]
  by (cases op) (simp_all add: recover_loop split_beta split: option.split)

lemma startup_read_ctrl: "c_ctrl (fst (startup_read ri now op c)) = c_ctrl c"
proof (cases op)
  case RecoverSession
  then show ?thesis by (simp add: recover_dangling_session_def split: prod.split sum.split option.split)
qed (use stored_value_loop(2)[of ri _ c] in \<open>simp_all add: split_beta split: option.split\<close>)

text \<open>What has been read to be restored is a value the operator could have chosen.\<close>

fun value_ok :: "control \<Rightarrow> setting_value \<Rightarrow> bool" where
  "value_ok cfg (PowerValue mode) = valid_charge_power mode"
| "value_ok cfg (ProfileValue profile) = valid_auto_profile profile"
| "value_ok cfg (ThresholdValue profile w) = (threshold_step_ok w \<and> \<not> w \<le> cfg_stop_threshold cfg)"
| "value_ok cfg (TargetValue profile pct) = target_soc_ok pct"

lemma startup_read_ok: "startup_read ri now op c = (c', Some x) \<Longrightarrow> value_ok (c_cfg c) x"
  using stored_value_loop(1)[of c ri, THEN same_loop_cfg]
  by (cases op) (auto split: prod.splits option.splits if_splits simp: prod_eq_iff)

lemma install_same: "same_loop c (install_setting x c)"
  by (cases x) (simp_all add: same_loop_def)

lemma install_rec [simp]: "c_rec (install_setting x c) = c_rec c"
  by (cases x) simp_all

lemma install_wf: "settings_wf cfg (c_ctrl c) \<Longrightarrow> value_ok cfg x \<Longrightarrow> settings_wf cfg (c_ctrl (install_setting x c))"
  by (cases x) (auto simp: settings_wf_def)

lemma accepted_ok: "accepted req c = Inr x \<Longrightarrow> value_ok (c_cfg c) x"
  by (cases req) (auto split: if_splits)

definition values_ok :: "control \<Rightarrow> process \<Rightarrow> bool" where
  "values_ok cfg p \<longleftrightarrow> (\<forall>x. pr_restore p = Some x \<or> ToStore x \<in> set (pr_inflight p) \<or> ToInstall x \<in> set (pr_inflight p) \<longrightarrow> value_ok cfg x)"

lemma store_same: "same_loop c (fst (store_setting ri x c))" "c_ctrl (fst (store_setting ri x c)) = c_ctrl c"
  by (simp_all add: store_setting_def same_loop_def split: prod.split)

lemma audit_same: "same_loop c (audit ri now k a c)"
  by (simp add: same_loop_def frame)

lemma startup_read_sessions:
  assumes "store_sessions.session_ok c" "c_session_id c = 0"
  shows "store_sessions.session_ok (fst (startup_read (store_recorder drv) now op c))"
proof -
  have v: "sessions_ok (c_rec c)" using assms(1) by (simp add: store_sessions.session_ok_def)
  have g: "sessions_ok (c_rec (fst (stored_value (store_recorder drv) key c)))" for key
    using store_sessions.valid_frame(1)[OF v, of drv key]
    by (cases "get_setting drv key (c_rec c)") (simp add: stored_value_def split: sum.split)
  have "sessions_ok (c_rec (fst (startup_read (store_recorder drv) now op c)))"
    using g recover_sessions_ok[OF v] by (cases op) (simp_all add: split_beta split: option.split)
  with assms startup_read_same[of c "store_recorder drv" now op] show ?thesis
    by (simp add: store_sessions.session_ok_def same_loop_def)
qed

lemma wire_inv_app_step:
  assumes "app_step e p p'" "control_ok cfg" "wire_inv cfg (pr_sys p) \<and> values_ok cfg p"
  shows "wire_inv cfg (pr_sys p')"
proof -
  have w: "wire_inv cfg (pr_sys p)" "settings_wf cfg (c_ctrl (sy_ctrl (pr_sys p)))" "c_cfg (sy_ctrl (pr_sys p)) = cfg"
    using assms(3) by (simp_all add: wire_inv_def)
  from assms(1) show ?thesis
  proof (cases rule: app_step_sys)
    case (1 n)
    with w show ?thesis by (simp add: wire_inv_on_ctrl)
  next
    case 2
    then show ?thesis using assms(2) w(1) by (rule wire_inv_step)
  next
    case (3 now op c x)
    then have "same_loop (sy_ctrl (pr_sys p)) c" "c_ctrl c = c_ctrl (sy_ctrl (pr_sys p))"
      using startup_read_same[of "sy_ctrl (pr_sys p)" "store_recorder (en_driver e)" now op]
        startup_read_ctrl[of "store_recorder (en_driver e)" now op "sy_ctrl (pr_sys p)"] by simp_all
    with 3 w show ?thesis by (simp add: wire_inv_on_ctrl)
  next
    case (4 x)
    with assms(3) have "value_ok cfg x" by (auto simp: values_ok_def installable_def)
    with 4 w show ?thesis by (simp add: wire_inv_on_ctrl install_same install_wf)
  next
    case (5 drv x)
    with w show ?thesis by (simp add: wire_inv_on_ctrl store_same)
  next
    case (6 drv now action)
    with w show ?thesis by (simp add: wire_inv_on_ctrl audit_same frame)
  qed
qed

lemma values_ok_step:
  assumes "app_step e p p'" "values_ok (c_cfg (sy_ctrl (pr_sys p))) p"
  shows "values_ok (c_cfg (sy_ctrl (pr_sys p))) p'"
  using assms(1)
proof cases
  case (ap_read op ops now c x)
  then show ?thesis using startup_read_ok[of "store_recorder (en_driver e)" now op "sy_ctrl (pr_sys p)" c] assms(2)
    by (auto simp: values_ok_def)
next
  case (ap_ask req x)
  with accepted_ok[of req "sy_ctrl (pr_sys p)" x] assms(2) show ?thesis by (auto simp: values_ok_def)
next
  case (ap_serve fs f gs now c f')
  have "\<forall>g. f' = Some g \<longrightarrow> (\<exists>x. f = ToStore x \<and> g = ToInstall x) \<or> (\<exists>a. g = ToAudit a)"
    using ap_serve(3) by (cases f) (auto split: prod.splits option.splits)
  with ap_serve assms(2) show ?thesis by (auto simp: values_ok_def split: option.splits)
qed (use assms(2) in \<open>auto simp: values_ok_def\<close>)

text \<open>
  The lifecycle: no tick before the startup is complete; a goroutine of the group that has
  returned has seen the cancellation and has left its part at rest; the store is open until
  all have returned.
\<close>

definition broker_up :: "process \<Rightarrow> bool" where
  "broker_up p \<longleftrightarrow> sn_broker_connected (es_snap (cl_store (c_cmd (sy_ctrl (pr_sys p)))))"

definition lifecycle_ok :: "process \<Rightarrow> bool" where
  "lifecycle_ok p \<longleftrightarrow>
     (\<not> started p \<longrightarrow> sy_tick (pr_sys p) = None \<and> pr_loop p) \<and>
     (\<not> pr_mqtt p \<longrightarrow> pr_cancelled p \<and> \<not> broker_up p) \<and>
     (\<not> pr_loop p \<longrightarrow> pr_cancelled p \<and> sy_tick (pr_sys p) = None) \<and>
     (\<not> pr_web p \<longrightarrow> pr_cancelled p) \<and> (pr_stopping p \<longrightarrow> pr_cancelled p) \<and>
     (pr_closed p \<longrightarrow> pr_stopping p \<and> pr_listening p) \<and> (pr_error p \<noteq> None \<longrightarrow> pr_cancelled p) \<and>
     (pr_store_open p \<longleftrightarrow> pr_returned p = None) \<and>
     (pr_returned p \<noteq> None \<longrightarrow>
        pr_returned p = Some (pr_error p) \<and> \<not> pr_check p \<and> \<not> pr_mqtt p \<and> \<not> pr_loop p \<and> \<not> pr_web p)"

lemma broker_frame:
  "broker_up (p\<lparr>pr_cancelled := b\<rparr>) = broker_up p" "broker_up (p\<lparr>pr_upd := u\<rparr>) = broker_up p"
  "broker_up (p\<lparr>pr_check := b\<rparr>) = broker_up p" "broker_up (p\<lparr>pr_mqtt := b\<rparr>) = broker_up p"
  "broker_up (p\<lparr>pr_loop := b\<rparr>) = broker_up p" "broker_up (p\<lparr>pr_web := b\<rparr>) = broker_up p"
  "broker_up (p\<lparr>pr_error := er\<rparr>) = broker_up p" "broker_up (p\<lparr>pr_returned := r\<rparr>) = broker_up p"
  "broker_up (p\<lparr>pr_store_open := b\<rparr>) = broker_up p" "broker_up (p\<lparr>pr_inflight := fs\<rparr>) = broker_up p"
  "broker_up (p\<lparr>pr_listening := b\<rparr>) = broker_up p" "broker_up (p\<lparr>pr_stopping := b\<rparr>) = broker_up p"
  "broker_up (p\<lparr>pr_closed := b\<rparr>) = broker_up p"
  by (simp_all add: broker_up_def)

text \<open>Publishing does not touch the readings.\<close>

lemma publish_store: "cl_store (fst (publish paho topic payload c)) = cl_store c"
  by (simp add: publish_def Let_def)

lemma publish_mode_store: "cl_store (c_cmd (publish_mode (evcc_commander paho) ri now d inp s f c)) = cl_store (c_cmd c)"
  using publish_store[of paho "tp_mode_set (cl_topics (c_cmd c))" "dec_mode d" "c_cmd c"]
  by (auto simp: publish_mode_def set_mode_def Let_def frame record_event_def split: prod.split option.split)

lemma publish_limit_store:
  "cl_store (c_cmd (publish_limit_soc (evcc_commander paho) ri now t inp s b f c)) = cl_store (c_cmd c)"
  using publish_store[of paho "tp_limit_soc_set (cl_topics (c_cmd c))" "itoa t" "c_cmd c"]
  by (auto simp: publish_limit_soc_def set_limit_soc_def Let_def frame record_event_def split: prod.split option.split)

lemma tick_effects_store:
  "cl_store (c_cmd (tick_effects (evcc_commander paho) ri now snap v p c)) = cl_store (c_cmd c)"
  by (simp add: tick_effects_split frame publish_mode_store publish_limit_store)

lemma fst_if_rule: "P (fst x) \<Longrightarrow> P (fst y) \<Longrightarrow> P (fst (if b then x else y))"
  by simp

lemma apply_message_broker: "sn_broker_connected (es_snap (fst (apply_message t p now st))) = sn_broker_connected (es_snap st)"
proof -
  have "sn_broker_connected (fst (apply_snap (es_topics st) t p now (es_snap st))) = sn_broker_connected (es_snap st)"
    unfolding apply_snap_def split_beta
    by (rule fst_if_rule [where P = "\<lambda>s. sn_broker_connected s = sn_broker_connected (es_snap st)"], simp)+ simp
  then show ?thesis by (simp add: apply_message_def split_beta)
qed

lemma broker_steps:
  "broker_up (on_sys (on_client on_connection_lost) p) = False"
  "broker_up (on_sys (on_client disconnect) p) = False"
  "broker_up (on_sys (on_client (handle_message t b now)) p) = broker_up p"
  by (simp_all add: broker_up_def on_connection_lost_def disconnect_def client_set_connected_def set_broker_connected_def
      handle_message_def apply_message_broker)

lemma lifecycle_start: "lifecycle_ok (start_process cfg version d dir)"
  by (simp add: lifecycle_ok_def started_def start_process_def)

lemma inflight_same: "same_loop c (fst (inflight_step ri now f c))"
  using store_same(1)[of c ri] install_same audit_same
  by (cases f) (simp_all add: split_beta split: option.split)

lemma lifecycle_step:
  assumes "app_step e p p'" "lifecycle_ok p"
  shows "lifecycle_ok p'"
  using assms(1)
proof cases
  case (ap_request we ro m path srv q w' r)
  have c: "wd_ctrl (process_world p) = sy_ctrl (pr_sys p)" by (simp add: process_world_def)
  have "c_cmd (wd_ctrl w') = c_cmd (sy_ctrl (pr_sys p))"
    using ap_request(5,4)
  proof (cases rule: plain_request)
    case (2 now mode until bypass soc)
    then show ?thesis
      using same_loop_web(1)[of "sy_ctrl (pr_sys p)" "live_recorder e p" now mode until bypass soc]
      by (simp add: c ap_request(3) same_loop_def)
  qed (simp add: c counted_def)
  then have "broker_up p' = broker_up p" by (simp add: broker_up_def ap_request(1))
  with assms(2) show ?thesis by (simp add: lifecycle_ok_def started_def ap_request(1))
next
  case (ap_serve fs f gs now c f')
  then have "broker_up p' = broker_up p"
    using inflight_same[of "sy_ctrl (pr_sys p)" "live_recorder e p" now f] by (simp add: broker_up_def same_loop_def)
  with assms(2) ap_serve show ?thesis by (simp add: lifecycle_ok_def started_def)
next
  case (ap_read op ops now c x)
  then have "broker_up p' = broker_up p"
    using startup_read_same[of "sy_ctrl (pr_sys p)" "store_recorder (en_driver e)" now op]
    by (simp add: broker_up_def same_loop_def)
  with assms(2) ap_read show ?thesis by (simp add: lifecycle_ok_def started_def)
next
  case (ap_restore x)
  then have "broker_up p' = broker_up p"
    using install_same[of "sy_ctrl (pr_sys p)" x] by (simp add: broker_up_def same_loop_def)
  with assms(2) ap_restore show ?thesis by (simp add: lifecycle_ok_def started_def)
next
  case (ap_prune now)
  then have "broker_up p' = broker_up p"
    using same_loop_startup_parts(4)[of "sy_ctrl (pr_sys p)" "live_recorder e p" now]
    by (simp add: broker_up_def same_loop_def)
  with assms(2) ap_prune show ?thesis by (simp add: lifecycle_ok_def started_def)
next
  case (ap_commit s now snap v pl)
  then have "broker_up p' = broker_up p" by (simp add: broker_up_def frame)
  with assms(2) ap_commit show ?thesis by (simp add: lifecycle_ok_def started_def)
next
  case (ap_effects s now snap v pl)
  then have "broker_up p' = broker_up p" by (simp add: broker_up_def tick_effects_store)
  with assms(2) ap_effects show ?thesis by (simp add: lifecycle_ok_def started_def)
next
  case (ap_begin s snap v now)
  then have "broker_up p' = broker_up p" by (simp add: broker_up_def)
  with assms(2) ap_begin show ?thesis by (simp add: lifecycle_ok_def started_def)
qed (use assms(2) in \<open>simp_all add: lifecycle_ok_def started_def broker_steps broker_frame\<close>)

section \<open>What holds while the process runs\<close>

lemma wha_main_runs:
  assumes "wha_main args build vp sq d dir = Runs p0"
  obtains cfg where "p0 = start_process cfg (bi_version build) d dir" "control_ok (c_control cfg)" "load vp = Inr cfg"
  using assms validate_NoneD(1) load_validated
  by (auto simp: wha_main_def run_app_def split: if_splits sum.splits option.splits)

lemma wire_inv_start:
  assumes "control_ok (c_control cfg)"
  shows "wire_inv (c_control cfg) (pr_sys (start_process cfg version d dir))"
proof -
  let ?c = "new_controller (c_control cfg) (new_client (c_mqtt cfg) (ev_loadpoint_id (c_evcc cfg))) d"
  have "evcc.wire_ok ?c" by (simp add: evcc.wire_ok_def new_controller_def wire_synced_def wire_safe_def)
  with new_settings_wf[OF assms, of "new_client (c_mqtt cfg) (ev_loadpoint_id (c_evcc cfg))" d] show ?thesis
    by (simp add: wire_inv_def start_process_def new_controller_def)
qed

lemma app_invariants:
  assumes "control_ok (c_control cfg)" "(app_step e)\<^sup>*\<^sup>* (start_process cfg version d dir) p"
  shows "wire_inv (c_control cfg) (pr_sys p)" "lifecycle_ok p"
proof -
  from assms(2) have "(wire_inv (c_control cfg) (pr_sys p) \<and> values_ok (c_control cfg) p) \<and> lifecycle_ok p"
  proof (induction rule: rtranclp_induct)
    case base
    have "values_ok (c_control cfg) (start_process cfg version d dir)" by (simp add: values_ok_def start_process_def)
    with wire_inv_start[OF assms(1)] lifecycle_start show ?case by blast
  next
    case (step q q')
    from step.IH have "c_cfg (sy_ctrl (pr_sys q)) = c_control cfg" by (simp add: wire_inv_def)
    with step values_ok_step[OF step.hyps(2)] have "values_ok (c_control cfg) q'" by simp
    with step.IH wire_inv_app_step[OF step.hyps(2) assms(1)] lifecycle_step[OF step.hyps(2)] show ?case by blast
  qed
  then show "wire_inv (c_control cfg) (pr_sys p)" "lifecycle_ok p" by blast+
qed

text \<open>Until the startup is over, the loop holds no session.\<close>

lemma no_tick_no_session:
  assumes "sys_step e s s'" "sy_tick s = None"
  shows "c_session_id (sy_ctrl s') = c_session_id (sy_ctrl s)"
  using assms(1)
  by cases (use assms(2) in \<open>simp_all add: same_loop_web[unfolded same_loop_def] same_loop_startup_parts(4)[unfolded same_loop_def]\<close>)

definition sessions_inv :: "process \<Rightarrow> bool" where
  "sessions_inv p \<longleftrightarrow> store_sessions.session_ok (sy_ctrl (pr_sys p)) \<and>
     (\<not> started p \<longrightarrow> c_session_id (sy_ctrl (pr_sys p)) = 0)"

lemma app_step_started: "app_step e p p' \<Longrightarrow> started p \<Longrightarrow> started p'"
  by (erule app_step.cases) (simp_all add: started_def)

lemma sessions_inv_step:
  assumes "app_step e p p'" "lifecycle_ok p" "sessions_inv p"
  shows "sessions_inv p'"
proof -
  have i: "store_sessions.session_ok (sy_ctrl (pr_sys p))"
      "\<not> started p \<Longrightarrow> c_session_id (sy_ctrl (pr_sys p)) = 0 \<and> sy_tick (pr_sys p) = None"
    using assms(2,3) by (auto simp: sessions_inv_def lifecycle_ok_def)
  have pend: "\<not> started p' \<Longrightarrow> \<not> started p" using app_step_started[OF assms(1)] by blast
  from assms(1) show ?thesis
  proof (cases rule: app_step_sys)
    case (1 n)
    have "store_sessions.session_ok (counted n (sy_ctrl (pr_sys p)))"
      by (rule store_sessions.session_ok_same[OF i(1)]) (use i(1) in \<open>simp_all add: store_sessions.session_ok_def\<close>)
    with 1 i pend show ?thesis by (simp add: sessions_inv_def) (simp add: counted_def)
  next
    case 2
    with i pend session_ok_step[OF 2] no_tick_no_session[OF 2] show ?thesis by (simp add: sessions_inv_def)
  next
    case (3 now op c x)
    then have "c_session_id (sy_ctrl (pr_sys p)) = 0" using i(2) by (simp add: started_def)
    with 3 startup_read_sessions[OF i(1), of "en_driver e" now op]
      startup_read_same[of "sy_ctrl (pr_sys p)" "store_recorder (en_driver e)" now op]
    show ?thesis by (simp add: sessions_inv_def same_loop_def)
  next
    case (4 x)
    have "store_sessions.session_ok (install_setting x (sy_ctrl (pr_sys p)))"
      by (rule store_sessions.session_ok_same[OF i(1) install_same]) (use i(1) in \<open>simp add: store_sessions.session_ok_def\<close>)
    with 4 i(2) pend install_same[of "sy_ctrl (pr_sys p)" x] show ?thesis by (simp add: sessions_inv_def same_loop_def)
  next
    case (5 drv x)
    have "store_sessions.session_ok (fst (store_setting (store_recorder drv) x (sy_ctrl (pr_sys p))))"
      by (rule store_sessions.session_ok_same[OF i(1) store_same(1)])
        (use i(1) store_sessions.valid_frame(2) store_sessions.open_frame(2) in \<open>simp add: store_sessions.session_ok_def store_setting_def split_beta\<close>)
    with 5 i(2) pend store_same(1)[of "sy_ctrl (pr_sys p)" "store_recorder drv" x] show ?thesis
      by (simp add: sessions_inv_def same_loop_def)
  next
    case (6 drv now action)
    have "store_sessions.session_ok (audit (store_recorder drv) now ''command'' action (sy_ctrl (pr_sys p)))"
      by (rule store_sessions.session_ok_same[OF i(1) audit_same])
        (use i(1) store_sessions.valid_frame(3) store_sessions.open_frame(3) in \<open>simp add: store_sessions.session_ok_def audit_def\<close>)
    with 6 i(2) pend show ?thesis by (simp add: sessions_inv_def frame)
  qed
qed

text \<open>C3. The process as a whole, from the command line on, with the startup of the loop, the broker, the
  ticks, the janitor and any web requests interleaved, and after a cancellation too: it runs on
  a validated configuration, only safe commands are ever acknowledged and the memory of them is
  right, the operator's settings are well formed, and on a well-formed session table it stays
  well formed and a session id the loop holds is that of an open row.\<close>

theorem process_safe:
  assumes "wha_main args build vp sq d dir = Runs p0" and "(app_step e)\<^sup>*\<^sup>* p0 p"
  shows "load vp = Inr (pr_cfg p0) \<and> control_ok (c_control (pr_cfg p0)) \<and>
    wire_safe (acked_commands (c_cmd (sy_ctrl (pr_sys p)))) \<and>
    wire_synced (acked_commands (c_cmd (sy_ctrl (pr_sys p)))) (sy_ctrl (pr_sys p)) \<and>
    settings_wf (c_control (pr_cfg p0)) (c_ctrl (sy_ctrl (pr_sys p))) \<and>
    (sessions_ok d \<longrightarrow> sessions_ok (c_rec (sy_ctrl (pr_sys p))) \<and>
      (c_session_id (sy_ctrl (pr_sys p)) \<noteq> 0 \<longrightarrow>
        c_session_id (sy_ctrl (pr_sys p)) \<in> open_session_ids (c_rec (sy_ctrl (pr_sys p)))))"
proof -
  obtain cfg where cfg: "p0 = start_process cfg (bi_version build) d dir" "control_ok (c_control cfg)" "load vp = Inr cfg"
    using wha_main_runs[OF assms(1)] .
  have w: "wire_inv (c_control cfg) (pr_sys p)" using app_invariants(1)[OF cfg(2)] assms(2) cfg(1) by blast
  have "sessions_inv p" if "sessions_ok d"
    using assms(2)
  proof (induction rule: rtranclp_induct)
    case base
    with that show ?case
      by (simp add: cfg(1) start_process_def sessions_inv_def store_sessions.session_ok_def new_loop)
  next
    case (step q q')
    with app_invariants(2)[OF cfg(2)] cfg(1) show ?case by (blast intro: sessions_inv_step)
  qed
  with w cfg show ?thesis
    by (simp add: wire_inv_def evcc.wire_ok_def sessions_inv_def store_sessions.session_ok_def start_process_def)
qed


section \<open>A request during the startup\<close>

text \<open>A request that falls between the query of a loader and its critical section is undone in memory,
  though it was answered with success and stored.\<close>

lemma startup_race:
  assumes "db_setting (c_rec c) charge_power_setting = Some EnableModeNow"
  shows "\<exists>c1 x. startup_read (store_recorder (good_driver rd wall)) t0 LoadChargePower c = (c1, Some x) \<and>
    snd (set_charge_power (store_recorder (good_driver rd wall)) t1 EnableModePV c1) = None \<and>
    (let c3 = install_setting x (fst (set_charge_power (store_recorder (good_driver rd wall)) t1 EnableModePV c1)) in
     cs_charge_power (c_ctrl c3) = EnableModeNow \<and> db_setting (c_rec c3) charge_power_setting = Some EnableModePV)"
proof -
  let ?ri = "store_recorder (good_driver rd wall)"
  define c1 where "c1 = c\<lparr>c_rec := called (c_rec c)\<rparr>"
  have "startup_read ?ri t0 LoadChargePower c = (c1, Some (PowerValue EnableModeNow))"
    using assms by (simp add: stored_value_def get_setting_def c1_def valid_charge_power_def flip: db_setting_def)
  moreover have "set_charge_power ?ri t1 EnableModePV c1 = (audit ?ri t1 ''command'' (''charge_power:'' @ EnableModePV)
      (c1\<lparr>c_rec := fst (set_setting (good_driver rd wall) charge_power_setting EnableModePV (c_rec c1)),
          c_ctrl := (c_ctrl c1)\<lparr>cs_charge_power := EnableModePV\<rparr>\<rparr>), None)"
    by (simp add: set_charge_power_def valid_charge_power_def) (subst set_setting_outcome(1), simp)
  ultimately show ?thesis
    by (simp add: Let_def audit_parts set_setting_outcome(2))
qed

section \<open>Witnesses\<close>

definition demo_viper :: viper where
  "demo_viper = \<lparr>vp_marshal = True, vp_seed = True, vp_config_env = '''', vp_merge_path = (\<lambda>_. Merged),
     vp_merge_found = FileNotFound, vp_unmarshal = Some\<rparr>"

definition demo_sqlite :: sqlite where
  "demo_sqlite = \<lparr>sq_open = True, sq_exec = (\<lambda>_. True), sq_source = True, sq_driver = True, sq_migrator = True, sq_up = UpNoChange\<rparr>"

definition demo_process :: process where
  "demo_process = start_process default_config ''dev'' empty_db Map.empty"

definition demo_build :: build_info where
  "demo_build = \<lparr>bi_version = ''dev'', bi_commit = ''none'', bi_date = ''unknown''\<rparr>"

lemma demo_runs: "wha_main [''wha''] demo_build demo_viper demo_sqlite empty_db Map.empty = Runs demo_process"
proof -
  have "load demo_viper = Inr default_config" by (simp add: load_def overlay_file_def demo_viper_def validate_default)
  moreover have "snd (open_store demo_sqlite path) = None" for path
    by (simp add: open_store_def open_db_def pragmas_def migrate_up_def new_migrate_def demo_sqlite_def)
  ultimately show ?thesis by (simp add: wha_main_def run_app_def demo_process_def demo_build_def)
qed

definition demo_stopping :: process where
  "demo_stopping = demo_process\<lparr>pr_cancelled := True\<rparr>"

lemma demo_stopping_reached: "(app_step demo_env)\<^sup>*\<^sup>* demo_process demo_stopping"
  unfolding demo_stopping_def
  by (rule r_into_rtranclp, rule ap_signal) (simp add: demo_process_def start_process_def)

theorem process_safe_witness:
  "wire_safe (acked_commands (c_cmd (sy_ctrl (pr_sys demo_stopping)))) \<and> sessions_ok (c_rec (sy_ctrl (pr_sys demo_stopping)))"
  using process_safe[OF demo_runs demo_stopping_reached] by simp

end
