(* ===== verification/AppEnds.thy ===== *)
theory AppEnds
  imports AppProps
begin

text \<open>
  The end of the process: a cancelled process always has a way out, and takes it in every run in
  which no goroutine is left behind, if the server was listening when \<open>Shutdown\<close> was called.
\<close>

section \<open>A way out\<close>

text \<open>Within \<open>k\<close> steps a state of the given kind is reached.\<close>

definition goes :: "environment \<Rightarrow> nat \<Rightarrow> process \<Rightarrow> (process \<Rightarrow> bool) \<Rightarrow> bool" where
  "goes e k p Q \<longleftrightarrow> (\<exists>n \<le> k. \<exists>p'. (app_step e ^^ n) p p' \<and> Q p')"

lemma goes_now: "Q p \<Longrightarrow> goes e k p Q"
  unfolding goes_def by (intro exI[of _ 0] exI[of _ p]) simp

lemma goes_step: "app_step e p p' \<Longrightarrow> goes e k p' Q \<Longrightarrow> goes e (Suc k) p Q"
  unfolding goes_def by (metis Suc_le_mono relpowp_Suc_I2)

lemma goes_mono: "goes e k p Q \<Longrightarrow> k \<le> l \<Longrightarrow> (\<And>q. Q q \<Longrightarrow> R q) \<Longrightarrow> goes e l p R"
  unfolding goes_def by (meson le_trans)

lemma goes_trans:
  assumes "goes e k p Q" "\<And>p'. Q p' \<Longrightarrow> goes e l p' R"
  shows "goes e (k + l) p R"
proof -
  obtain n p' where n: "n \<le> k" "(app_step e ^^ n) p p'" "Q p'" using assms(1) by (auto simp: goes_def)
  with assms(2) obtain m p'' where m: "m \<le> l" "(app_step e ^^ m) p' p''" "R p''" unfolding goes_def by blast
  from n m have "(app_step e ^^ (n + m)) p p''" "n + m \<le> k + l" by (auto simp: relpowp_add)
  with m(3) show ?thesis unfolding goes_def by blast
qed

text \<open>The server has returned, or \<open>Shutdown\<close> closes or has closed its listener.\<close>

definition heard :: "process \<Rightarrow> bool" where
  "heard p \<longleftrightarrow> \<not> pr_web p \<or> pr_listening p \<and> (pr_stopping p \<longrightarrow> pr_closed p)"

definition ending :: "app_error option \<Rightarrow> process \<Rightarrow> bool" where
  "ending er p \<longleftrightarrow> pr_returned p = None \<and> pr_cancelled p \<and> pr_error p = er \<and> heard p"

text \<open>The loop finishes the startup and the tick it is in, ticks at least once, and returns.\<close>

definition startup_left :: "process \<Rightarrow> nat" where
  "startup_left p = 2 * length (pr_pending p) + (if pr_restore p = None then 0 else 1)"

lemma startup_ends:
  "ending er p \<Longrightarrow> pr_loop p \<Longrightarrow> goes e (startup_left p) p (\<lambda>p'. ending er p' \<and> pr_loop p' \<and> started p')"
proof (induction "startup_left p" arbitrary: p rule: less_induct)
  case less
  show ?case
  proof (cases "started p")
    case True
    with less.prems show ?thesis by (intro goes_now) simp
  next
    case False
    have "\<exists>p'. app_step e p p' \<and> startup_left p' < startup_left p \<and> ending er p' \<and> pr_loop p'"
    proof (cases "pr_restore p")
      case None
      with False obtain op ops where ops: "pr_pending p = op # ops" by (auto simp: started_def neq_Nil_conv)
      obtain c x where "startup_read (store_recorder (en_driver e)) 0 op (sy_ctrl (pr_sys p)) = (c, x)" by fastforce
      from ap_read[OF _ less.prems(2) None ops this] less.prems None ops show ?thesis
        by (intro exI[of _ "(on_sys (on_ctrl (\<lambda>_. c)) p)\<lparr>pr_pending := ops, pr_restore := x\<rparr>"])
          (simp add: ending_def heard_def startup_left_def)
    next
      case (Some x)
      from ap_restore[OF _ less.prems(2) Some] less.prems Some show ?thesis
        by (intro exI[of _ "(on_sys (on_ctrl (install_setting x)) p)\<lparr>pr_restore := None\<rparr>"])
          (simp add: ending_def heard_def startup_left_def)
    qed
    then obtain p' where p': "app_step e p p'" "startup_left p' < startup_left p" "ending er p'" "pr_loop p'" by blast
    from goes_step[OF p'(1) less.hyps[OF p'(2,3,4)]] p'(2) show ?thesis by (auto intro: goes_mono)
  qed
qed

definition resting :: "app_error option \<Rightarrow> process \<Rightarrow> bool" where
  "resting er p \<longleftrightarrow> ending er p \<and> pr_loop p \<and> started p \<and> sy_tick (pr_sys p) = None"

lemma decision_frame:
  "c_last_decision (record_event ri ev inp s c) = c_last_decision c"
  "c_last_decision (effects_start ri now snap v p c) = c_last_decision c"
  "c_last_decision (publish_mode ci ri now d inp s f c) = c_last_decision c"
  "c_last_decision (publish_limit_soc ci ri now t inp s b f c) = c_last_decision c"
  "c_last_decision (track_session ri now inp st c) = c_last_decision c"
  "c_last_decision (record_sample ri now inp s d c) = c_last_decision c"
  by (simp_all add: effects_start_def publish_mode_def publish_limit_soc_def track_session_def session_part_defs
      record_sample_def record_event_def Let_def split: prod.split option.split sum.split)

lemma tick_effects_decision: "c_last_decision (tick_effects ci ri now snap v p c) = c_last_decision c"
  by (simp add: tick_effects_split decision_frame)

lemma effects_end:
  assumes "ending er p" "pr_loop p" "started p" "sy_tick (pr_sys p) = Some (Committed now snap v pl)"
    and "c_last_decision (sy_ctrl (pr_sys p)) = ld"
  shows "goes e 1 p (\<lambda>p'. resting er p' \<and> c_last_decision (sy_ctrl (pr_sys p')) = ld)"
  using goes_step[OF ap_effects[OF _ assms(2) refl assms(4), of e] goes_now[where k = 0]] assms
  by (simp add: ending_def heard_def resting_def started_def tick_effects_decision)

lemma commit_ends:
  assumes "ending er p" "pr_loop p" "started p" "sy_tick (pr_sys p) = Some (Planned now snap v pl)"
  shows "goes e 2 p (\<lambda>p'. resting er p' \<and> c_last_decision (sy_ctrl (pr_sys p')) \<noteq> None)"
proof -
  let ?p = "p\<lparr>pr_sys := (pr_sys p)\<lparr>sy_ctrl := tick_commit now snap v pl (sy_ctrl (pr_sys p)), sy_tick := Some (Committed now snap v pl)\<rparr>\<rparr>"
  have "app_step e p ?p" using assms by (intro ap_commit) (simp_all add: ending_def)
  moreover have "goes e 1 ?p (\<lambda>p'. resting er p' \<and> c_last_decision (sy_ctrl (pr_sys p')) = Some (pl_decision pl))"
    by (rule effects_end) (use assms in \<open>simp_all add: ending_def heard_def started_def tick_commit_def\<close>)
  then have "goes e 1 ?p (\<lambda>p'. resting er p' \<and> c_last_decision (sy_ctrl (pr_sys p')) \<noteq> None)"
    by (rule goes_mono) simp_all
  ultimately show ?thesis using goes_step[of e p ?p 1] by (simp add: numeral_2_eq_2)
qed

lemma tick_ends:
  assumes "ending er p" "pr_loop p" "started p"
  shows "goes e 2 p (resting er)"
proof (cases "sy_tick (pr_sys p)")
  case None
  with assms show ?thesis by (intro goes_now) (simp add: resting_def)
next
  case (Some t)
  show ?thesis
  proof (cases t)
    case (Planned now snap v pl)
    with Some have t: "sy_tick (pr_sys p) = Some (Planned now snap v pl)" by simp
    show ?thesis by (rule goes_mono[OF commit_ends[OF assms t]]) simp_all
  next
    case (Committed now snap v pl)
    with Some have t: "sy_tick (pr_sys p) = Some (Committed now snap v pl)" by simp
    show ?thesis by (rule goes_mono[OF effects_end[OF assms t refl]]) simp_all
  qed
qed

lemma first_tick:
  assumes "resting er p"
  shows "goes e 3 p (\<lambda>p'. resting er p' \<and> c_last_decision (sy_ctrl (pr_sys p')) \<noteq> None)"
proof -
  let ?s = "pr_sys p"
  let ?snap = "snapshot_of (cl_store (c_cmd (sy_ctrl ?s)))"
  let ?pl = "tick_decide (en_oor e) 0 ?snap (c_cfg (sy_ctrl ?s)) (tick_read (sy_ctrl ?s))"
  let ?p = "p\<lparr>pr_sys := ?s\<lparr>sy_tick := Some (Planned 0 ?snap (tick_read (sy_ctrl ?s)) ?pl)\<rparr>\<rparr>"
  have "app_step e p ?p" using assms by (intro ap_begin) (simp_all add: ending_def heard_def resting_def)
  moreover have "goes e 2 ?p (\<lambda>p'. resting er p' \<and> c_last_decision (sy_ctrl (pr_sys p')) \<noteq> None)"
    using assms by (intro commit_ends[of _ _ 0 ?snap "tick_read (sy_ctrl ?s)" ?pl]) (simp_all add: ending_def heard_def resting_def started_def)
  ultimately show ?thesis using goes_step[of e p ?p 2] by (simp add: numeral_3_eq_3 numeral_2_eq_2)
qed

lemma loop_ends:
  assumes "ending er p" "\<not> started p \<Longrightarrow> pr_loop p"
  shows "goes e (startup_left p + 6) p (\<lambda>p'. ending er p' \<and> \<not> pr_loop p')"
proof (cases "pr_loop p")
  case True
  have done_step: "goes e 1 q (\<lambda>p'. ending er p' \<and> \<not> pr_loop p')"
    if "resting er q \<and> c_last_decision (sy_ctrl (pr_sys q)) \<noteq> None" for q
  proof -
    have "app_step e q (q\<lparr>pr_loop := False\<rparr>)" using that by (intro ap_loop_done) (simp_all add: resting_def ending_def)
    from goes_step[OF this goes_now[where k = 0]] that show ?thesis by (simp add: resting_def ending_def heard_def)
  qed
  have "goes e 4 q (\<lambda>p'. ending er p' \<and> \<not> pr_loop p')" if "resting er q" for q
    using goes_trans[OF first_tick[OF that] done_step] by simp
  then have "goes e 6 q (\<lambda>p'. ending er p' \<and> \<not> pr_loop p')" if "ending er q \<and> pr_loop q \<and> started q" for q
    using goes_trans[of e 2 q "resting er" 4] tick_ends that by fastforce
  with goes_trans[OF startup_ends[OF assms(1) True]] show ?thesis by blast
next
  case False
  with assms(1) show ?thesis by (intro goes_now) simp
qed

lemma rest_ends:
  assumes "ending er p" "\<not> pr_loop p"
  shows "goes e 5 p (\<lambda>p'. pr_returned p' = Some er)"
proof -
  have web: "goes e 3 q (\<lambda>p'. pr_returned p' = Some er)" if "ending er q \<and> \<not> pr_loop q \<and> \<not> pr_check q \<and> \<not> pr_mqtt q" for q
  proof -
    have ret: "goes e 1 q (\<lambda>p'. pr_returned p' = Some er)"
      if "ending er q" "\<not> pr_loop q" "\<not> pr_check q" "\<not> pr_mqtt q" "\<not> pr_web q" for q
      using goes_step[OF ap_return[of q e] goes_now[where k = 0]] that by (simp add: ending_def)
    have closed: "goes e 2 r (\<lambda>p'. pr_returned p' = Some er)"
      if "ending er r" "\<not> pr_loop r" "\<not> pr_check r" "\<not> pr_mqtt r" "pr_web r" "pr_closed r" for r
    proof -
      have "app_step e r (r\<lparr>pr_web := False\<rparr>)" using that by (intro ap_web_done) (simp_all add: ending_def)
      from goes_step[OF this ret] that show ?thesis by (simp add: ending_def heard_def numeral_2_eq_2)
    qed
    show ?thesis
    proof (cases "pr_web q \<and> \<not> pr_stopping q")
      case True
      have "app_step e q (q\<lparr>pr_stopping := True, pr_closed := pr_web q \<and> pr_listening q\<rparr>)"
        using True that by (intro ap_stop) (simp_all add: ending_def)
      from goes_step[OF this closed] True that show ?thesis by (simp add: ending_def heard_def numeral_3_eq_3 numeral_2_eq_2)
    next
      case False
      with that goes_mono[OF ret, of q 3] goes_mono[OF closed, of q 3] show ?thesis by (cases "pr_web q") (simp_all add: ending_def heard_def)
    qed
  qed
  have mqtt: "goes e 4 q (\<lambda>p'. pr_returned p' = Some er)" if "ending er q \<and> \<not> pr_loop q \<and> \<not> pr_check q" for q
  proof (cases "pr_mqtt q")
    case True
    have "app_step e q ((on_sys (on_client disconnect) q)\<lparr>pr_mqtt := False\<rparr>)"
      using True that by (intro ap_mqtt_done) (simp_all add: ending_def)
    from goes_step[OF this web] that show ?thesis by (simp add: ending_def heard_def)
  next
    case False
    with goes_mono[OF web, of q 4] that show ?thesis by simp
  qed
  show ?thesis
  proof (cases "pr_check p")
    case True
    have "app_step e p (p\<lparr>pr_upd := fst (check slice rg t1 t2 sidecar (pr_upd p)), pr_check := False\<rparr>)" for slice rg t1 t2 sidecar
      using True assms by (intro ap_check) (simp_all add: ending_def)
    from goes_step[OF this mqtt] assms show ?thesis by (simp add: ending_def heard_def)
  next
    case False
    with goes_mono[OF mqtt, of p 5] assms show ?thesis by simp
  qed
qed

lemma process_ends:
  assumes "ending er p" "\<not> started p \<Longrightarrow> pr_loop p"
  shows "goes e (startup_left p + 6 + 5) p (\<lambda>p'. pr_returned p' = Some er)"
  using goes_trans[OF loop_ends[OF assms]] rest_ends by blast

section \<open>Runs that leave no goroutine behind\<close>

text \<open>
  A run is a sequence of steps in which the process may also pause. It is fair if every part of the
  process that can move infinitely often does so infinitely often: the scheduler forgets no
  goroutine, every call returns, and the \<open>select\<close> of the loop does not always prefer the ticker to
  the cancelled context.
\<close>

datatype part = CheckPart | BrokerPart | LoopPart | LeavePart | StopPart | ServerPart | GroupPart

definition loop_at :: "process \<Rightarrow> nat \<times> bool \<times> nat" where
  "loop_at p = (length (pr_pending p), pr_restore p = None,
     case sy_tick (pr_sys p) of None \<Rightarrow> 0 | Some (Planned now snap v pl) \<Rightarrow> 1 | Some (Committed now snap v pl) \<Rightarrow> 2)"

fun turn :: "part \<Rightarrow> process \<Rightarrow> process \<Rightarrow> bool" where
  "turn CheckPart p p' \<longleftrightarrow> pr_check p \<and> \<not> pr_check p'"
| "turn BrokerPart p p' \<longleftrightarrow> pr_mqtt p \<and> \<not> pr_mqtt p'"
| "turn LoopPart p p' \<longleftrightarrow> loop_at p' \<noteq> loop_at p"
| "turn LeavePart p p' \<longleftrightarrow> pr_loop p \<and> \<not> pr_loop p'"
| "turn StopPart p p' \<longleftrightarrow> \<not> pr_stopping p \<and> pr_stopping p'"
| "turn ServerPart p p' \<longleftrightarrow> pr_web p \<and> \<not> pr_web p'"
| "turn GroupPart p p' \<longleftrightarrow> pr_returned p = None \<and> pr_returned p' \<noteq> None"

definition can_move :: "environment \<Rightarrow> part \<Rightarrow> process \<Rightarrow> bool" where
  "can_move e g p \<longleftrightarrow> (\<exists>p'. app_step e p p' \<and> turn g p p')"

definition fair_run :: "environment \<Rightarrow> (nat \<Rightarrow> process) \<Rightarrow> bool" where
  "fair_run e run \<longleftrightarrow> (\<forall>k. app_step e (run k) (run (Suc k)) \<or> run (Suc k) = run k) \<and>
     (\<forall>g. (\<forall>k. \<exists>l \<ge> k. can_move e g (run l)) \<longrightarrow> (\<forall>k. \<exists>l \<ge> k. turn g (run l) (run (Suc l))))"

lemma can_moveI: "app_step e p p' \<Longrightarrow> turn g p p' \<Longrightarrow> can_move e g p"
  unfolding can_move_def by blast

lemma fair_stable:
  assumes "fair_run e run" "Q (run k)" "\<And>p p'. app_step e p p' \<Longrightarrow> Q p \<Longrightarrow> Q p'" "k \<le> l"
  shows "Q (run l)"
  using assms(4,2)
proof (induction rule: dec_induct)
  case (step n)
  have "app_step e (run n) (run (Suc n)) \<or> run (Suc n) = run n" using assms(1) by (simp add: fair_run_def)
  with step assms(3) show ?case by auto
qed

text \<open>What a part can end again and again, it ends.\<close>

lemma fair_drops:
  assumes "fair_run e run" "\<And>k. i \<le> k \<Longrightarrow> (\<forall>l \<ge> k. F (run l)) \<Longrightarrow> \<exists>l \<ge> k. can_move e g (run l)"
    and "\<And>p p'. turn g p p' \<Longrightarrow> \<not> F p'"
  shows "\<exists>k \<ge> i. \<not> F (run k)"
proof (rule ccontr)
  assume "\<not> ?thesis"
  then have F: "\<forall>k \<ge> i. F (run k)" by blast
  have "\<exists>l \<ge> k. can_move e g (run l)" for k
  proof -
    have "\<exists>l \<ge> max i k. can_move e g (run l)" using F by (intro assms(2)) auto
    then show ?thesis by auto
  qed
  with assms(1) obtain l where "i \<le> l" "turn g (run l) (run (Suc l))" unfolding fair_run_def by meson
  with assms(3)[OF this(2)] F show False by auto
qed

text \<open>What does not come back.\<close>

lemma app_step_gone:
  assumes "app_step e p p'"
  shows "pr_cancelled p \<Longrightarrow> pr_cancelled p'" "pr_stopping p \<Longrightarrow> pr_stopping p'"
    "\<not> pr_check p \<Longrightarrow> \<not> pr_check p'" "\<not> pr_mqtt p \<Longrightarrow> \<not> pr_mqtt p'" "\<not> pr_loop p \<Longrightarrow> \<not> pr_loop p'" "\<not> pr_web p \<Longrightarrow> \<not> pr_web p'"
    "heard p \<Longrightarrow> heard p'"
  using assms by (cases; simp add: heard_def; fail)+

section \<open>The loop comes to rest\<close>

definition work_left :: "process \<Rightarrow> nat" where
  "work_left p = (if \<not> started p then 4 + startup_left p else
     (case sy_tick (pr_sys p) of
        None \<Rightarrow> if c_last_decision (sy_ctrl (pr_sys p)) = None then 3 else 0
      | Some (Planned now snap v pl) \<Rightarrow> 2
      | Some (Committed now snap v pl) \<Rightarrow> if c_last_decision (sy_ctrl (pr_sys p)) = None then 4 else 1))"

lemma decision_kept:
  "c_last_decision (counted n c) = c_last_decision c" "c_last_decision (prune ri now c) = c_last_decision c"
  "c_last_decision (set_override ri now mode until b k c) = c_last_decision c"
  "c_last_decision (fst (inflight_step ri now f c)) = c_last_decision c"
proof -
  show "c_last_decision (fst (inflight_step ri now f c)) = c_last_decision c"
  proof (cases f)
    case (ToInstall x)
    then show ?thesis by (cases x) simp_all
  qed (simp_all add: store_setting_def audit_def split: prod.split option.split)
qed (simp_all add: counted_def prune_def set_override_def audit_def Let_def)

lemma loop_frame:
  assumes "pr_pending p' = pr_pending p" "pr_restore p' = pr_restore p" "sy_tick (pr_sys p') = sy_tick (pr_sys p)"
    and "c_last_decision (sy_ctrl (pr_sys p')) = c_last_decision (sy_ctrl (pr_sys p))"
  shows "loop_at p' = loop_at p \<and> work_left p' = work_left p"
  using assms by (simp only: loop_at_def work_left_def started_def startup_left_def simp_thms)

lemma work_left_step:
  assumes "app_step e p p'" "lifecycle_ok p"
  shows "loop_at p' = loop_at p \<and> work_left p' = work_left p \<or> (0 < work_left p \<longrightarrow> work_left p' < work_left p)"
  using assms(1)
proof cases
  case (ap_request we ro m path srv q w' r)
  have "c_last_decision (wd_ctrl w') = c_last_decision (sy_ctrl (pr_sys p))"
    using ap_request(5,4) by (cases rule: plain_request) (simp_all add: decision_kept process_world_def)
  then show ?thesis by (intro disjI1 loop_frame) (simp_all add: ap_request(1))
next
  case (ap_serve fs f gs now c f')
  with decision_kept(4)[of "live_recorder e p" now f "sy_ctrl (pr_sys p)"] show ?thesis by (intro disjI1 loop_frame) simp_all
next
  case (ap_prune now)
  then show ?thesis by (intro disjI1 loop_frame) (simp_all add: decision_kept)
next
  case (ap_read op ops now c x)
  with assms(2) show ?thesis by (auto simp: work_left_def started_def startup_left_def lifecycle_ok_def)
next
  case (ap_restore x)
  with assms(2) show ?thesis by (auto simp: work_left_def started_def startup_left_def lifecycle_ok_def)
next
  case (ap_begin s snap v now)
  then show ?thesis by (simp add: work_left_def started_def)
next
  case (ap_commit s now snap v pl)
  with assms(2) show ?thesis by (auto simp: work_left_def started_def lifecycle_ok_def tick_commit_def)
next
  case (ap_effects s now snap v pl)
  with assms(2) show ?thesis by (auto simp: work_left_def started_def lifecycle_ok_def tick_effects_decision)
qed (intro disjI1 loop_frame; simp)+

text \<open>Until it is at rest with a decision made, the loop can move on.\<close>

lemma loop_moves:
  assumes "pr_returned p = None" "pr_loop p" "0 < work_left p"
  shows "can_move e LoopPart p"
proof (cases "pr_restore p")
  case (Some x)
  show ?thesis by (rule can_moveI[OF ap_restore[OF assms(1,2) Some]]) (simp add: loop_at_def Some)
next
  case None
  show ?thesis
  proof (cases "pr_pending p")
    case (Cons op ops)
    obtain c x where "startup_read (store_recorder (en_driver e)) 0 op (sy_ctrl (pr_sys p)) = (c, x)" by fastforce
    from can_moveI[OF ap_read[OF assms(1,2) None Cons this]] show ?thesis by (simp add: loop_at_def Cons)
  next
    case Nil
    with None have st: "started p" by (simp add: started_def)
    show ?thesis
    proof (cases "sy_tick (pr_sys p)")
      case None
      from can_moveI[OF ap_begin[OF assms(1,2) st refl None refl refl]] show ?thesis by (simp add: loop_at_def None)
    next
      case (Some t)
      show ?thesis
      proof (cases t)
        case (Planned now snap v pl)
        with Some can_moveI[OF ap_commit[OF assms(1,2) refl]] show ?thesis by (simp add: loop_at_def)
      next
        case (Committed now snap v pl)
        with Some can_moveI[OF ap_effects[OF assms(1,2) refl]] show ?thesis by (simp add: loop_at_def)
      qed
    qed
  qed
qed

lemma loop_rests:
  assumes "fair_run e run" "\<And>k. lifecycle_ok (run k)" "\<And>k. pr_returned (run k) = None" "\<forall>l \<ge> k. pr_loop (run l)"
  shows "\<exists>l \<ge> k. work_left (run l) = 0"
  using assms(4)
proof (induction "work_left (run k)" arbitrary: k rule: less_induct)
  case less
  have one: "loop_at (run (Suc l)) = loop_at (run l) \<and> work_left (run (Suc l)) = work_left (run l) \<or>
      (0 < work_left (run l) \<longrightarrow> work_left (run (Suc l)) < work_left (run l))" for l
  proof -
    have "app_step e (run l) (run (Suc l)) \<or> run (Suc l) = run l" using assms(1) by (simp add: fair_run_def)
    then show ?thesis using work_left_step[OF _ assms(2)[of l], of e "run (Suc l)"] by auto
  qed
  show ?case
  proof (cases "work_left (run k) = 0 \<or> (\<exists>l \<ge> k. work_left (run l) < work_left (run k))")
    case True
    moreover have ?thesis if "work_left (run k) = 0" using that by blast
    moreover have ?thesis if "\<exists>l \<ge> k. work_left (run l) < work_left (run k)"
    proof -
      from that obtain l where l: "k \<le> l" "work_left (run l) < work_left (run k)" by blast
      with less.hyps[of l] less.prems obtain l' where "l \<le> l'" "work_left (run l') = 0" by auto
      with l(1) show ?thesis by (meson le_trans)
    qed
    ultimately show ?thesis by blast
  next
    case False
    have same: "work_left (run l) = work_left (run k)" if "k \<le> l" for l
      using that
    proof (induction rule: dec_induct)
      case (step n)
      with one[of n] False show ?case by (metis le_SucI neq0_conv)
    qed simp
    have "\<exists>l \<ge> j. can_move e LoopPart (run l)" for j
      using loop_moves[of "run (max j k)" e] assms(3) less.prems same[of "max j k"] False by (intro exI[of _ "max j k"]) simp
    with assms(1) obtain l where l: "k \<le> l" "turn LoopPart (run l) (run (Suc l))" unfolding fair_run_def by meson
    with one[of l] same[of l] same[of "Suc l"] False show ?thesis by simp
  qed
qed

section \<open>Every fair run of a cancelled process ends\<close>

lemma fair_run_returns:
  assumes "fair_run e run" "\<And>k. lifecycle_ok (run k)" "pr_cancelled (run i)" "heard (run j)"
  shows "\<exists>k. pr_returned (run k) \<noteq> None"
proof (rule ccontr)
  assume "\<not> ?thesis"
  then have ret: "pr_returned (run k) = None" for k by simp
  note stable = fair_stable[OF assms(1)]
  have canc: "pr_cancelled (run k)" if "i \<le> k" for k
    using stable[of pr_cancelled i k, OF assms(3) app_step_gone(1)] that by simp
  have hear: "heard (run k)" if "j \<le> k" for k
    using stable[of heard j k, OF assms(4) app_step_gone(7)] that by simp
  have "\<exists>k \<ge> i. \<not> pr_check (run k)"
    by (rule fair_drops[OF assms(1), where g = CheckPart])
      (use ret in \<open>auto intro!: exI can_moveI[OF ap_check]\<close>)
  then obtain a where a: "\<not> pr_check (run a)" by blast
  have "\<exists>k \<ge> i. \<not> pr_mqtt (run k)"
    by (rule fair_drops[OF assms(1), where g = BrokerPart])
      (use ret canc in \<open>auto intro!: exI can_moveI[OF ap_mqtt_done]\<close>)
  then obtain b where b: "\<not> pr_mqtt (run b)" by blast
  have "\<exists>k \<ge> i. \<not> \<not> pr_stopping (run k)"
    by (rule fair_drops[OF assms(1), where g = StopPart])
      (use canc in \<open>auto intro!: exI can_moveI[OF ap_stop]\<close>)
  then obtain s where s: "pr_stopping (run s)" by blast
  have "\<exists>k \<ge> max s j. \<not> pr_web (run k)"
  proof (rule fair_drops[OF assms(1), where g = ServerPart])
    fix k assume k: "max s j \<le> k" "\<forall>l \<ge> k. pr_web (run l)"
    then have "pr_web (run k)" "pr_stopping (run k)" "heard (run k)"
      using stable[of pr_stopping s k, OF s app_step_gone(2)] hear by auto
    then show "\<exists>l \<ge> k. can_move e ServerPart (run l)"
      using ret by (intro exI[of _ k]) (auto intro!: can_moveI[OF ap_web_done] simp: heard_def)
  qed simp
  then obtain w where w: "\<not> pr_web (run w)" by blast
  have "\<exists>k \<ge> i. \<not> pr_loop (run k)"
  proof (rule fair_drops[OF assms(1), where g = LeavePart])
    fix k assume k: "i \<le> k" "\<forall>l \<ge> k. pr_loop (run l)"
    from loop_rests[OF assms(1,2) ret k(2)] obtain l where l: "k \<le> l" "work_left (run l) = 0" by blast
    then have "started (run l)" "sy_tick (pr_sys (run l)) = None" "c_last_decision (sy_ctrl (pr_sys (run l))) \<noteq> None"
      by (auto simp: work_left_def split: if_splits option.splits pending.splits)
    with l(1) k ret canc[of l] show "\<exists>l \<ge> k. can_move e LeavePart (run l)"
      by (intro exI[of _ l]) (auto intro!: can_moveI[OF ap_loop_done])
  qed simp
  then obtain l where l: "\<not> pr_loop (run l)" by blast
  define n where "n = max a (max b (max w l))"
  have "\<exists>k \<ge> n. \<not> pr_returned (run k) = None"
  proof (rule fair_drops[OF assms(1), where g = GroupPart])
    fix k assume "n \<le> k" "\<forall>l \<ge> k. pr_returned (run l) = None"
    then have "\<not> pr_check (run k)" "\<not> pr_mqtt (run k)" "\<not> pr_loop (run k)" "\<not> pr_web (run k)"
      using stable[of "\<lambda>p. \<not> pr_check p" a k, OF a app_step_gone(3)] stable[of "\<lambda>p. \<not> pr_mqtt p" b k, OF b app_step_gone(4)]
        stable[of "\<lambda>p. \<not> pr_loop p" l k, OF l app_step_gone(5)] stable[of "\<lambda>p. \<not> pr_web p" w k, OF w app_step_gone(6)]
      by (simp_all add: n_def)
    with ret show "\<exists>l \<ge> k. can_move e GroupPart (run l)"
      by (intro exI[of _ k]) (auto intro!: can_moveI[OF ap_return])
  qed simp
  with ret show False by simp
qed


section \<open>A shutdown that is not heard\<close>

text \<open>A signal before the server listens: \<open>Shutdown\<close> finds no listener, and from then on only a failing
  listener lets \<open>Run\<close> return.\<close>

definition unheard :: "process \<Rightarrow> bool" where
  "unheard p \<longleftrightarrow> pr_error p \<noteq> None \<or> pr_returned p = None \<and> pr_web p \<and> pr_stopping p \<and> \<not> pr_closed p"

lemma unheard_step: "app_step e p p' \<Longrightarrow> unheard p \<Longrightarrow> unheard p'"
  by (erule app_step.cases) (auto simp: unheard_def)

definition demo_deaf :: process where
  "demo_deaf = demo_stopping\<lparr>pr_stopping := True, pr_listening := True\<rparr>"

lemma demo_deaf_reached: "(app_step e)\<^sup>*\<^sup>* demo_process demo_deaf"
proof -
  have "app_step e demo_process demo_stopping"
    unfolding demo_stopping_def by (rule ap_signal) (simp add: demo_process_def start_process_def)
  moreover have "app_step e demo_stopping (demo_stopping\<lparr>pr_stopping := True, pr_closed := pr_web demo_stopping \<and> pr_listening demo_stopping\<rparr>)"
    by (rule ap_stop) (simp_all add: demo_stopping_def demo_process_def start_process_def)
  moreover have "demo_stopping\<lparr>pr_stopping := True, pr_closed := pr_web demo_stopping \<and> pr_listening demo_stopping\<rparr> = demo_stopping\<lparr>pr_stopping := True\<rparr>"
    by (simp add: demo_stopping_def demo_process_def start_process_def)
  moreover have "app_step e (demo_stopping\<lparr>pr_stopping := True\<rparr>) demo_deaf"
    using ap_listen[of "demo_stopping\<lparr>pr_stopping := True\<rparr>" e] by (simp add: demo_deaf_def demo_stopping_def demo_process_def start_process_def)
  ultimately show ?thesis by (metis converse_rtranclp_into_rtranclp rtranclp.rtrancl_refl)
qed

theorem shutdown_lost:
  "(app_step e)\<^sup>*\<^sup>* demo_process demo_deaf \<and> pr_cancelled demo_deaf \<and>
   (\<forall>p. (app_step e)\<^sup>*\<^sup>* demo_deaf p \<longrightarrow> pr_returned p = None \<or> pr_error p \<noteq> None)"
proof (intro conjI allI impI demo_deaf_reached)
  have start: "unheard demo_deaf" "pr_cancelled demo_deaf"
    by (simp_all add: unheard_def demo_deaf_def demo_stopping_def demo_process_def start_process_def)
  then show "pr_cancelled demo_deaf" by simp
  fix p assume "(app_step e)\<^sup>*\<^sup>* demo_deaf p"
  then have "unheard p" by (induction rule: rtranclp_induct) (use start unheard_step in blast)+
  then show "pr_returned p = None \<or> pr_error p \<noteq> None" by (auto simp: unheard_def)
qed

section \<open>Witnesses\<close>

definition demo_listening :: process where
  "demo_listening = demo_process\<lparr>pr_listening := True\<rparr>"

definition demo_leaving :: process where
  "demo_leaving = demo_listening\<lparr>pr_cancelled := True\<rparr>"

lemma demo_leaving_steps: "app_step e demo_process demo_listening" "app_step e demo_listening demo_leaving"
  unfolding demo_listening_def demo_leaving_def
  by (rule ap_listen ap_signal; simp add: demo_process_def start_process_def)+

lemma demo_leaving_reached: "(app_step e)\<^sup>*\<^sup>* demo_process demo_leaving"
  using demo_leaving_steps by (meson converse_rtranclp_into_rtranclp r_into_rtranclp)

lemma demo_leaves: "\<exists>p. (app_step e)\<^sup>*\<^sup>* demo_leaving p \<and> pr_returned p = Some None"
proof -
  have "ending None demo_leaving" "pr_loop demo_leaving"
    by (simp_all add: ending_def heard_def demo_leaving_def demo_listening_def demo_process_def start_process_def)
  then obtain n p where "(app_step e ^^ n) demo_leaving p" "pr_returned p = Some None"
    using process_ends[of None demo_leaving e] unfolding goes_def by blast
  then show ?thesis using relpowp_imp_rtranclp by metis
qed

lemma demo_ended: "\<exists>p. (app_step demo_env)\<^sup>*\<^sup>* demo_process p \<and> pr_returned p = Some None"
  using demo_leaving_reached demo_leaves rtranclp_trans by metis

text \<open>Paused once everything has ended, a run is fair.\<close>

lemma ended_rests:
  assumes "lifecycle_ok p" "pr_returned p = Some r" "pr_stopping p"
  shows "\<not> can_move e g p"
proof
  assume "can_move e g p"
  then obtain p' where step: "app_step e p p'" and t: "turn g p p'" by (auto simp: can_move_def)
  from step assms(2) have "loop_at p' = loop_at p"
    by cases (simp_all add: loop_at_def)
  with t assms show False by (cases g) (auto simp: lifecycle_ok_def)
qed

lemma fair_prefix:
  assumes "(app_step e)\<^sup>*\<^sup>* p q" "\<And>g. \<not> can_move e g q"
  shows "\<exists>run. fair_run e run \<and> run 0 = p \<and> (\<exists>n. run n = q)"
proof -
  obtain n f where f: "f 0 = p" "f n = q" "\<forall>k < n. app_step e (f k) (f (Suc k))"
    using rtranclp_imp_relpowp[OF assms(1)] unfolding relpowp_fun_conv by blast
  define run where "run k = f (min k n)" for k
  have "app_step e (run k) (run (Suc k)) \<or> run (Suc k) = run k" for k
    using f by (cases "k < n") (auto simp: run_def)
  moreover have "\<not> (\<forall>k. \<exists>l \<ge> k. can_move e g (run l))" for g
    using assms(2)[of g] f(2) by (auto simp: run_def min_def intro!: exI[of _ n])
  ultimately have "fair_run e run" unfolding fair_run_def by blast
  moreover have "run 0 = p" "run n = q" using f by (auto simp: run_def)
  ultimately show ?thesis by blast
qed


lemma fair_cons:
  assumes "fair_run e run" "app_step e p (run 0)"
  shows "fair_run e (case_nat p run)"
proof -
  have later: "\<exists>l \<ge> k. P (Suc l)" if "\<forall>k. \<exists>l \<ge> k. P l" for P and k :: nat
    using that[rule_format, of "Suc k"] by (metis Suc_le_D Suc_le_mono)
  have again: "\<exists>l \<ge> k. P l" if "\<forall>k. \<exists>l \<ge> k. P (Suc l)" for P and k :: nat
    using that[rule_format, of k] by (meson le_SucI)
  have "app_step e (case_nat p run k) (case_nat p run (Suc k)) \<or> case_nat p run (Suc k) = case_nat p run k" for k
    using assms by (cases k) (auto simp: fair_run_def)
  moreover have "\<exists>l \<ge> k. turn g (case_nat p run l) (case_nat p run (Suc l))"
    if "\<forall>k. \<exists>l \<ge> k. can_move e g (case_nat p run l)" for g k
  proof (rule again)
    have "\<forall>k. \<exists>l \<ge> k. can_move e g (run l)" using later[OF that] by simp
    with assms(1) show "\<forall>k. \<exists>l \<ge> k. turn g (case_nat p run (Suc l)) (case_nat p run (Suc (Suc l)))"
      by (simp add: fair_run_def)
  qed
  ultimately show ?thesis unfolding fair_run_def by blast
qed

lemma demo_run: "\<exists>run. fair_run demo_env run \<and> run 0 = demo_process \<and> run 1 = demo_listening \<and> run 2 = demo_leaving"
proof -
  obtain p where p: "(app_step demo_env)\<^sup>*\<^sup>* demo_leaving p" "pr_returned p = Some None" using demo_leaves by blast
  obtain cfg where cfg: "demo_process = start_process cfg (bi_version demo_build) empty_db Map.empty" "control_ok (c_control cfg)"
    using wha_main_runs[OF demo_runs] .
  have ok: "lifecycle_ok q" if "(app_step demo_env)\<^sup>*\<^sup>* demo_process q" for q
    using app_invariants(2)[OF cfg(2)] that cfg(1) by metis
  have reached: "(app_step demo_env)\<^sup>*\<^sup>* demo_process p" using demo_leaving_reached p(1) by (rule rtranclp_trans)
  then have l: "lifecycle_ok p" by (rule ok)
  have "\<exists>q. (app_step demo_env)\<^sup>*\<^sup>* demo_leaving q \<and> pr_returned q = Some None \<and> pr_stopping q"
  proof (cases "pr_stopping p")
    case False
    have "app_step demo_env p (p\<lparr>pr_stopping := True, pr_closed := pr_web p \<and> pr_listening p\<rparr>)"
      using False l p(2) by (intro ap_stop) (auto simp: lifecycle_ok_def)
    with p show ?thesis by (intro exI[of _ "p\<lparr>pr_stopping := True, pr_closed := pr_web p \<and> pr_listening p\<rparr>"]) auto
  qed (use p in blast)
  then obtain q where q: "(app_step demo_env)\<^sup>*\<^sup>* demo_leaving q" "pr_returned q = Some None" "pr_stopping q" by blast
  from q(1) have "(app_step demo_env)\<^sup>*\<^sup>* demo_process q" using demo_leaving_reached rtranclp_trans by metis
  then have "\<not> can_move demo_env g q" for g using ended_rests[OF ok q(2,3)] by blast
  from fair_prefix[OF q(1) this] obtain run where run: "fair_run demo_env run" "run 0 = demo_leaving" by blast
  have "fair_run demo_env (case_nat demo_listening run)" using run demo_leaving_steps(2) by (intro fair_cons) simp_all
  then have "fair_run demo_env (case_nat demo_process (case_nat demo_listening run))"
    by (rule fair_cons) (simp add: demo_leaving_steps(1))
  with run(2) show ?thesis
    by (intro exI[of _ "case_nat demo_process (case_nat demo_listening run)"]) (simp add: numeral_2_eq_2)
qed



end
