(* ===== verification/AppSettings.thy ===== *)
theory AppSettings
  imports AppEnds
begin

text \<open>
  The operator's settings in the running process: memory and database agree whenever no request
  is between its two halves, as long as no two requests for the same setting overlap.
\<close>

section \<open>One setting at a time\<close>

datatype slot = PowerSlot | ProfileSlot | ThresholdSlot string | TargetSlot string

fun slot_of :: "setting_value \<Rightarrow> slot" where
  "slot_of (PowerValue mode) = PowerSlot"
| "slot_of (ProfileValue profile) = ProfileSlot"
| "slot_of (ThresholdValue profile w) = ThresholdSlot profile"
| "slot_of (TargetValue profile pct) = TargetSlot profile"

fun loads :: "startup_op \<Rightarrow> slot option" where
  "loads RecoverSession = None"
| "loads LoadChargePower = Some PowerSlot"
| "loads LoadAutoProfile = Some ProfileSlot"
| "loads (LoadStartThreshold profile) = Some (ThresholdSlot profile)"
| "loads (LoadTargetSoC profile) = Some (TargetSlot profile)"

text \<open>Memory holds what a start on \<open>S\<close> would load; memory is as it was created.\<close>

fun slot_synced :: "control \<Rightarrow> (string \<rightharpoonup> string) \<Rightarrow> control_state \<Rightarrow> slot \<Rightarrow> bool" where
  "slot_synced cfg S cs PowerSlot \<longleftrightarrow> cs_charge_power cs = stored_charge_power cfg S"
| "slot_synced cfg S cs ProfileSlot \<longleftrightarrow> cs_auto_profile cs = stored_auto_profile cfg S"
| "slot_synced cfg S cs (ThresholdSlot profile) \<longleftrightarrow> cs_start_threshold cs profile = stored_threshold cfg S profile"
| "slot_synced cfg S cs (TargetSlot profile) \<longleftrightarrow> cs_target_soc cs profile = stored_target S profile"

fun slot_initial :: "control \<Rightarrow> control_state \<Rightarrow> slot \<Rightarrow> bool" where
  "slot_initial cfg cs PowerSlot \<longleftrightarrow> cs_charge_power cs = cfg_enable_mode cfg"
| "slot_initial cfg cs ProfileSlot \<longleftrightarrow> cs_auto_profile cs = cfg_auto_profile cfg"
| "slot_initial cfg cs (ThresholdSlot profile) \<longleftrightarrow> cs_start_threshold cs profile = None"
| "slot_initial cfg cs (TargetSlot profile) \<longleftrightarrow> cs_target_soc cs profile = None"

text \<open>The database holds this value; a value that survives being written and read.\<close>

fun value_stored :: "control \<Rightarrow> (string \<rightharpoonup> string) \<Rightarrow> setting_value \<Rightarrow> bool" where
  "value_stored cfg S (PowerValue mode) \<longleftrightarrow> stored_charge_power cfg S = mode"
| "value_stored cfg S (ProfileValue profile) \<longleftrightarrow> stored_auto_profile cfg S = profile"
| "value_stored cfg S (ThresholdValue profile w) \<longleftrightarrow> stored_threshold cfg S profile = Some w"
| "value_stored cfg S (TargetValue profile pct) \<longleftrightarrow> stored_target S profile = Some pct"

fun storable :: "control \<Rightarrow> setting_value \<Rightarrow> bool" where
  "storable cfg (ThresholdValue profile w) \<longleftrightarrow> threshold_step_ok w \<and> \<not> w \<le> cfg_stop_threshold cfg \<and> representable w \<and> is_latch_profile profile"
| "storable cfg (TargetValue profile pct) \<longleftrightarrow> target_soc_ok pct \<and> is_latch_profile profile"
| "storable cfg x \<longleftrightarrow> value_ok cfg x"

lemmas stored_defs = stored_charge_power_def stored_auto_profile_def stored_threshold_def stored_target_def

lemma match_slots: "settings_match cfg S cs \<longleftrightarrow> (\<forall>sl. slot_synced cfg S cs sl)"
proof
  assume *: "\<forall>sl. slot_synced cfg S cs sl"
  from *[rule_format, of PowerSlot] *[rule_format, of ProfileSlot] *[rule_format, of "ThresholdSlot _"]
    *[rule_format, of "TargetSlot _"]
  show "settings_match cfg S cs" by (simp add: settings_match_def fun_eq_iff)
next
  assume *: "settings_match cfg S cs"
  show "\<forall>sl. slot_synced cfg S cs sl"
  proof
    fix sl show "slot_synced cfg S cs sl" using * by (cases sl) (simp_all add: settings_match_def)
  qed
qed

lemma slot_cong:
  assumes "operator_settings cs' = operator_settings cs"
  shows "slot_synced cfg S cs' sl = slot_synced cfg S cs sl" "slot_initial cfg cs' sl = slot_initial cfg cs sl"
  using assms by (cases sl; simp add: operator_settings_def)+

lemma install_slot:
  "value_stored cfg S x \<Longrightarrow> slot_synced cfg S (c_ctrl (install_setting x c)) (slot_of x)"
  "slot_of x \<noteq> sl \<Longrightarrow> slot_synced cfg S (c_ctrl (install_setting x c)) sl = slot_synced cfg S (c_ctrl c) sl"
  "slot_of x \<noteq> sl \<Longrightarrow> slot_initial cfg (c_ctrl (install_setting x c)) sl = slot_initial cfg (c_ctrl c) sl"
  by (cases x; cases sl; simp)+

lemma store_slot:
  "slot_of x \<noteq> sl \<Longrightarrow> slot_synced cfg (S(fst (setting_entry x) \<mapsto> snd (setting_entry x))) cs sl = slot_synced cfg S cs sl"
  "slot_of x \<noteq> slot_of y \<Longrightarrow> value_stored cfg (S(fst (setting_entry x) \<mapsto> snd (setting_entry x))) y = value_stored cfg S y"
  by (cases x; cases sl; simp add: stored_defs) (cases x; cases y; simp add: stored_defs)

lemma stored_value_back: "storable cfg x \<Longrightarrow> value_stored cfg (S(fst (setting_entry x) \<mapsto> snd (setting_entry x))) x"
  by (cases x) (simp_all add: stored_defs parse_format_threshold atoi_itoa_target)

lemma accepted_storable: "accepted req c = Inr x \<Longrightarrow> \<forall>w. req = AskThreshold w \<longrightarrow> representable w \<Longrightarrow> storable (c_cfg c) x"
  by (cases req) (auto split: if_splits)

section \<open>The queries of the startup\<close>

lemma stored_value_read:
  assumes "outcome drv (c_rec c) = SqlOk"
  shows "snd (stored_value (store_recorder drv) key c) = db_setting (c_rec c) key"
  using assms by (simp add: stored_value_def get_setting_def db_setting_def)

lemma stored_value_db: "db_setting (c_rec (fst (stored_value (store_recorder drv) key c))) = db_setting (c_rec c)"
  by (simp add: stored_value_def get_setting_def db_setting_def fun_eq_iff split: prod.split)

lemma startup_read_db: "db_setting (c_rec (fst (startup_read (store_recorder drv) now op c))) = db_setting (c_rec c)"
proof (cases op)
  case RecoverSession
  then show ?thesis by (simp add: store_settings.recover_settings)
qed (use stored_value_db[of drv _ c] in \<open>simp_all add: split_beta split: option.split\<close>)

text \<open>A loader finds the stored value, or memory already agrees with what is stored.\<close>

lemma startup_read_slot:
  assumes "outcome drv (c_rec c) = SqlOk" "loads op = Some sl" "\<forall>profile. op = LoadStartThreshold profile \<or> op = LoadTargetSoC profile \<longrightarrow> is_latch_profile profile"
  shows "case snd (startup_read (store_recorder drv) now op c) of
      Some x \<Rightarrow> slot_of x = sl \<and> value_stored (c_cfg c) (db_setting (c_rec c)) x
    | None \<Rightarrow> slot_initial (c_cfg c) cs sl \<longrightarrow> slot_synced (c_cfg c) (db_setting (c_rec c)) cs sl"
proof -
  have cfg: "c_cfg (fst (stored_value (store_recorder drv) key c)) = c_cfg c" for key
    using stored_value_loop(1)[of c "store_recorder drv" key] by (simp add: same_loop_def)
  show ?thesis
    using assms stored_value_read[OF assms(1)] cfg
    by (cases op) (auto simp: split_beta stored_defs split: option.splits prod.splits)
qed

section \<open>Undisturbed settings stay in step\<close>

text \<open>The settings that a request or the startup is working on.\<close>

fun inflight_value :: "inflight \<Rightarrow> setting_value option" where
  "inflight_value (ToStore x) = Some x"
| "inflight_value (ToInstall x) = Some x"
| "inflight_value (ToAudit action) = None"

definition busy :: "process \<Rightarrow> slot list" where
  "busy p = map slot_of (List.map_filter inflight_value (pr_inflight p) @ (case pr_restore p of None \<Rightarrow> [] | Some x \<Rightarrow> [x]))"

definition loading :: "process \<Rightarrow> slot set" where
  "loading p = {sl. \<exists>op \<in> set (pr_pending p). loads op = Some sl}"

definition settings_inv :: "control \<Rightarrow> process \<Rightarrow> bool" where
  "settings_inv cfg p \<longleftrightarrow> c_cfg (sy_ctrl (pr_sys p)) = cfg \<and> set (pr_pending p) \<subseteq> set startup_ops \<and>
     (\<forall>x \<in> installable p. value_stored cfg (db_setting (c_rec (sy_ctrl (pr_sys p)))) x) \<and>
     (\<forall>x. ToStore x \<in> set (pr_inflight p) \<longrightarrow> storable cfg x) \<and>
     (\<forall>sl. sl \<notin> slot_of ` installable p \<longrightarrow>
        slot_synced cfg (db_setting (c_rec (sy_ctrl (pr_sys p)))) (c_ctrl (sy_ctrl (pr_sys p))) sl \<or>
        sl \<in> loading p \<and> slot_initial cfg (c_ctrl (sy_ctrl (pr_sys p))) sl)"

text \<open>A step that leaves the settings, and what is being done to them, alone.\<close>

definition neutral :: "process \<Rightarrow> process \<Rightarrow> bool" where
  "neutral p p' \<longleftrightarrow> c_cfg (sy_ctrl (pr_sys p')) = c_cfg (sy_ctrl (pr_sys p)) \<and>
     db_setting (c_rec (sy_ctrl (pr_sys p'))) = db_setting (c_rec (sy_ctrl (pr_sys p))) \<and>
     operator_settings (c_ctrl (sy_ctrl (pr_sys p'))) = operator_settings (c_ctrl (sy_ctrl (pr_sys p))) \<and>
     pr_pending p' = pr_pending p \<and> pr_restore p' = pr_restore p \<and>
     set (pr_inflight p') - range ToAudit \<subseteq> set (pr_inflight p)"

lemma neutral_inv: "neutral p p' \<Longrightarrow> installable p' = installable p \<Longrightarrow> settings_inv cfg p \<Longrightarrow> settings_inv cfg p'"
  using slot_cong[of "c_ctrl (sy_ctrl (pr_sys p'))" "c_ctrl (sy_ctrl (pr_sys p))" cfg]
  by (auto simp: settings_inv_def neutral_def loading_def)

lemma operator_settings_frame:
  "operator_settings (c_ctrl (set_override ri now mode until bypass soc c)) = operator_settings (c_ctrl c)"
  "operator_settings (c_ctrl (prune ri now c)) = operator_settings (c_ctrl c)"
  by (simp_all add: operator_settings_def set_override_def audit_def prune_def Let_def)

lemma commit_frame:
  "c_cfg (tick_commit now snap v pl c) = c_cfg c" "c_rec (tick_commit now snap v pl c) = c_rec c"
  "operator_settings (c_ctrl (tick_commit now snap v pl c)) = operator_settings (c_ctrl c)"
  by (simp_all add: operator_settings_def tick_commit_def)

lemma stored_settings_frame:
  "db_setting (c_rec (tick_effects ci (store_recorder drv) now snap v pl c)) = db_setting (c_rec c)"
  "db_setting (c_rec (set_override (store_recorder drv) now mode until bypass soc c)) = db_setting (c_rec c)"
  "db_setting (c_rec (prune (store_recorder drv) now c)) = db_setting (c_rec c)"
  "db_setting (c_rec (audit (store_recorder drv) now k a c)) = db_setting (c_rec c)"
  using store_settings.settings_tick_effects[of ci drv now snap v pl c] store_settings.settings_frame(2,8,9)
  by (simp_all add: set_override_def audit_def prune_def Let_def del: store_recorder_simps)

lemma counted_settings: "db_setting (c_rec (counted n c)) = db_setting (c_rec c)"
  by (simp add: counted_def db_setting_def fun_eq_iff)

lemma request_neutral:
  assumes "dispatch ro srv m path we q (process_world p) = (w', r)" "\<not> setting_post ro m path"
    and "p' = p\<lparr>pr_sys := with_ctrl (pr_sys p) w', pr_upd := u, pr_dir := d\<rparr>"
  shows "neutral p p'" "installable p' = installable p"
proof -
  have c: "wd_ctrl (process_world p) = sy_ctrl (pr_sys p)" by (simp add: process_world_def)
  from assms(1,2) show "neutral p p'"
  proof (cases rule: plain_request)
    case (1 n)
    then show ?thesis
      using same_loop_cfg[OF counted_frame(1)] by (auto simp: neutral_def assms(3) c counted_settings)
  next
    case (2 now mode until bypass soc)
    then show ?thesis
      using same_loop_cfg[OF same_loop_web(1)]
      by (auto simp: neutral_def assms(3) c stored_settings_frame operator_settings_frame)
  qed
  show "installable p' = installable p" by (simp add: installable_def assms(3))
qed

lemma settings_inv_install:
  assumes "settings_inv cfg p" "x \<in> installable p"
    and "sy_ctrl (pr_sys p') = install_setting x (sy_ctrl (pr_sys p))" "pr_pending p' = pr_pending p"
    and "installable p - {x} \<subseteq> installable p'" "installable p' \<subseteq> installable p"
    and "\<forall>y. ToStore y \<in> set (pr_inflight p') \<longrightarrow> ToStore y \<in> set (pr_inflight p)"
  shows "settings_inv cfg p'"
proof -
  let ?c = "sy_ctrl (pr_sys p)" and ?c' = "sy_ctrl (pr_sys p')"
  have i: "c_cfg ?c = cfg" "\<forall>y \<in> installable p. value_stored cfg (db_setting (c_rec ?c)) y"
    "\<And>sl. sl \<notin> slot_of ` installable p \<Longrightarrow>
        slot_synced cfg (db_setting (c_rec ?c)) (c_ctrl ?c) sl \<or> sl \<in> loading p \<and> slot_initial cfg (c_ctrl ?c) sl"
    using assms(1) by (auto simp: settings_inv_def)
  have r: "c_cfg ?c' = cfg" "c_rec ?c' = c_rec ?c" "loading p' = loading p"
    using assms(3,4) same_loop_cfg[OF install_same[of ?c x]] i(1) by (simp_all add: loading_def)
  have "slot_synced cfg (db_setting (c_rec ?c')) (c_ctrl ?c') sl \<or> sl \<in> loading p' \<and> slot_initial cfg (c_ctrl ?c') sl"
    if "sl \<notin> slot_of ` installable p'" for sl
  proof (cases "slot_of x = sl")
    case True
    with i(2) assms(2) install_slot(1)[of cfg "db_setting (c_rec ?c)" x ?c] show ?thesis by (simp only: assms(3) install_rec) blast
  next
    case False
    with that assms(5) have "sl \<notin> slot_of ` installable p" by auto
    from i(3)[OF this] install_slot(2)[OF False, of cfg "db_setting (c_rec ?c)" ?c] install_slot(3)[OF False, of cfg ?c] show ?thesis by (simp only: r(3) assms(3) install_rec)
  qed
  with i(2) r assms(1,4,6,7) show ?thesis by (auto simp: settings_inv_def)
qed

lemma settings_inv_store:
  assumes "settings_inv cfg p" "ToStore x \<in> set (pr_inflight p)" "\<forall>y \<in> installable p. slot_of y \<noteq> slot_of x"
    and "db_setting (c_rec (sy_ctrl (pr_sys p'))) = (db_setting (c_rec (sy_ctrl (pr_sys p))))(fst (setting_entry x) \<mapsto> snd (setting_entry x))"
    and "c_cfg (sy_ctrl (pr_sys p')) = c_cfg (sy_ctrl (pr_sys p))" "c_ctrl (sy_ctrl (pr_sys p')) = c_ctrl (sy_ctrl (pr_sys p))"
    and "pr_pending p' = pr_pending p" "installable p' = insert x (installable p)"
    and "\<forall>y. ToStore y \<in> set (pr_inflight p') \<longrightarrow> ToStore y \<in> set (pr_inflight p)"
  shows "settings_inv cfg p'"
proof -
  let ?S = "db_setting (c_rec (sy_ctrl (pr_sys p)))" and ?cs = "c_ctrl (sy_ctrl (pr_sys p))"
  have i: "c_cfg (sy_ctrl (pr_sys p)) = cfg" "\<forall>y \<in> installable p. value_stored cfg ?S y" "storable cfg x"
    "\<And>sl. sl \<notin> slot_of ` installable p \<Longrightarrow> slot_synced cfg ?S ?cs sl \<or> sl \<in> loading p \<and> slot_initial cfg ?cs sl"
    using assms(1,2) by (auto simp: settings_inv_def)
  have "\<forall>y \<in> installable p'. value_stored cfg (?S(fst (setting_entry x) \<mapsto> snd (setting_entry x))) y"
    using i(2) assms(3) store_slot(2)[of x _ cfg ?S] stored_value_back[OF i(3)] unfolding assms(8) by fastforce
  moreover have "slot_synced cfg (?S(fst (setting_entry x) \<mapsto> snd (setting_entry x))) ?cs sl \<or> sl \<in> loading p \<and> slot_initial cfg ?cs sl"
    if "sl \<notin> slot_of ` installable p'" for sl
  proof -
    from that have "slot_of x \<noteq> sl" "sl \<notin> slot_of ` installable p" by (auto simp: assms(8))
    with i(4) store_slot(1)[of x sl cfg ?S ?cs] show ?thesis by blast
  qed
  ultimately show ?thesis
    using i(1) assms(1,9) unfolding settings_inv_def assms(4,5,6,7) loading_def by blast
qed

text \<open>The slots of the requests in flight and of the startup are in \<open>busy\<close>; distinct, they do not meet.\<close>

lemma busy_store:
  assumes "distinct (busy p)" "pr_inflight p = fs @ ToStore x # gs"
  shows "\<forall>y \<in> installable p. slot_of y \<noteq> slot_of x"
proof
  fix y assume "y \<in> installable p"
  then have y: "pr_restore p = Some y \<or> ToInstall y \<in> set fs \<union> set gs" using assms(2) by (auto simp: installable_def)
  have m: "v \<in> set (List.map_filter inflight_value hs)" if "ToInstall v \<in> set hs" for v hs
    using that by (induction hs) (auto simp: List.map_filter_def)
  have b: "busy p = map slot_of (List.map_filter inflight_value fs) @ slot_of x # map slot_of (List.map_filter inflight_value gs @
      (case pr_restore p of None \<Rightarrow> [] | Some x \<Rightarrow> [x]))"
    by (simp add: busy_def assms(2) List.map_filter_def)
  have "slot_of y \<in> set (map slot_of (List.map_filter inflight_value fs)) \<union> set (map slot_of (List.map_filter inflight_value gs @
      (case pr_restore p of None \<Rightarrow> [] | Some x \<Rightarrow> [x])))"
    using y m[of y fs] m[of y gs] by auto
  moreover have "u \<noteq> v" if "distinct (as @ v # bs)" "u \<in> set as \<union> set bs" for u v :: slot and as bs
    using that by auto
  ultimately show "slot_of y \<noteq> slot_of x" using assms(1) unfolding b by blast
qed

lemma latch_ops: "op \<in> set startup_ops \<Longrightarrow> op = LoadStartThreshold profile \<or> op = LoadTargetSoC profile \<Longrightarrow> is_latch_profile profile"
  by (auto simp: startup_ops_def latch_profiles_def is_latch_profile_def)

lemma settings_inv_read:
  assumes "settings_inv cfg p" "pr_restore p = None" "pr_pending p = op # ops" "outcome (en_driver e) (c_rec (sy_ctrl (pr_sys p))) = SqlOk"
    and "startup_read (store_recorder (en_driver e)) now op (sy_ctrl (pr_sys p)) = (c, x)"
    and "p' = (on_sys (on_ctrl (\<lambda>_. c)) p)\<lparr>pr_pending := ops, pr_restore := x\<rparr>"
  shows "settings_inv cfg p'"
proof -
  let ?c = "sy_ctrl (pr_sys p)"
  have i: "c_cfg ?c = cfg" "set (pr_pending p) \<subseteq> set startup_ops" "\<forall>y \<in> installable p. value_stored cfg (db_setting (c_rec ?c)) y"
    "\<And>sl. sl \<notin> slot_of ` installable p \<Longrightarrow>
        slot_synced cfg (db_setting (c_rec ?c)) (c_ctrl ?c) sl \<or> sl \<in> loading p \<and> slot_initial cfg (c_ctrl ?c) sl"
    using assms(1) by (auto simp: settings_inv_def)
  have c: "c_cfg c = cfg" "c_ctrl c = c_ctrl ?c" "db_setting (c_rec c) = db_setting (c_rec ?c)"
    using startup_read_same[of ?c "store_recorder (en_driver e)" now op] startup_read_ctrl[of "store_recorder (en_driver e)" now op ?c]
      startup_read_db[of "en_driver e" now op ?c] i(1) assms(5) by (simp_all add: same_loop_def)
  have inst: "installable p' = installable p \<union> set_option x"
    using assms(2,6) by (auto simp: installable_def)
  have load: "loading p = (case loads op of None \<Rightarrow> {} | Some sl \<Rightarrow> {sl}) \<union> loading p'"
    by (auto simp: loading_def assms(3,6) split: option.split)
  have none: "x = None" if "loads op = None" using that assms(5) by (cases op) auto
  have latch: "\<forall>profile. op = LoadStartThreshold profile \<or> op = LoadTargetSoC profile \<longrightarrow> is_latch_profile profile"
    using i(2) assms(3) latch_ops by auto
  have slot: "case x of Some y \<Rightarrow> slot_of y = sl \<and> value_stored cfg (db_setting (c_rec ?c)) y
      | None \<Rightarrow> slot_initial cfg (c_ctrl ?c) sl \<longrightarrow> slot_synced cfg (db_setting (c_rec ?c)) (c_ctrl ?c) sl"
    if "loads op = Some sl" for sl
    using startup_read_slot[OF assms(4) that latch, where now = now and cs = "c_ctrl ?c"] by (simp only: assms(5) snd_conv i(1))
  have "\<forall>y \<in> installable p'. value_stored cfg (db_setting (c_rec ?c)) y"
    using i(3) none slot inst by (cases "loads op") auto
  moreover have "slot_synced cfg (db_setting (c_rec ?c)) (c_ctrl ?c) sl \<or> sl \<in> loading p' \<and> slot_initial cfg (c_ctrl ?c) sl"
    if "sl \<notin> slot_of ` installable p'" for sl
  proof -
    from that inst have *: "sl \<notin> slot_of ` installable p" "\<And>y. x = Some y \<Longrightarrow> slot_of y \<noteq> sl" by auto
    from i(4)[OF *(1)] show ?thesis
    proof
      assume l: "sl \<in> loading p \<and> slot_initial cfg (c_ctrl ?c) sl"
      show ?thesis
      proof (cases "loads op = Some sl")
        case True
        with slot[OF True] *(2) l show ?thesis by (cases x) auto
      next
        case False
        with l load show ?thesis by (auto split: option.splits)
      qed
    qed simp
  qed
  ultimately show ?thesis
    using i(2) assms(1,3) c by (auto simp: settings_inv_def assms(6))
qed

text \<open>A step during which no two requests for one setting overlap, nor a request and the startup's
  restoring of that setting, and no query of the startup fails.\<close>

definition calm_step :: "environment \<Rightarrow> process \<Rightarrow> process \<Rightarrow> bool" where
  "calm_step e p p' \<longleftrightarrow> app_step e p p' \<and> distinct (busy p) \<and>
     (pr_pending p' \<noteq> pr_pending p \<longrightarrow> outcome (en_driver e) (c_rec (sy_ctrl (pr_sys p))) = SqlOk)"

lemma settings_inv_step:
  assumes "calm_step e p p'" "settings_inv cfg p"
  shows "settings_inv cfg p'"
proof -
  have step: "app_step e p p'" and dist: "distinct (busy p)"
    and ok: "pr_pending p' \<noteq> pr_pending p \<Longrightarrow> outcome (en_driver e) (c_rec (sy_ctrl (pr_sys p))) = SqlOk"
    using assms(1) by (simp_all add: calm_step_def)
  have plain: "settings_inv cfg p'" if "neutral p p'" "installable p' = installable p"
    using neutral_inv[OF that assms(2)] .
  from step show ?thesis
  proof cases
    case (ap_read op ops now c x)
    then have "pr_pending p' \<noteq> pr_pending p" by simp
    from settings_inv_read[OF assms(2) ap_read(4,5) ok[OF this] ap_read(6,1)] show ?thesis .
  next
    case (ap_restore x)
    show ?thesis
      by (rule settings_inv_install[OF assms(2), of x]) (use ap_restore in \<open>auto simp: installable_def\<close>)
  next
    case (ap_commit s now snap v pl)
    show ?thesis
      by (rule plain) (use ap_commit in \<open>simp_all add: neutral_def installable_def commit_frame\<close>)
  next
    case (ap_effects s now snap v pl)
    show ?thesis
      by (rule plain) (use ap_effects in \<open>simp_all add: neutral_def installable_def stored_settings_frame frame\<close>)
  next
    case (ap_prune now)
    show ?thesis
      by (rule plain) (use ap_prune same_loop_cfg[OF same_loop_startup_parts(4)] in
        \<open>simp_all add: neutral_def installable_def stored_settings_frame operator_settings_frame\<close>)
  next
    case (ap_request we ro m path srv q w' r)
    with request_neutral[OF ap_request(5,4,1)] show ?thesis by (intro plain)
  next
    case (ap_ask req x)
    have "storable (c_cfg (sy_ctrl (pr_sys p))) x" using accepted_storable[OF ap_ask(4,3)] .
    with ap_ask(1) assms(2) show ?thesis by (auto simp: settings_inv_def installable_def loading_def)
  next
    case (ap_serve fs f gs now c f')
    let ?ri = "live_recorder e p"
    show ?thesis
    proof (cases f)
      case (ToStore x)
      obtain r st where w: "rec_set_setting ?ri (fst (setting_entry x)) (snd (setting_entry x)) (c_rec (sy_ctrl (pr_sys p))) = (r, st)"
        by (meson surj_pair)
      have c: "c = (sy_ctrl (pr_sys p))\<lparr>c_rec := r\<rparr>" "f' = (if st = None then Some (ToInstall x) else None)"
        using ap_serve(3) w by (auto simp: ToStore store_setting_def simp del: store_recorder_simps split: option.splits)
      show ?thesis
      proof (cases st)
        case None
        from store_settings.set_ok[OF w[unfolded None]] have d: "db_setting r =
          (db_setting (c_rec (sy_ctrl (pr_sys p))))(fst (setting_entry x) \<mapsto> snd (setting_entry x))" .
        show ?thesis
          by (rule settings_inv_store[OF assms(2) _ busy_store[OF dist]])
            (use ap_serve(1,2) c None d in \<open>auto simp: ToStore installable_def\<close>)
      next
        case (Some err)
        from store_settings.set_failed[OF w[unfolded Some]] have "db_setting r = db_setting (c_rec (sy_ctrl (pr_sys p)))" .
        with ap_serve(1,2) c Some show ?thesis by (intro plain) (auto simp: neutral_def installable_def ToStore)
      qed
    next
      case (ToInstall x)
      show ?thesis
        by (rule settings_inv_install[OF assms(2), of x]) (use ap_serve ToInstall in \<open>auto simp: installable_def\<close>)
    next
      case (ToAudit action)
      with ap_serve have c: "c = audit ?ri now ''command'' action (sy_ctrl (pr_sys p))" "f' = None" by simp_all
      show ?thesis
        by (rule plain) (use ap_serve(1,2) ToAudit in \<open>auto simp: c neutral_def installable_def stored_settings_frame frame\<close>)
    qed
  qed (rule plain; simp add: neutral_def installable_def)+
qed

lemma settings_inv_start: "settings_inv (c_control cfg) (start_process cfg version d dir)"
proof -
  have "sl \<in> loading (start_process cfg version d dir) \<or> slot_synced (c_control cfg) (db_setting d) (c_ctrl (new_controller (c_control cfg) cmd d)) sl"
    for sl and cmd :: client
    by (cases sl) (auto simp: loading_def start_process_def startup_ops_def latch_profiles_def is_latch_profile_def
        stored_defs new_controller_def)
  moreover have "slot_initial (c_control cfg) (c_ctrl (new_controller (c_control cfg) cmd d)) sl" for sl and cmd :: client
    by (cases sl) (simp_all add: new_controller_def)
  moreover have "c_cfg (new_controller (c_control cfg) cmd d) = c_control cfg" "c_rec (new_controller (c_control cfg) cmd d) = d"
    for cmd :: client
    by (simp_all add: new_controller_def)
  ultimately show ?thesis
    unfolding settings_inv_def by (simp add: installable_def start_process_def) blast
qed

text \<open>C16. The operator's settings survive the end of the process, be it a crash at any point: requests may
  overlap each other, the startup and the loop step by step, and their statements may fail. As
  long as no two of them work on the same setting at once and the startup could read, then whenever no
  request is between its two halves, a new start on the database as it is loads exactly the
  settings that are in force.\<close>

theorem settings_survive:
  assumes "wha_main args build vp sq d dir = Runs p0" and "(calm_step e)\<^sup>*\<^sup>* p0 p"
    and "started p" and "\<forall>f \<in> set (pr_inflight p). \<exists>action. f = ToAudit action" and "all_ok drv"
  shows "operator_settings (c_ctrl (startup (store_recorder drv) now
      (new_controller (c_control (pr_cfg p0)) cmd (c_rec (sy_ctrl (pr_sys p)))))) =
    operator_settings (c_ctrl (sy_ctrl (pr_sys p)))"
proof -
  obtain cfg where cfg: "p0 = start_process cfg (bi_version build) d dir" "control_ok (c_control cfg)" "load vp = Inr cfg"
    using wha_main_runs[OF assms(1)] .
  let ?S = "db_setting (c_rec (sy_ctrl (pr_sys p)))"
  from assms(2) have "settings_inv (c_control cfg) p"
    by (induction rule: rtranclp_induct) (use settings_inv_start settings_inv_step cfg(1) in blast)+
  moreover have "installable p = {}" "loading p = {}"
    using assms(3,4) by (auto simp: installable_def loading_def started_def)
  ultimately have now: "settings_match (c_control cfg) ?S (c_ctrl (sy_ctrl (pr_sys p)))"
    by (simp add: settings_inv_def match_slots)
  have later: "settings_match (c_control cfg) ?S
      (c_ctrl (startup (store_recorder drv) now (new_controller (c_control cfg) cmd (c_rec (sy_ctrl (pr_sys p))))))"
    using store_settings.synced_startup[OF reads_all_ok[OF assms(5)], of now "c_control cfg" cmd "c_rec (sy_ctrl (pr_sys p))"]
    by (simp add: store_settings.synced_def)
  have "pr_cfg p0 = cfg" by (simp add: cfg(1) start_process_def)
  with settings_match_unique[OF now later] show ?thesis by (simp add: operator_settings_def)
qed

section \<open>Witness\<close>

text \<open>A start without requests, then a request up to its audit record.\<close>

definition quiet :: "process \<Rightarrow> bool" where
  "quiet p \<longleftrightarrow> pr_returned p = None \<and> pr_loop p \<and> pr_listening p \<and> pr_store_open p \<and> pr_inflight p = []"

lemma demo_outcome: "outcome (en_driver demo_env) d = SqlOk"
  by (simp add: demo_env_def demo_driver_def)

lemma quiet_calm: "app_step demo_env p p' \<Longrightarrow> pr_inflight p = [] \<Longrightarrow> calm_step demo_env p p'"
  by (simp add: calm_step_def demo_outcome busy_def split: option.split)

lemma quiet_starts: "quiet p \<Longrightarrow> \<exists>p'. (calm_step demo_env)\<^sup>*\<^sup>* p p' \<and> quiet p' \<and> started p'"
proof (induction "startup_left p" arbitrary: p rule: less_induct)
  case less
  show ?case
  proof (cases "started p")
    case True
    with less.prems show ?thesis by blast
  next
    case False
    have "\<exists>p'. app_step demo_env p p' \<and> startup_left p' < startup_left p \<and> quiet p'"
    proof (cases "pr_restore p")
      case None
      with False obtain op ops where ops: "pr_pending p = op # ops" by (auto simp: started_def neq_Nil_conv)
      obtain c x where "startup_read (store_recorder (en_driver demo_env)) 0 op (sy_ctrl (pr_sys p)) = (c, x)" by fastforce
      from ap_read[OF _ _ None ops this] less.prems None ops show ?thesis
        by (intro exI[of _ "(on_sys (on_ctrl (\<lambda>_. c)) p)\<lparr>pr_pending := ops, pr_restore := x\<rparr>"])
          (simp add: quiet_def startup_left_def)
    next
      case (Some x)
      from ap_restore[OF _ _ Some] less.prems Some show ?thesis
        by (intro exI[of _ "(on_sys (on_ctrl (install_setting x)) p)\<lparr>pr_restore := None\<rparr>"])
          (simp add: quiet_def startup_left_def)
    qed
    then obtain p' where "app_step demo_env p p'" "startup_left p' < startup_left p" "quiet p'" by blast
    with less.hyps[of p'] less.prems show ?thesis unfolding quiet_def by (meson converse_rtranclp_into_rtranclp quiet_calm)
  qed
qed

lemma request_served:
  assumes "quiet p" "started p" "valid_charge_power mode"
  shows "\<exists>p'. (calm_step demo_env)\<^sup>*\<^sup>* p p' \<and> started p' \<and> (\<exists>action. pr_inflight p' = [ToAudit action]) \<and>
    cs_charge_power (c_ctrl (sy_ctrl (pr_sys p'))) = mode"
proof -
  let ?x = "PowerValue mode" and ?c = "sy_ctrl (pr_sys p)"
  define p1 where "p1 = p\<lparr>pr_inflight := [ToStore ?x]\<rparr>"
  define c2 where "c2 = fst (store_setting (store_recorder (en_driver demo_env)) ?x ?c)"
  define p2 where "p2 = (on_sys (on_ctrl (\<lambda>_. c2)) p)\<lparr>pr_inflight := [ToInstall ?x]\<rparr>"
  define p3 where "p3 = (on_sys (on_ctrl (install_setting ?x)) p2)\<lparr>pr_inflight := [ToAudit (setting_action ?x)]\<rparr>"
  have calm: "calm_step demo_env q q'" if "app_step demo_env q q'" "pr_restore q = None" "\<exists>f. pr_inflight q = [f]" for q q'
    using that by (auto simp: calm_step_def demo_outcome busy_def List.map_filter_def split: option.split)
  have q: "pr_restore p = None" "pr_inflight p = []" "pr_listening p" "pr_store_open p" using assms by (simp_all add: quiet_def started_def)
  have "snd (store_setting (store_recorder (en_driver demo_env)) ?x ?c) = None"
    by (simp add: store_setting_def set_setting_def demo_outcome)
  then have s: "inflight_step (live_recorder demo_env p1) 0 (ToStore ?x) ?c = (c2, Some (ToInstall ?x))"
    using q(4) by (simp add: c2_def live_env_def p1_def split_beta)
  have "calm_step demo_env p p1"
    using ap_ask[of p "AskPower mode" ?x demo_env] q assms(3) by (intro quiet_calm) (simp_all add: p1_def)
  moreover have "calm_step demo_env p1 p2"
    using ap_serve[of p1 "[]" "ToStore ?x" "[]" demo_env 0 c2 "Some (ToInstall ?x)"] s q
    by (intro calm) (simp_all add: p1_def p2_def on_sys_def)
  moreover have "calm_step demo_env p2 p3"
    using ap_serve[of p2 "[]" "ToInstall ?x" "[]" demo_env 0 "install_setting ?x c2" "Some (ToAudit (setting_action ?x))"] q
    by (intro calm) (simp_all add: p2_def p3_def on_sys_def on_ctrl_def)
  ultimately have "(calm_step demo_env)\<^sup>*\<^sup>* p p3" by (meson rtranclp.rtrancl_into_rtrancl rtranclp.rtrancl_refl)
  moreover have "started p3" "pr_inflight p3 = [ToAudit (setting_action ?x)]" "cs_charge_power (c_ctrl (sy_ctrl (pr_sys p3))) = mode"
    using assms(2) by (simp_all add: p3_def p2_def started_def)
  ultimately show ?thesis by blast
qed

theorem settings_survive_witness:
  "\<exists>p. (calm_step demo_env)\<^sup>*\<^sup>* demo_process p \<and> cs_charge_power (c_ctrl (startup (store_recorder demo_driver) 0
      (new_controller (c_control (pr_cfg demo_process)) (c_cmd demo_new) (c_rec (sy_ctrl (pr_sys p)))))) = EnableModeNow"
proof -
  have "quiet demo_listening" by (simp add: quiet_def demo_listening_def demo_process_def start_process_def)
  with quiet_starts obtain q where "(calm_step demo_env)\<^sup>*\<^sup>* demo_listening q" and q: "quiet q" "started q" by blast
  moreover have "calm_step demo_env demo_process demo_listening"
    by (rule quiet_calm[OF demo_leaving_steps(1)]) (simp add: demo_process_def start_process_def)
  ultimately have first: "(calm_step demo_env)\<^sup>*\<^sup>* demo_process q" by (meson converse_rtranclp_into_rtranclp)
  have "valid_charge_power EnableModeNow" by (simp add: valid_charge_power_def)
  with request_served[OF q] obtain p where p: "(calm_step demo_env)\<^sup>*\<^sup>* q p" "started p" "\<exists>action. pr_inflight p = [ToAudit action]"
    "cs_charge_power (c_ctrl (sy_ctrl (pr_sys p))) = EnableModeNow" by blast
  have "(calm_step demo_env)\<^sup>*\<^sup>* demo_process p" using first p(1) by simp
  moreover from p(3) have "\<forall>f \<in> set (pr_inflight p). \<exists>action. f = ToAudit action" by auto
  from settings_survive[OF demo_runs calculation p(2) this demo_all_ok, of 0 "c_cmd demo_new"] p(4)
  have "cs_charge_power (c_ctrl (startup (store_recorder demo_driver) 0
      (new_controller (c_control (pr_cfg demo_process)) (c_cmd demo_new) (c_rec (sy_ctrl (pr_sys p)))))) = EnableModeNow"
    by (simp add: operator_settings_def)
  ultimately show ?thesis by blast
qed

end
