(* ===== verification/AppFinal.thy ===== *)
theory AppFinal
  imports AppEnds
begin

text \<open>
  After \<open>Run\<close> has returned: requests still being served and the janitor may go on, on a closed store.
\<close>

section \<open>Writes on a closed store\<close>

text \<open>The database without the count of the calls made on its handle.\<close>

definition durable :: "db \<Rightarrow> db" where
  "durable d = d\<lparr>db_calls := 0\<rparr>"

lemma durable_called [simp]: "durable (called d) = durable d" "durable (d\<lparr>db_calls := n\<rparr>) = durable d"
  by (simp_all add: durable_def called_def)

lemma closed_outcome [simp]: "outcome closed_driver d = SqlFail"
  by (simp add: outcome_def closed_driver_def)

lemma closed_statements:
  "insert_event closed_driver ev d = (called d, Some (Wrapped ''insert event'' ErrDriver))"
  "set_setting closed_driver key val d = (called d, Some (Wrapped ''set setting'' ErrDriver))"
  "prune_events closed_driver before d = (called d, Inl (Wrapped ''prune events'' ErrDriver))"
  "prune_samples closed_driver before d = (called d, Inl (Wrapped ''prune samples'' ErrDriver))"
  by (simp_all add: insert_event_def set_setting_def prune_events_def prune_samples_def)

text \<open>The same database and the same commands sent.\<close>

definition nothing_lasting :: "(client, db) controller \<Rightarrow> (client, db) controller \<Rightarrow> bool" where
  "nothing_lasting c c' \<longleftrightarrow> durable (c_rec c') = durable (c_rec c) \<and> c_cmd c' = c_cmd c"

lemma closed_operations:
  "nothing_lasting c (prune (store_recorder closed_driver) now c)"
  "nothing_lasting c (audit (store_recorder closed_driver) now k action c)"
  "nothing_lasting c (set_override (store_recorder closed_driver) now mode until bypass soc c)"
  "nothing_lasting c (fst (store_setting (store_recorder closed_driver) x c))"
  "nothing_lasting c (install_setting x c)" "nothing_lasting c (counted n c)"
  using same_loop_cfg[OF install_same[of c x]]
  by (cases x; simp add: nothing_lasting_def prune_def audit_def set_override_def store_setting_def closed_statements counted_def Let_def)+

lemma closed_inflight: "nothing_lasting c (fst (inflight_step (store_recorder closed_driver) now f c))"
  using closed_operations(2,4,5)[of c] by (cases f) (simp_all add: split_beta split: option.split)

section \<open>Nothing lasting happens after the return\<close>

lemma returned_step:
  assumes "app_step e p p'" "pr_returned p = Some r" "\<not> pr_store_open p"
  shows "nothing_lasting (sy_ctrl (pr_sys p)) (sy_ctrl (pr_sys p')) \<and> pr_returned p' = Some r \<and> \<not> pr_store_open p'"
proof -
  have d: "en_driver (live_env e p) = closed_driver" using assms(3) by (simp add: live_env_def)
  from assms(1) show ?thesis
  proof cases
    case (ap_request we ro m path srv q w' r')
    have "nothing_lasting (wd_ctrl (process_world p)) (wd_ctrl w')"
      using ap_request(5,4) by (cases rule: plain_request) (simp_all add: closed_operations ap_request(3) d)
    with ap_request(1) assms(2,3) show ?thesis by (simp add: process_world_def)
  next
    case (ap_serve fs f gs now c f')
    with closed_inflight[of "sy_ctrl (pr_sys p)" now f] assms(2,3) show ?thesis by (simp add: d)
  next
    case (ap_prune now)
    with assms(2,3) show ?thesis by (simp add: d closed_operations)
  next
    case (ap_ask req x)
    with assms(2,3) show ?thesis by (simp add: nothing_lasting_def)
  qed (use assms(2,3) in \<open>simp_all add: nothing_lasting_def\<close>)
qed

text \<open>C24. Nothing lasting happens after \<open>Run\<close> has returned: whatever the requests that are still being
  served and the janitor do then, the tables stay as they were when the store was closed, no
  command is published, and the result of \<open>Run\<close> stands.\<close>

theorem store_final:
  assumes "wha_main args build vp sq d dir = Runs p0" and "(app_step e)\<^sup>*\<^sup>* p0 p" and "pr_returned p = Some r"
    and "(app_step e)\<^sup>*\<^sup>* p p'"
  shows "durable (c_rec (sy_ctrl (pr_sys p'))) = durable (c_rec (sy_ctrl (pr_sys p))) \<and>
    acked_commands (c_cmd (sy_ctrl (pr_sys p'))) = acked_commands (c_cmd (sy_ctrl (pr_sys p))) \<and> pr_returned p' = Some r"
proof -
  obtain cfg where cfg: "p0 = start_process cfg (bi_version build) d dir" "control_ok (c_control cfg)"
    using wha_main_runs[OF assms(1)] .
  have "lifecycle_ok p" using app_invariants(2)[OF cfg(2)] assms(2) cfg(1) by blast
  then have "\<not> pr_store_open p" by (simp add: lifecycle_ok_def assms(3))
  from assms(4) have "nothing_lasting (sy_ctrl (pr_sys p)) (sy_ctrl (pr_sys p')) \<and> pr_returned p' = Some r \<and> \<not> pr_store_open p'"
  proof (induction rule: rtranclp_induct)
    case base
    with assms(3) \<open>\<not> pr_store_open p\<close> show ?case by (simp add: nothing_lasting_def)
  next
    case (step q q')
    with returned_step[OF step.hyps(2)] show ?case by (auto simp: nothing_lasting_def)
  qed
  then show ?thesis by (simp add: nothing_lasting_def)
qed

section \<open>Witness\<close>

theorem store_final_witness:
  "\<exists>p p'. (app_step demo_env)\<^sup>*\<^sup>* demo_process p \<and> pr_returned p = Some None \<and> app_step demo_env p p' \<and>
    db_calls (c_rec (sy_ctrl (pr_sys p'))) = db_calls (c_rec (sy_ctrl (pr_sys p))) + 2 \<and>
    durable (c_rec (sy_ctrl (pr_sys p'))) = durable (c_rec (sy_ctrl (pr_sys p)))"
proof -
  obtain p where p: "(app_step demo_env)\<^sup>*\<^sup>* demo_process p" "pr_returned p = Some None" using demo_ended by blast
  obtain cfg where cfg: "demo_process = start_process cfg (bi_version demo_build) empty_db Map.empty" "control_ok (c_control cfg)" "load demo_viper = Inr cfg"
    using wha_main_runs[OF demo_runs] .
  have "cfg = default_config" using arg_cong[OF cfg(1), of pr_cfg] by (simp add: demo_process_def start_process_def)
  with app_invariants[OF cfg(2) p(1)[unfolded cfg(1)]] p(2)
  have f: "started p" "\<not> pr_store_open p" "c_cfg (sy_ctrl (pr_sys p)) = c_control default_config"
    by (auto simp: lifecycle_ok_def wire_inv_def)
  let ?p = "on_sys (on_ctrl (prune (live_recorder demo_env p) 0)) p"
  have s: "app_step demo_env p ?p" using f(1) by (rule ap_prune) (simp add: f(3) default_config_def duration_defs)
  have "db_calls (c_rec (sy_ctrl (pr_sys ?p))) = db_calls (c_rec (sy_ctrl (pr_sys p))) + 2"
    by (simp add: f(2) live_env_def prune_def Let_def closed_statements called_def)
  with p s store_final[OF demo_runs p r_into_rtranclp[of "app_step demo_env", OF s]] show ?thesis by blast
qed

end
